(* ===== verification/Mqtt_Prelude.thy ===== *)
theory Mqtt_Prelude
  imports Main "HOL-Library.Word" "HOL-Library.Multiset"
begin

text \<open>
  Shared vocabulary of the development: the machine integers of the source, the result type of
  fallible code, the state-passing combinators the readers, writers and client operations are
  written with, and the generic facts on positions, association lists and multisets on which
  the component proofs rest.

  Conventions. A Rust call can return \<open>Ok\<close>, return \<open>Err\<close>, or panic (\<open>unreachable!\<close>,
  \<open>unwrap\<close>, an assertion, an index out of range, an arithmetic overflow); the third case is a
  value of its own, so that \<^emph>\<open>the call does not panic\<close> is a statement one can prove. Debug
  assertions and overflow checks are modelled as they behave in a debug build. Log output is not
  modelled.
\<close>

named_theorems session_simps \<open>equations that evaluate session and handle operations\<close>
named_theorems codec_simps \<open>equations that evaluate readers and writers\<close>
named_theorems client_simps \<open>equations that evaluate client operations\<close>

section \<open>Machine integers\<close>

type_synonym u8 = "8 word"
type_synonym u16 = "16 word"
type_synonym u32 = "32 word"

abbreviation u16_MAX :: u16 where "u16_MAX \<equiv> 65535"
abbreviation u32_MAX :: u32 where "u32_MAX \<equiv> 4294967295"

lemma u16_nonzero_unat: "(p :: u16) \<noteq> 0 \<Longrightarrow> 1 \<le> unat p"
  by (simp add: unat_gt_0 Suc_leI)

lemma u16_unat_lt: "unat (p :: u16) < 65536"
  using unsigned_less [of p] by simp

section \<open>Results and state passing\<close>

datatype ('e, 'a) res = Ok 'a | Err 'e | Panic

type_synonym ('s, 'e, 'a) comp = "'s \<Rightarrow> ('e, 'a) res \<times> 's"

definition ret :: "'a \<Rightarrow> ('s, 'e, 'a) comp" where
  "ret a s = (Ok a, s)"

definition fail :: "'e \<Rightarrow> ('s, 'e, 'a) comp" where
  "fail e s = (Err e, s)"

definition crash :: "('s, 'e, 'a) comp" where
  "crash s = (Panic, s)"

text \<open>The \<open>?\<close> operator: go on with the value, return early with the error.\<close>

definition bnd :: "('s, 'e, 'a) comp \<Rightarrow> ('a \<Rightarrow> ('s, 'e, 'b) comp) \<Rightarrow> ('s, 'e, 'b) comp" where
  "bnd m f s = (case m s of
      (Ok a, s') \<Rightarrow> f a s'
    | (Err e, s') \<Rightarrow> (Err e, s')
    | (Panic, s') \<Rightarrow> (Panic, s'))"

text \<open>\<open>map_err\<close>, also applied implicitly by \<open>?\<close> through \<open>From\<close>.\<close>

definition map_err :: "('e \<Rightarrow> 'f) \<Rightarrow> ('s, 'e, 'a) comp \<Rightarrow> ('s, 'f, 'a) comp" where
  "map_err f m s = (case m s of
      (Ok a, s') \<Rightarrow> (Ok a, s')
    | (Err e, s') \<Rightarrow> (Err (f e), s')
    | (Panic, s') \<Rightarrow> (Panic, s'))"

text \<open>\<open>ok_or\<close> on an option.\<close>

definition ok_or :: "'e \<Rightarrow> 'a option \<Rightarrow> ('s, 'e, 'a) comp" where
  "ok_or e x = (case x of None \<Rightarrow> fail e | Some a \<Rightarrow> ret a)"

lemma bnd_ret [simp]: "bnd (ret a) f = f a"
  by (rule ext) (simp add: bnd_def ret_def)

lemma bnd_fail [simp]: "bnd (fail e) f = fail e"
  by (rule ext) (simp add: bnd_def fail_def)

lemma bnd_crash [simp]: "bnd crash f = crash"
  by (rule ext) (simp add: bnd_def crash_def)

lemma bnd_assoc [simp]: "bnd (bnd m f) g = bnd m (\<lambda>a. bnd (f a) g)"
  by (rule ext) (auto simp: bnd_def split: prod.splits res.splits)

lemma bnd_Ok [simp]: "m s = (Ok a, s') \<Longrightarrow> bnd m f s = f a s'"
  by (simp add: bnd_def)

lemma bnd_Err [simp]: "m s = (Err e, s') \<Longrightarrow> bnd m f s = (Err e, s')"
  by (simp add: bnd_def)

lemma bnd_Panic [simp]: "m s = (Panic, s') \<Longrightarrow> bnd m f s = (Panic, s')"
  by (simp add: bnd_def)

lemma bnd_OkE:
  assumes "bnd m f s = (Ok b, t)"
  obtains a s' where "m s = (Ok a, s')" and "f a s' = (Ok b, t)"
  using assms by (auto simp: bnd_def split: prod.splits res.splits)

lemma map_err_ret [simp]: "map_err f (ret a) = ret a"
  by (rule ext) (simp add: map_err_def ret_def)

lemma map_err_fail [simp]: "map_err f (fail e) = fail (f e)"
  by (rule ext) (simp add: map_err_def fail_def)

lemma map_err_Ok [simp]: "m s = (Ok a, s') \<Longrightarrow> map_err f m s = (Ok a, s')"
  by (simp add: map_err_def)

lemma map_err_Ok_iff [simp]: "map_err f m s = (Ok a, s') \<longleftrightarrow> m s = (Ok a, s')"
  by (auto simp: map_err_def split: prod.splits res.splits)

text \<open>The basic computations applied to a state; used explicitly, to run a computation.\<close>

lemmas run_simps = ret_def fail_def crash_def

lemma ok_or_simps [simp]: "ok_or e None = fail e" "ok_or e (Some a) = ret a"
  by (simp_all add: ok_or_def)

section \<open>Positions in a vector\<close>

text \<open>\<open>Iterator::position\<close>: the first index whose element satisfies the predicate.\<close>

fun find_pos :: "('a \<Rightarrow> bool) \<Rightarrow> 'a list \<Rightarrow> nat option" where
  "find_pos P [] = None"
| "find_pos P (x # xs) = (if P x then Some 0 else map_option Suc (find_pos P xs))"

lemma find_pos_None_iff [simp]: "find_pos P xs = None \<longleftrightarrow> (\<forall>x \<in> set xs. \<not> P x)"
  by (induction xs) auto

lemma find_pos_SomeD: "find_pos P xs = Some i \<Longrightarrow> i < length xs \<and> P (xs ! i)"
  by (induction xs arbitrary: i) (auto split: if_splits)

lemma find_pos_Some_first: "find_pos P xs = Some i \<Longrightarrow> j < i \<Longrightarrow> \<not> P (xs ! j)"
proof (induction xs arbitrary: i j)
  case Nil
  then show ?case by simp
next
  case (Cons x xs)
  then show ?case by (cases j) (auto split: if_splits)
qed

text \<open>
  \<open>Vec::swap_remove\<close> is code of the \<open>heapless\<close> crate: it removes the element at an index and
  does not keep the order of the others. It is a parameter \<open>sr\<close> of the model. As the operation is
  parametric in the element type, \<open>sr n i\<close> lists, for a vector of length \<open>n\<close> and an index \<open>i\<close>, the
  old positions in the order in which the new vector holds them; one parameter then serves the
  vectors of every element type. What the client relies on is the documented effect: exactly
  position \<open>i\<close> is gone.
\<close>

type_synonym remover = "nat \<Rightarrow> nat \<Rightarrow> nat list"

definition swap_remove_ok :: "remover \<Rightarrow> bool" where
  "swap_remove_ok sr \<longleftrightarrow> (\<forall>n i. i < n \<longrightarrow> mset (sr n i) = mset [0..<n] - {#i#})"

text \<open>An index out of range makes the call panic: \<open>None\<close>.\<close>

definition swap_remove :: "remover \<Rightarrow> 'a list \<Rightarrow> nat \<Rightarrow> 'a list option" where
  "swap_remove sr xs i =
     (if i < length xs then Some (map (\<lambda>j. xs ! j) (sr (length xs) i)) else None)"

text \<open>A concrete remover, the documented one: the last element takes the freed place.\<close>

definition last_takes_place :: remover where
  "last_takes_place n i = (if i = n - 1 then [0..<n - 1] else [0..<n - 1][i := n - 1])"

lemma last_takes_place_ok: "swap_remove_ok last_takes_place"
proof -
  have "mset (last_takes_place n i) = mset [0..<n] - {#i#}" if "i < n" for n i
  proof -
    obtain m where m: "n = Suc m" using \<open>i < n\<close> by (cases n) simp_all
    show ?thesis
    proof (cases "i = m")
      case True
      then show ?thesis by (simp add: last_takes_place_def m)
    next
      case False
      with that m have "i < m" by simp
      then have "mset ([0..<m][i := m]) = add_mset m (mset [0..<m]) - {#i#}"
        by (simp add: mset_update)
      then show ?thesis using False by (simp add: last_takes_place_def m)
    qed
  qed
  then show ?thesis by (simp add: swap_remove_ok_def)
qed

lemma mset_swap_remove:
  assumes "swap_remove_ok sr" and "swap_remove sr xs i = Some ys"
  shows "mset ys = mset xs - {#xs ! i#}" and "i < length xs"
proof -
  from assms(2) have i: "i < length xs" and ys: "ys = map (\<lambda>j. xs ! j) (sr (length xs) i)"
    by (auto simp: swap_remove_def split: if_splits)
  have "mset (sr (length xs) i) = mset [0..<length xs] - {#i#}"
    using assms(1) i by (simp add: swap_remove_ok_def)
  then have "mset ys = image_mset ((!) xs) (mset [0..<length xs] - {#i#})"
    by (simp add: ys)
  also have "\<dots> = image_mset ((!) xs) (mset [0..<length xs]) - {#xs ! i#}"
    using i by (subst image_mset_Diff) auto
  also have "image_mset ((!) xs) (mset [0..<length xs]) = mset xs"
    by (metis map_nth mset_map)
  finally show "mset ys = mset xs - {#xs ! i#}" .
  show "i < length xs" by (rule i)
qed

lemma swap_remove_defined [simp]: "(swap_remove sr xs i = None) \<longleftrightarrow> length xs \<le> i"
  by (auto simp: swap_remove_def)

lemma length_swap_remove:
  assumes "swap_remove_ok sr" and "swap_remove sr xs i = Some ys"
  shows "length ys = length xs - 1"
proof -
  have "size (mset ys) = size (mset xs - {#xs ! i#})"
    using mset_swap_remove [OF assms] by simp
  moreover have "xs ! i \<in># mset xs"
    using mset_swap_remove(2) [OF assms] by simp
  ultimately show ?thesis by (simp add: size_Diff_singleton)
qed

section \<open>Association lists without duplicate keys\<close>

abbreviation keys :: "('k \<times> 'v) list \<Rightarrow> 'k list" where
  "keys xs \<equiv> map fst xs"

lemma mset_remove_nth:
  assumes "mset ys = mset xs - {#x#}" and "x \<in> set xs"
  shows "mset xs = add_mset x (mset ys)"
  using assms by (metis insert_DiffM set_mset_mset)

lemma swap_remove_map_of:
  assumes "swap_remove_ok sr" and "distinct (keys xs)" and "swap_remove sr xs i = Some ys"
  shows "map_of ys = (map_of xs)(fst (xs ! i) := None)" and "distinct (keys ys)"
    and "set (keys ys) = set (keys xs) - {fst (xs ! i)}"
proof -
  have "xs ! i \<in> set xs"
    using mset_swap_remove(2) [OF assms(1,3)] by simp
  with mset_swap_remove(1) [OF assms(1,3)] have mx: "mset xs = add_mset (xs ! i) (mset ys)"
    by (rule mset_remove_nth)
  obtain k v where kv: "xs ! i = (k, v)" by fastforce
  have "image_mset fst (mset xs) = image_mset fst (mset ((k, v) # ys))"
    using mx kv by simp
  then have m: "mset (keys xs) = mset (k # keys ys)" by simp
  have d: "distinct (k # keys ys)"
    using mset_eq_imp_distinct_iff [OF m] assms(2) by blast
  have ks: "set (keys xs) = insert k (set (keys ys))"
    using mset_eq_setD [OF m] by simp
  show "distinct (keys ys)" using d by simp
  show "set (keys ys) = set (keys xs) - {fst (xs ! i)}"
    using d ks kv by auto
  have "map_of xs = map_of ((k, v) # ys)"
  proof (rule map_of_inject_set [THEN iffD2])
    show "distinct (keys xs)" by (rule assms(2))
    show "distinct (keys ((k, v) # ys))" using d by simp
    have "mset xs = mset ((k, v) # ys)" using mx kv by simp
    then show "set xs = set ((k, v) # ys)" by (rule mset_eq_setD)
  qed
  moreover have "map_of ys k = None"
    using d by (simp add: map_of_eq_None_iff)
  ultimately show "map_of ys = (map_of xs)(fst (xs ! i) := None)"
    using kv by (auto simp: fun_eq_iff)
qed

lemma map_of_update_value:
  assumes "distinct (keys xs)" and "i < length xs"
  shows "map_of (xs[i := (fst (xs ! i), v)]) = (map_of xs)(fst (xs ! i) \<mapsto> v)"
    and "keys (xs[i := (fst (xs ! i), v)]) = keys xs"
proof -
  show k: "keys (xs[i := (fst (xs ! i), v)]) = keys xs"
    by (metis list_update_id map_update fst_conv)
  have "map_of (xs[i := (fst (xs ! i), v)]) k' = ((map_of xs)(fst (xs ! i) \<mapsto> v)) k'" for k'
    using assms
  proof (induction xs arbitrary: i)
    case Nil
    then show ?case by simp
  next
    case (Cons x xs)
    then show ?case by (cases i; cases x) (auto simp: nth_mem image_iff)
  qed
  then show "map_of (xs[i := (fst (xs ! i), v)]) = (map_of xs)(fst (xs ! i) \<mapsto> v)"
    by (rule ext)
qed

lemma find_pos_key:
  assumes "distinct (keys xs)"
  shows "map_of xs k = map_option (\<lambda>i. snd (xs ! i)) (find_pos (\<lambda>e. fst e = k) xs)"
  using assms by (induction xs) (auto simp: option.map_comp o_def)

lemma find_pos_keyD:
  assumes "find_pos (\<lambda>e. fst e = k) xs = Some i"
  shows "i < length xs" and "fst (xs ! i) = k"
  using find_pos_SomeD [OF assms] by simp_all

lemma map_of_snoc_fresh:
  assumes "k \<notin> set (keys xs)"
  shows "map_of (xs @ [(k, v)]) = (map_of xs)(k \<mapsto> v)"
proof
  fix x
  have "map_of xs k = None" using assms by (simp add: map_of_eq_None_iff)
  then show "map_of (xs @ [(k, v)]) x = ((map_of xs)(k \<mapsto> v)) x"
    by (cases "map_of xs x") (auto simp: map_add_def)
qed

end
