(* ===== verification/Mqtt_Types.thy ===== *)
theory Mqtt_Types
  imports Mqtt_Prelude
begin

unbundle bit_operations_syntax

text \<open>
  The scalar types of \<open>src/types\<close>, \<open>src/header.rs\<close> and \<open>src/client/options/ack.rs\<close>: packet
  identifiers, Quality of Service levels, reason codes, the variable byte integer and the fixed
  header, with the operations the other components call on them.

  \<open>PacketIdentifier\<close> wraps \<open>NonZero<u16>\<close>; the model is the 16-bit word, and \<^emph>\<open>not zero\<close> is the
  explicit predicate \<open>pid_valid\<close>, which every constructor of the source establishes.
\<close>

section \<open>Packet identifiers\<close>

type_synonym pid = u16

definition pid_valid :: "pid \<Rightarrow> bool" where
  "pid_valid p \<longleftrightarrow> p \<noteq> 0"

definition pid_ONE :: pid where
  "pid_ONE = 1"

definition pid_next :: "pid \<Rightarrow> pid" where
  "pid_next p = (let n = p + 1 in if n = 0 then pid_ONE else n)"

section \<open>Acknowledgement mode and Quality of Service\<close>

datatype ack_mode = Automatic | Manual

definition is_manual :: "ack_mode \<Rightarrow> bool" where
  "is_manual m = (case m of Manual \<Rightarrow> True | Automatic \<Rightarrow> False)"

lemma is_manual_simps [simp]: "is_manual Manual" "\<not> is_manual Automatic"
  by (simp_all add: is_manual_def)

datatype qos = AtMostOnce | AtLeastOnce | ExactlyOnce

datatype identified_qos = IdAtMostOnce | IdAtLeastOnce pid | IdExactlyOnce pid

fun qos_of :: "identified_qos \<Rightarrow> qos" where
  "qos_of IdAtMostOnce = AtMostOnce"
| "qos_of (IdAtLeastOnce _) = AtLeastOnce"
| "qos_of (IdExactlyOnce _) = ExactlyOnce"

fun packet_identifier :: "identified_qos \<Rightarrow> pid option" where
  "packet_identifier IdAtMostOnce = None"
| "packet_identifier (IdAtLeastOnce p) = Some p"
| "packet_identifier (IdExactlyOnce p) = Some p"

definition qos_into_bits :: "qos \<Rightarrow> nat \<Rightarrow> u8" where
  "qos_into_bits q left_shift =
     push_bit left_shift (case q of AtMostOnce \<Rightarrow> 0x00 | AtLeastOnce \<Rightarrow> 0x01 | ExactlyOnce \<Rightarrow> 0x02)"

definition qos_try_from_bits :: "u8 \<Rightarrow> qos option" where
  "qos_try_from_bits b =
     (if b = 0x00 then Some AtMostOnce
      else if b = 0x01 then Some AtLeastOnce
      else if b = 0x02 then Some ExactlyOnce
      else None)"

primrec qos_level :: "qos \<Rightarrow> nat" where
  "qos_level AtMostOnce = 0"
| "qos_level AtLeastOnce = 1"
| "qos_level ExactlyOnce = 2"

text \<open>The derived order on \<open>QoS\<close> is the order of the discriminants.\<close>

instantiation qos :: linorder
begin

definition less_eq_qos :: "qos \<Rightarrow> qos \<Rightarrow> bool" where
  "less_eq_qos a b \<longleftrightarrow> qos_level a \<le> qos_level b"

definition less_qos :: "qos \<Rightarrow> qos \<Rightarrow> bool" where
  "less_qos a b \<longleftrightarrow> qos_level a < qos_level b"

instance
proof
  show "a = b" if "a \<le> b" and "b \<le> a" for a b :: qos
    using that by (cases a; cases b) (simp_all add: less_eq_qos_def)
qed (auto simp: less_eq_qos_def less_qos_def)

end

section \<open>Reason codes\<close>

datatype reason_code =
    RcSuccess | RcGrantedQoS1 | RcGrantedQoS2 | RcDisconnectWithWillMessage
     | RcNoMatchingSubscribers | RcNoSubscriptionExisted | RcContinueAuthentication
     | RcReAuthenticate | RcUnspecifiedError | RcMalformedPacket | RcProtocolError
     | RcImplementationSpecificError | RcUnsupportedProtocolVersion
     | RcClientIdentifierNotValid | RcBadUserNameOrPassword | RcNotAuthorized
     | RcServerUnavailable | RcServerBusy | RcBanned | RcServerShuttingDown
     | RcBadAuthenticationMethod | RcKeepAliveTimeout | RcSessionTakenOver
     | RcTopicFilterInvalid | RcTopicNameInvalid | RcPacketIdentifierInUse
     | RcPacketIdentifierNotFound | RcReceiveMaximumExceeded | RcTopicAliasInvalid
     | RcPacketTooLarge | RcMessageRateTooHigh | RcQuotaExceeded | RcAdministrativeAction
     | RcPayloadFormatInvalid | RcRetainNotSupported | RcQoSNotSupported | RcUseAnotherServer
     | RcServerMoved | RcSharedSubscriptionsNotSupported | RcConnectionRateExceeded
     | RcMaximumConnectTime | RcSubscriptionIdentifiersNotSupported
     | RcWildcardSubscriptionsNotSupported

primrec rc_value :: "reason_code \<Rightarrow> u8" where
  "rc_value RcSuccess = 0x00"
| "rc_value RcGrantedQoS1 = 0x01"
| "rc_value RcGrantedQoS2 = 0x02"
| "rc_value RcDisconnectWithWillMessage = 0x04"
| "rc_value RcNoMatchingSubscribers = 0x10"
| "rc_value RcNoSubscriptionExisted = 0x11"
| "rc_value RcContinueAuthentication = 0x18"
| "rc_value RcReAuthenticate = 0x19"
| "rc_value RcUnspecifiedError = 0x80"
| "rc_value RcMalformedPacket = 0x81"
| "rc_value RcProtocolError = 0x82"
| "rc_value RcImplementationSpecificError = 0x83"
| "rc_value RcUnsupportedProtocolVersion = 0x84"
| "rc_value RcClientIdentifierNotValid = 0x85"
| "rc_value RcBadUserNameOrPassword = 0x86"
| "rc_value RcNotAuthorized = 0x87"
| "rc_value RcServerUnavailable = 0x88"
| "rc_value RcServerBusy = 0x89"
| "rc_value RcBanned = 0x8a"
| "rc_value RcServerShuttingDown = 0x8b"
| "rc_value RcBadAuthenticationMethod = 0x8c"
| "rc_value RcKeepAliveTimeout = 0x8d"
| "rc_value RcSessionTakenOver = 0x8e"
| "rc_value RcTopicFilterInvalid = 0x8f"
| "rc_value RcTopicNameInvalid = 0x90"
| "rc_value RcPacketIdentifierInUse = 0x91"
| "rc_value RcPacketIdentifierNotFound = 0x92"
| "rc_value RcReceiveMaximumExceeded = 0x93"
| "rc_value RcTopicAliasInvalid = 0x94"
| "rc_value RcPacketTooLarge = 0x95"
| "rc_value RcMessageRateTooHigh = 0x96"
| "rc_value RcQuotaExceeded = 0x97"
| "rc_value RcAdministrativeAction = 0x98"
| "rc_value RcPayloadFormatInvalid = 0x99"
| "rc_value RcRetainNotSupported = 0x9a"
| "rc_value RcQoSNotSupported = 0x9b"
| "rc_value RcUseAnotherServer = 0x9c"
| "rc_value RcServerMoved = 0x9d"
| "rc_value RcSharedSubscriptionsNotSupported = 0x9e"
| "rc_value RcConnectionRateExceeded = 0x9f"
| "rc_value RcMaximumConnectTime = 0xa0"
| "rc_value RcSubscriptionIdentifiersNotSupported = 0xa1"
| "rc_value RcWildcardSubscriptionsNotSupported = 0xa2"

definition is_success :: "reason_code \<Rightarrow> bool" where
  "is_success c \<longleftrightarrow> rc_value c < 0x80"

definition is_erroneous :: "reason_code \<Rightarrow> bool" where
  "is_erroneous c \<longleftrightarrow> rc_value c \<ge> 0x80"

text \<open>The table of \<open>ReasonCode::read\<close>: the reason code of a byte, if it has one.\<close>

definition reason_code_of_byte :: "u8 \<Rightarrow> reason_code option" where
  "reason_code_of_byte b =
     (if b = 0x00 then Some RcSuccess
      else if b = 0x01 then Some RcGrantedQoS1
      else if b = 0x02 then Some RcGrantedQoS2
      else if b = 0x04 then Some RcDisconnectWithWillMessage
      else if b = 0x10 then Some RcNoMatchingSubscribers
      else if b = 0x11 then Some RcNoSubscriptionExisted
      else if b = 0x18 then Some RcContinueAuthentication
      else if b = 0x19 then Some RcReAuthenticate
      else if b = 0x80 then Some RcUnspecifiedError
      else if b = 0x81 then Some RcMalformedPacket
      else if b = 0x82 then Some RcProtocolError
      else if b = 0x83 then Some RcImplementationSpecificError
      else if b = 0x84 then Some RcUnsupportedProtocolVersion
      else if b = 0x85 then Some RcClientIdentifierNotValid
      else if b = 0x86 then Some RcBadUserNameOrPassword
      else if b = 0x87 then Some RcNotAuthorized
      else if b = 0x88 then Some RcServerUnavailable
      else if b = 0x89 then Some RcServerBusy
      else if b = 0x8a then Some RcBanned
      else if b = 0x8b then Some RcServerShuttingDown
      else if b = 0x8c then Some RcBadAuthenticationMethod
      else if b = 0x8d then Some RcKeepAliveTimeout
      else if b = 0x8e then Some RcSessionTakenOver
      else if b = 0x8f then Some RcTopicFilterInvalid
      else if b = 0x90 then Some RcTopicNameInvalid
      else if b = 0x91 then Some RcPacketIdentifierInUse
      else if b = 0x92 then Some RcPacketIdentifierNotFound
      else if b = 0x93 then Some RcReceiveMaximumExceeded
      else if b = 0x94 then Some RcTopicAliasInvalid
      else if b = 0x95 then Some RcPacketTooLarge
      else if b = 0x96 then Some RcMessageRateTooHigh
      else if b = 0x97 then Some RcQuotaExceeded
      else if b = 0x98 then Some RcAdministrativeAction
      else if b = 0x99 then Some RcPayloadFormatInvalid
      else if b = 0x9a then Some RcRetainNotSupported
      else if b = 0x9b then Some RcQoSNotSupported
      else if b = 0x9c then Some RcUseAnotherServer
      else if b = 0x9d then Some RcServerMoved
      else if b = 0x9e then Some RcSharedSubscriptionsNotSupported
      else if b = 0x9f then Some RcConnectionRateExceeded
      else if b = 0xa0 then Some RcMaximumConnectTime
      else if b = 0xa1 then Some RcSubscriptionIdentifiersNotSupported
      else if b = 0xa2 then Some RcWildcardSubscriptionsNotSupported
      else None)"

section \<open>Variable byte integers\<close>

datatype var_byte_int = VarByteInt u32

definition MAX_ENCODABLE :: u32 where
  "MAX_ENCODABLE = 268435455"

definition vbi_new :: "u32 \<Rightarrow> var_byte_int option" where
  "vbi_new v = (if v > MAX_ENCODABLE then None else Some (VarByteInt v))"

text \<open>\<open>new_unchecked\<close> carries a debug assertion: \<open>None\<close> is the panic.\<close>

definition vbi_new_unchecked :: "u32 \<Rightarrow> var_byte_int option" where
  "vbi_new_unchecked v = (if v \<le> MAX_ENCODABLE then Some (VarByteInt v) else None)"

primrec vbi_value :: "var_byte_int \<Rightarrow> u32" where
  "vbi_value (VarByteInt v) = v"

definition vbi_size :: "var_byte_int \<Rightarrow> nat" where
  "vbi_size v = unat (vbi_value v)"

text \<open>
  \<open>from_slice_unchecked\<close>: the loop accumulates 7-bit groups until a byte without continuation bit;
  the two debug assertions and the 32-bit arithmetic of the source are kept.
\<close>

fun vbi_decode :: "u8 list \<Rightarrow> u32 \<Rightarrow> u32 \<Rightarrow> u32" where
  "vbi_decode [] multiplier value = value"
| "vbi_decode (b # bs) multiplier value =
     (let value' = value + ucast (b AND 0x7F) * multiplier
      in if b AND 128 = 0 then value' else vbi_decode bs (multiplier * 128) value')"

definition from_slice_unchecked :: "u8 list \<Rightarrow> var_byte_int option" where
  "from_slice_unchecked bs =
     (if bs \<noteq> [] \<and> length bs \<le> 4 \<and> last bs AND 128 = 0
      then vbi_new_unchecked (vbi_decode bs 1 0)
      else None)"

section \<open>Fixed header\<close>

datatype packet_type =
    PtConnect | PtConnack | PtPublish | PtPuback | PtPubrec | PtPubrel | PtPubcomp | PtSubscribe
  | PtSuback | PtUnsubscribe | PtUnsuback | PtPingreq | PtPingresp | PtDisconnect | PtAuth

primrec packet_type_code :: "packet_type \<Rightarrow> u8" where
  "packet_type_code PtConnect = 1"
| "packet_type_code PtConnack = 2"
| "packet_type_code PtPublish = 3"
| "packet_type_code PtPuback = 4"
| "packet_type_code PtPubrec = 5"
| "packet_type_code PtPubrel = 6"
| "packet_type_code PtPubcomp = 7"
| "packet_type_code PtSubscribe = 8"
| "packet_type_code PtSuback = 9"
| "packet_type_code PtUnsubscribe = 10"
| "packet_type_code PtUnsuback = 11"
| "packet_type_code PtPingreq = 12"
| "packet_type_code PtPingresp = 13"
| "packet_type_code PtDisconnect = 14"
| "packet_type_code PtAuth = 15"

text \<open>\<open>None\<close> is \<open>Err(Reserved)\<close>; the arm \<open>0x10..\<close> of the source cannot be reached after the shift.\<close>

definition from_type_and_flags :: "u8 \<Rightarrow> packet_type option" where
  "from_type_and_flags b =
     (let t = drop_bit 4 b in
      if t = 0 then None
      else if t = 1 then Some PtConnect
      else if t = 2 then Some PtConnack
      else if t = 3 then Some PtPublish
      else if t = 4 then Some PtPuback
      else if t = 5 then Some PtPubrec
      else if t = 6 then Some PtPubrel
      else if t = 7 then Some PtPubcomp
      else if t = 8 then Some PtSubscribe
      else if t = 9 then Some PtSuback
      else if t = 10 then Some PtUnsubscribe
      else if t = 11 then Some PtUnsuback
      else if t = 12 then Some PtPingreq
      else if t = 13 then Some PtPingresp
      else if t = 14 then Some PtDisconnect
      else Some PtAuth)"

record fixed_header =
  type_and_flags :: u8
  remaining_len :: var_byte_int

definition fixed_header_new :: "packet_type \<Rightarrow> u8 \<Rightarrow> var_byte_int \<Rightarrow> fixed_header" where
  "fixed_header_new packet_type flags len =
     \<lparr>type_and_flags = push_bit 4 (packet_type_code packet_type) OR flags, remaining_len = len\<rparr>"

definition header_flags :: "fixed_header \<Rightarrow> u8" where
  "header_flags h = type_and_flags h AND 0x0F"

definition header_packet_type :: "fixed_header \<Rightarrow> packet_type option" where
  "header_packet_type h = from_type_and_flags (type_and_flags h)"

section \<open>Facts\<close>

lemma pid_next_valid: "pid_valid (pid_next p)"
  by (simp add: pid_next_def pid_valid_def pid_ONE_def Let_def)

lemma unat_pid_next: "pid_next p \<noteq> pid_ONE \<Longrightarrow> unat (pid_next p) = unat p + 1"
  by (auto simp: pid_next_def Let_def unatSuc [unfolded add.commute [of 1]] split: if_splits)

lemma is_erroneous_iff [simp]: "is_erroneous c \<longleftrightarrow> \<not> is_success c"
  by (auto simp: is_erroneous_def is_success_def)

lemma is_success_eval [simp]:
  "is_success RcSuccess" "\<not> is_success RcPacketIdentifierNotFound" "\<not> is_success RcProtocolError"
  by (simp_all add: is_success_def)

lemma reason_code_of_byte_value [simp]: "reason_code_of_byte (rc_value c) = Some c"
  by (cases c) (simp_all add: reason_code_of_byte_def)

lemma value_of_reason_code_of_byte: "reason_code_of_byte b = Some c \<Longrightarrow> rc_value c = b"
  by (auto simp: reason_code_of_byte_def split: if_splits)

lemma qos_bits_roundtrip [simp]: "qos_try_from_bits (qos_into_bits q 0) = Some q"
  by (cases q) (simp_all add: qos_try_from_bits_def qos_into_bits_def)

end
