(* ===== verification/Mqtt_Session.thy ===== *)
theory Mqtt_Session
  imports Mqtt_Types
begin

text \<open>
  The session of \<open>src/session/mod.rs\<close> and the handles of \<open>src/session/handle.rs\<close>: the in-flight
  packet identifiers and the Quality of Service handshake state of every publication.

  The three const generics of \<open>Session\<close> are fields of the record; no operation changes them. A
  handle borrows the session mutably, so an operation that consumes a handle returns the session
  it leaves behind. \<open>None\<close> is a panic. \<open>sr\<close> is \<open>Vec::swap_remove\<close> (see the prelude).
\<close>

section \<open>State\<close>

datatype local_publish_state =
    DuePublishAtLeastOnce
  | DuePublishExactlyOnce ack_mode
  | AwaitAck
  | AwaitRec ack_mode
  | DueRel ack_mode
  | AwaitComp ack_mode

datatype peer_publish_state =
    AwaitPublishAtLeastOnce
  | AwaitPublishExactlyOnce ack_mode
  | DueAck
  | DueRec
  | AwaitRel ack_mode
  | AwaitReRel
  | DueComp

datatype response =
    RNone
  | Acknowledge reason_code
  | Receive reason_code
  | Release reason_code
  | Complete reason_code
  | RDisconnect reason_code

datatype sm_error =
  NoCapacity | PacketIdentifierUnused | SmQoSMismatched | SmHandshakeStateMismatched

datatype sm_event =
    SmPublish
  | SmDuplicate ack_mode
  | SmIgnored
  | SmAcknowledged
  | SmReceived ack_mode
  | SmReleased ack_mode
  | SmCompleted
  | SmAborted
  | SmRejected
  | SmServerError

record session =
  SUBSCRIBE_MAXIMUM :: nat
  RECEIVE_MAXIMUM :: nat
  SEND_MAXIMUM :: nat
  subs :: "pid list"
  unsubs :: "pid list"
  inbound_publishes :: "(pid \<times> peer_publish_state) list"
  outbound_publishes :: "(pid \<times> local_publish_state) list"

fun local_reconnected :: "local_publish_state \<Rightarrow> local_publish_state" where
  "local_reconnected DuePublishAtLeastOnce = DuePublishAtLeastOnce"
| "local_reconnected AwaitAck = DuePublishAtLeastOnce"
| "local_reconnected (DuePublishExactlyOnce mode) = DuePublishExactlyOnce mode"
| "local_reconnected (AwaitRec mode) = DuePublishExactlyOnce mode"
| "local_reconnected (DueRel mode) = DueRel mode"
| "local_reconnected (AwaitComp mode) = DueRel mode"

fun peer_reconnected :: "peer_publish_state \<Rightarrow> peer_publish_state" where
  "peer_reconnected AwaitPublishAtLeastOnce = AwaitPublishAtLeastOnce"
| "peer_reconnected DueAck = AwaitPublishAtLeastOnce"
| "peer_reconnected (AwaitPublishExactlyOnce mode) = AwaitPublishExactlyOnce mode"
| "peer_reconnected DueRec = AwaitPublishExactlyOnce Manual"
| "peer_reconnected (AwaitRel mode) = AwaitPublishExactlyOnce mode"
| "peer_reconnected AwaitReRel = AwaitReRel"
| "peer_reconnected DueComp = AwaitReRel"

fun qos_of_local :: "local_publish_state \<Rightarrow> qos" where
  "qos_of_local DuePublishAtLeastOnce = AtLeastOnce"
| "qos_of_local AwaitAck = AtLeastOnce"
| "qos_of_local (DuePublishExactlyOnce _) = ExactlyOnce"
| "qos_of_local (AwaitRec _) = ExactlyOnce"
| "qos_of_local (DueRel _) = ExactlyOnce"
| "qos_of_local (AwaitComp _) = ExactlyOnce"

fun qos_of_peer :: "peer_publish_state \<Rightarrow> qos" where
  "qos_of_peer AwaitPublishAtLeastOnce = AtLeastOnce"
| "qos_of_peer DueAck = AtLeastOnce"
| "qos_of_peer (AwaitPublishExactlyOnce _) = ExactlyOnce"
| "qos_of_peer DueRec = ExactlyOnce"
| "qos_of_peer (AwaitRel _) = ExactlyOnce"
| "qos_of_peer AwaitReRel = ExactlyOnce"
| "qos_of_peer DueComp = ExactlyOnce"

section \<open>Handles\<close>

record free_handle =
  fh_session :: session
  fh_packet_identifier :: pid

record sub_handle =
  sh_session :: session
  sh_i :: nat

record unsub_handle =
  uh_session :: session
  uh_i :: nat

record inbound_handle =
  ih_session :: session
  ih_i :: nat
  ih_state :: peer_publish_state

record outbound_handle =
  oh_session :: session
  oh_i :: nat
  oh_state :: local_publish_state

definition get_sub_handle :: "session \<Rightarrow> pid \<Rightarrow> sub_handle option" where
  "get_sub_handle s p =
     map_option (\<lambda>i. \<lparr>sh_session = s, sh_i = i\<rparr>) (find_pos (\<lambda>q. q = p) (subs s))"

definition get_unsub_handle :: "session \<Rightarrow> pid \<Rightarrow> unsub_handle option" where
  "get_unsub_handle s p =
     map_option (\<lambda>i. \<lparr>uh_session = s, uh_i = i\<rparr>) (find_pos (\<lambda>q. q = p) (unsubs s))"

definition get_inbound_handle :: "session \<Rightarrow> pid \<Rightarrow> inbound_handle option" where
  "get_inbound_handle s p =
     map_option (\<lambda>i. \<lparr>ih_session = s, ih_i = i, ih_state = snd (inbound_publishes s ! i)\<rparr>)
       (find_pos (\<lambda>e. fst e = p) (inbound_publishes s))"

definition get_outbound_handle :: "session \<Rightarrow> pid \<Rightarrow> outbound_handle option" where
  "get_outbound_handle s p =
     map_option (\<lambda>i. \<lparr>oh_session = s, oh_i = i, oh_state = snd (outbound_publishes s ! i)\<rparr>)
       (find_pos (\<lambda>e. fst e = p) (outbound_publishes s))"

definition outbound_iter :: "session \<Rightarrow> outbound_handle option" where
  "outbound_iter s = (case outbound_publishes s of
      [] \<Rightarrow> None
    | (_, state) # _ \<Rightarrow> Some \<lparr>oh_session = s, oh_i = 0, oh_state = state\<rparr>)"

definition outbound_next :: "outbound_handle \<Rightarrow> outbound_handle option" where
  "outbound_next h =
     (let i = oh_i h + 1; xs = outbound_publishes (oh_session h) in
      if i < length xs
      then Some \<lparr>oh_session = oh_session h, oh_i = i, oh_state = snd (xs ! i)\<rparr>
      else None)"

text \<open>The loop of \<open>free_handle\<close>: try identifiers from \<open>p\<close> on until the search is back at \<open>ONE\<close>.\<close>

definition pid_unused :: "session \<Rightarrow> pid \<Rightarrow> bool" where
  "pid_unused s p \<longleftrightarrow> get_outbound_handle s p = None \<and> get_sub_handle s p = None
                     \<and> get_unsub_handle s p = None"

function free_pid_from :: "session \<Rightarrow> pid \<Rightarrow> pid option" where
  "free_pid_from s p =
     (if pid_unused s p then Some p
      else let p' = pid_next p in if p' = pid_ONE then None else free_pid_from s p')"
  by pat_completeness auto

termination
proof (relation "measure (\<lambda>(s, p). 65536 - unat p)", goal_cases)
  case 1
  show ?case by simp
next
  case (2 s p x)
  then have "unat x = unat p + 1" by (simp add: unat_pid_next)
  moreover have "unat x < 65536" by (rule u16_unat_lt)
  ultimately show ?case by simp
qed

declare free_pid_from.simps [simp del]

definition get_free_handle :: "session \<Rightarrow> free_handle option" where
  "get_free_handle s =
     map_option (\<lambda>p. \<lparr>fh_session = s, fh_packet_identifier = p\<rparr>) (free_pid_from s pid_ONE)"

section \<open>Capacity and scheduling\<close>

definition active_inbound_publishes :: "session \<Rightarrow> u16 option" where
  "active_inbound_publishes s =
     (let n = length (inbound_publishes s) in
      if n \<le> 65535 then Some (word_of_nat n) else None)"

definition active_outbound_publishes :: "session \<Rightarrow> u16 option" where
  "active_outbound_publishes s =
     (let n = length (outbound_publishes s) in
      if n \<le> 65535 then Some (word_of_nat n) else None)"

definition available_inbound_publish_capacity :: "session \<Rightarrow> bool option" where
  "available_inbound_publish_capacity s =
     (let capacity = word_of_nat (min (RECEIVE_MAXIMUM s) 65535) :: u16 in
      map_option (\<lambda>active. capacity > active) (active_inbound_publishes s))"

definition available_outbound_publish_capacity :: "session \<Rightarrow> bool option" where
  "available_outbound_publish_capacity s =
     (let capacity = word_of_nat (min (SEND_MAXIMUM s) 65535) :: u16 in
      map_option (\<lambda>active. capacity > active) (active_outbound_publishes s))"

text \<open>The debug assertions and the \<open>unwrap\<close> on \<open>push\<close> are the panics of \<open>schedule_inbound\<close>.\<close>

definition schedule_inbound :: "session \<Rightarrow> pid \<Rightarrow> peer_publish_state \<Rightarrow> session option" where
  "schedule_inbound s p state =
     (if available_inbound_publish_capacity s = Some True \<and> get_inbound_handle s p = None
         \<and> length (inbound_publishes s) < RECEIVE_MAXIMUM s
      then Some (s\<lparr>inbound_publishes := inbound_publishes s @ [(p, state)]\<rparr>)
      else None)"

definition schedule_outbound :: "session \<Rightarrow> pid \<Rightarrow> local_publish_state \<Rightarrow> session option" where
  "schedule_outbound s p state =
     (if available_outbound_publish_capacity s = Some True \<and> get_outbound_handle s p = None
         \<and> get_sub_handle s p = None \<and> get_unsub_handle s p = None
         \<and> length (outbound_publishes s) < SEND_MAXIMUM s
      then Some (s\<lparr>outbound_publishes := outbound_publishes s @ [(p, state)]\<rparr>)
      else None)"

definition session_clear :: "session \<Rightarrow> session" where
  "session_clear s =
     s\<lparr>subs := [], unsubs := [], inbound_publishes := [], outbound_publishes := []\<rparr>"

definition session_reconnect :: "session \<Rightarrow> session" where
  "session_reconnect s =
     s\<lparr>subs := [], unsubs := [],
       inbound_publishes := map (\<lambda>(p, st). (p, peer_reconnected st)) (inbound_publishes s),
       outbound_publishes := map (\<lambda>(p, st). (p, local_reconnected st)) (outbound_publishes s)\<rparr>"

text \<open>\<open>Session::default\<close> for given const generics.\<close>

definition session_default :: "nat \<Rightarrow> nat \<Rightarrow> nat \<Rightarrow> session" where
  "session_default sub_max rcv_max snd_max =
     \<lparr>SUBSCRIBE_MAXIMUM = sub_max, RECEIVE_MAXIMUM = rcv_max, SEND_MAXIMUM = snd_max,
      subs = [], unsubs = [], inbound_publishes = [], outbound_publishes = []\<rparr>"

section \<open>Operations on a free identifier\<close>

definition outbound_sub :: "free_handle \<Rightarrow> (sm_error + unit) \<times> session" where
  "outbound_sub h =
     (let s = fh_session h in
      if length (subs s) < SUBSCRIBE_MAXIMUM s
      then (Inr (), s\<lparr>subs := subs s @ [fh_packet_identifier h]\<rparr>)
      else (Inl NoCapacity, s))"

definition outbound_unsub :: "free_handle \<Rightarrow> (sm_error + unit) \<times> session" where
  "outbound_unsub h =
     (let s = fh_session h in
      if length (unsubs s) < SUBSCRIBE_MAXIMUM s
      then (Inr (), s\<lparr>unsubs := unsubs s @ [fh_packet_identifier h]\<rparr>)
      else (Inl NoCapacity, s))"

definition outbound_publish ::
    "free_handle \<Rightarrow> qos \<Rightarrow> ack_mode \<Rightarrow> ((sm_error + unit) \<times> session) option" where
  "outbound_publish h q mode =
     (let s = fh_session h in
      if q = AtMostOnce \<or> q = AtLeastOnce \<and> is_manual mode then None
      else case available_outbound_publish_capacity s of
        None \<Rightarrow> None
      | Some True \<Rightarrow>
          (case q of
             AtMostOnce \<Rightarrow> None
           | AtLeastOnce \<Rightarrow>
               map_option (Pair (Inr ())) (schedule_outbound s (fh_packet_identifier h) AwaitAck)
           | ExactlyOnce \<Rightarrow>
               map_option (Pair (Inr ()))
                 (schedule_outbound s (fh_packet_identifier h) (AwaitRec mode)))
      | Some False \<Rightarrow> Some (Inl NoCapacity, s))"

definition sub_remove :: "remover \<Rightarrow> sub_handle \<Rightarrow> session option" where
  "sub_remove sr h = (let s = sh_session h in
     map_option (\<lambda>xs. s\<lparr>subs := xs\<rparr>) (swap_remove sr (subs s) (sh_i h)))"

definition unsub_remove :: "remover \<Rightarrow> unsub_handle \<Rightarrow> session option" where
  "unsub_remove sr h = (let s = uh_session h in
     map_option (\<lambda>xs. s\<lparr>unsubs := xs\<rparr>) (swap_remove sr (unsubs s) (uh_i h)))"

section \<open>Handles of incoming publications\<close>

definition inbound_set :: "inbound_handle \<Rightarrow> peer_publish_state \<Rightarrow> session option" where
  "inbound_set h state =
     (let s = ih_session h; xs = inbound_publishes s; i = ih_i h in
      if i < length xs then Some (s\<lparr>inbound_publishes := xs[i := (fst (xs ! i), state)]\<rparr>)
      else None)"

definition inbound_remove :: "remover \<Rightarrow> inbound_handle \<Rightarrow> session option" where
  "inbound_remove sr h = (let s = ih_session h in
     map_option (\<lambda>xs. s\<lparr>inbound_publishes := xs\<rparr>)
       (swap_remove sr (inbound_publishes s) (ih_i h)))"

abbreviation inbound_nop :: "inbound_handle \<Rightarrow> session option" where
  "inbound_nop h \<equiv> Some (ih_session h)"

fun ih_inbound_republish ::
    "inbound_handle \<Rightarrow> qos \<Rightarrow> ((response \<times> sm_event) \<times> session) option" where
  "ih_inbound_republish h AtMostOnce = None"
| "ih_inbound_republish h AtLeastOnce = (case ih_state h of
      AwaitPublishExactlyOnce _ \<Rightarrow>
        map_option (Pair (RDisconnect RcProtocolError, SmServerError)) (inbound_nop h)
    | DueRec \<Rightarrow>
        map_option (Pair (RDisconnect RcProtocolError, SmServerError)) (inbound_nop h)
    | AwaitRel _ \<Rightarrow>
        map_option (Pair (RDisconnect RcProtocolError, SmServerError)) (inbound_nop h)
    | AwaitReRel \<Rightarrow>
        map_option (Pair (RDisconnect RcProtocolError, SmServerError)) (inbound_nop h)
    | DueComp \<Rightarrow>
        map_option (Pair (RDisconnect RcProtocolError, SmServerError)) (inbound_nop h)
    | DueAck \<Rightarrow> map_option (Pair (RNone, SmPublish)) (inbound_nop h)
    | AwaitPublishAtLeastOnce \<Rightarrow>
        map_option (Pair (RNone, SmPublish)) (inbound_set h DueAck))"
| "ih_inbound_republish h ExactlyOnce = (case ih_state h of
      AwaitPublishAtLeastOnce \<Rightarrow>
        map_option (Pair (RDisconnect RcProtocolError, SmServerError)) (inbound_nop h)
    | DueAck \<Rightarrow>
        map_option (Pair (RDisconnect RcProtocolError, SmServerError)) (inbound_nop h)
    | AwaitPublishExactlyOnce Automatic \<Rightarrow>
        map_option (Pair (Receive RcSuccess, SmDuplicate Automatic))
          (inbound_set h (AwaitRel Automatic))
    | AwaitPublishExactlyOnce Manual \<Rightarrow>
        map_option (Pair (RNone, SmDuplicate Manual)) (inbound_set h DueRec)
    | DueRec \<Rightarrow> map_option (Pair (RNone, SmDuplicate Manual)) (inbound_nop h)
    | AwaitRel mode \<Rightarrow>
        map_option (Pair (Receive RcSuccess, SmDuplicate mode)) (inbound_nop h)
    | AwaitReRel \<Rightarrow>
        map_option (Pair (RDisconnect RcProtocolError, SmServerError)) (inbound_nop h)
    | DueComp \<Rightarrow>
        map_option (Pair (RDisconnect RcProtocolError, SmServerError)) (inbound_nop h))"

definition ih_outbound_puback ::
    "remover \<Rightarrow> inbound_handle \<Rightarrow> ((sm_error + unit) \<times> session) option" where
  "ih_outbound_puback sr h = (case ih_state h of
      AwaitPublishAtLeastOnce \<Rightarrow>
        map_option (Pair (Inl SmHandshakeStateMismatched)) (inbound_nop h)
    | AwaitPublishExactlyOnce _ \<Rightarrow> map_option (Pair (Inl SmQoSMismatched)) (inbound_nop h)
    | DueRec \<Rightarrow> map_option (Pair (Inl SmQoSMismatched)) (inbound_nop h)
    | AwaitRel _ \<Rightarrow> map_option (Pair (Inl SmQoSMismatched)) (inbound_nop h)
    | AwaitReRel \<Rightarrow> map_option (Pair (Inl SmQoSMismatched)) (inbound_nop h)
    | DueComp \<Rightarrow> map_option (Pair (Inl SmQoSMismatched)) (inbound_nop h)
    | DueAck \<Rightarrow> map_option (Pair (Inr ())) (inbound_remove sr h))"

definition ih_outbound_pubrec ::
    "remover \<Rightarrow> inbound_handle \<Rightarrow> reason_code \<Rightarrow> ((sm_error + unit) \<times> session) option" where
  "ih_outbound_pubrec sr h rc = (case ih_state h of
      AwaitPublishAtLeastOnce \<Rightarrow> map_option (Pair (Inl SmQoSMismatched)) (inbound_nop h)
    | DueAck \<Rightarrow> map_option (Pair (Inl SmQoSMismatched)) (inbound_nop h)
    | AwaitPublishExactlyOnce _ \<Rightarrow>
        map_option (Pair (Inl SmHandshakeStateMismatched)) (inbound_nop h)
    | AwaitRel _ \<Rightarrow> map_option (Pair (Inl SmHandshakeStateMismatched)) (inbound_nop h)
    | AwaitReRel \<Rightarrow> map_option (Pair (Inl SmHandshakeStateMismatched)) (inbound_nop h)
    | DueComp \<Rightarrow> map_option (Pair (Inl SmHandshakeStateMismatched)) (inbound_nop h)
    | DueRec \<Rightarrow>
        (if is_erroneous rc then map_option (Pair (Inr ())) (inbound_remove sr h)
         else map_option (Pair (Inr ())) (inbound_set h (AwaitRel Manual))))"

definition ih_inbound_pubrel ::
    "remover \<Rightarrow> inbound_handle \<Rightarrow> reason_code \<Rightarrow> ((response \<times> sm_event) \<times> session) option" where
  "ih_inbound_pubrel sr h rc = (case ih_state h of
      AwaitPublishAtLeastOnce \<Rightarrow>
        map_option (Pair (RDisconnect RcProtocolError, SmServerError)) (inbound_nop h)
    | DueAck \<Rightarrow>
        map_option (Pair (RDisconnect RcProtocolError, SmServerError)) (inbound_nop h)
    | AwaitPublishExactlyOnce mode \<Rightarrow>
        (if is_erroneous rc then
           map_option (Pair (Complete RcSuccess, SmAborted)) (inbound_remove sr h)
         else case mode of
           Automatic \<Rightarrow>
             map_option (Pair (Complete RcSuccess, SmReleased Automatic)) (inbound_remove sr h)
         | Manual \<Rightarrow> map_option (Pair (RNone, SmReleased Manual)) (inbound_set h DueComp))
    | DueRec \<Rightarrow>
        (if is_erroneous rc then
           map_option (Pair (Complete RcSuccess, SmAborted)) (inbound_remove sr h)
         else map_option (Pair (RNone, SmReleased Manual)) (inbound_set h DueComp))
    | AwaitRel mode \<Rightarrow>
        (if is_erroneous rc then
           map_option (Pair (Complete RcSuccess, SmAborted)) (inbound_remove sr h)
         else case mode of
           Automatic \<Rightarrow>
             map_option (Pair (Complete RcSuccess, SmReleased Automatic)) (inbound_remove sr h)
         | Manual \<Rightarrow> map_option (Pair (RNone, SmReleased Manual)) (inbound_set h DueComp))
    | AwaitReRel \<Rightarrow> map_option (Pair (RNone, SmReleased Manual)) (inbound_set h DueComp)
    | DueComp \<Rightarrow>
        (if is_erroneous rc then
           map_option (Pair (Complete RcSuccess, SmAborted)) (inbound_remove sr h)
         else map_option (Pair (RNone, SmIgnored)) (inbound_nop h)))"

definition ih_outbound_pubcomp ::
    "remover \<Rightarrow> inbound_handle \<Rightarrow> ((sm_error + unit) \<times> session) option" where
  "ih_outbound_pubcomp sr h = (case ih_state h of
      AwaitPublishAtLeastOnce \<Rightarrow> map_option (Pair (Inl SmQoSMismatched)) (inbound_nop h)
    | DueAck \<Rightarrow> map_option (Pair (Inl SmQoSMismatched)) (inbound_nop h)
    | AwaitPublishExactlyOnce _ \<Rightarrow>
        map_option (Pair (Inl SmHandshakeStateMismatched)) (inbound_nop h)
    | DueRec \<Rightarrow> map_option (Pair (Inl SmHandshakeStateMismatched)) (inbound_nop h)
    | AwaitRel _ \<Rightarrow> map_option (Pair (Inl SmHandshakeStateMismatched)) (inbound_nop h)
    | AwaitReRel \<Rightarrow> map_option (Pair (Inl SmHandshakeStateMismatched)) (inbound_nop h)
    | DueComp \<Rightarrow> map_option (Pair (Inr ())) (inbound_remove sr h))"

section \<open>Handles of outgoing publications\<close>

definition outbound_set :: "outbound_handle \<Rightarrow> local_publish_state \<Rightarrow> session option" where
  "outbound_set h state =
     (let s = oh_session h; xs = outbound_publishes s; i = oh_i h in
      if i < length xs then Some (s\<lparr>outbound_publishes := xs[i := (fst (xs ! i), state)]\<rparr>)
      else None)"

definition outbound_remove :: "remover \<Rightarrow> outbound_handle \<Rightarrow> session option" where
  "outbound_remove sr h = (let s = oh_session h in
     map_option (\<lambda>xs. s\<lparr>outbound_publishes := xs\<rparr>)
       (swap_remove sr (outbound_publishes s) (oh_i h)))"

abbreviation outbound_nop :: "outbound_handle \<Rightarrow> session option" where
  "outbound_nop h \<equiv> Some (oh_session h)"

fun oh_outbound_republish ::
    "outbound_handle \<Rightarrow> qos \<Rightarrow> ((sm_error + unit) \<times> session) option" where
  "oh_outbound_republish h AtMostOnce = None"
| "oh_outbound_republish h AtLeastOnce = (case oh_state h of
      DuePublishAtLeastOnce \<Rightarrow> map_option (Pair (Inr ())) (outbound_set h AwaitAck)
    | AwaitAck \<Rightarrow> map_option (Pair (Inl SmHandshakeStateMismatched)) (outbound_nop h)
    | DuePublishExactlyOnce _ \<Rightarrow> map_option (Pair (Inl SmQoSMismatched)) (outbound_nop h)
    | AwaitRec _ \<Rightarrow> map_option (Pair (Inl SmQoSMismatched)) (outbound_nop h)
    | DueRel _ \<Rightarrow> map_option (Pair (Inl SmQoSMismatched)) (outbound_nop h)
    | AwaitComp _ \<Rightarrow> map_option (Pair (Inl SmQoSMismatched)) (outbound_nop h))"
| "oh_outbound_republish h ExactlyOnce = (case oh_state h of
      DuePublishAtLeastOnce \<Rightarrow> map_option (Pair (Inl SmQoSMismatched)) (outbound_nop h)
    | AwaitAck \<Rightarrow> map_option (Pair (Inl SmQoSMismatched)) (outbound_nop h)
    | AwaitRec _ \<Rightarrow> map_option (Pair (Inl SmHandshakeStateMismatched)) (outbound_nop h)
    | DueRel _ \<Rightarrow> map_option (Pair (Inl SmHandshakeStateMismatched)) (outbound_nop h)
    | AwaitComp _ \<Rightarrow> map_option (Pair (Inl SmHandshakeStateMismatched)) (outbound_nop h)
    | DuePublishExactlyOnce mode \<Rightarrow>
        map_option (Pair (Inr ())) (outbound_set h (AwaitRec mode)))"

definition oh_inbound_puback ::
    "remover \<Rightarrow> outbound_handle \<Rightarrow> reason_code \<Rightarrow> ((response \<times> sm_event) \<times> session) option" where
  "oh_inbound_puback sr h rc =
     (if oh_state h = DuePublishAtLeastOnce \<or> oh_state h = AwaitAck
      then (if is_success rc
            then map_option (Pair (RNone, SmAcknowledged)) (outbound_remove sr h)
            else map_option (Pair (RNone, SmRejected)) (outbound_remove sr h))
      else map_option (Pair (RDisconnect RcProtocolError, SmServerError)) (outbound_nop h))"

definition oh_inbound_pubrec ::
    "remover \<Rightarrow> outbound_handle \<Rightarrow> reason_code \<Rightarrow> ((response \<times> sm_event) \<times> session) option" where
  "oh_inbound_pubrec sr h rc = (case oh_state h of
      DuePublishAtLeastOnce \<Rightarrow>
        map_option (Pair (RDisconnect RcProtocolError, SmServerError)) (outbound_nop h)
    | AwaitAck \<Rightarrow>
        map_option (Pair (RDisconnect RcProtocolError, SmServerError)) (outbound_nop h)
    | DuePublishExactlyOnce mode \<Rightarrow>
        (if is_erroneous rc then
           map_option (Pair (RNone, SmRejected)) (outbound_remove sr h)
         else case mode of
           Automatic \<Rightarrow>
             map_option (Pair (Release RcSuccess, SmReceived Automatic))
               (outbound_set h (AwaitComp Automatic))
         | Manual \<Rightarrow>
             map_option (Pair (RNone, SmReceived Manual)) (outbound_set h (DueRel Manual)))
    | DueRel mode \<Rightarrow>
        (if is_erroneous rc then
           map_option (Pair (RNone, SmRejected)) (outbound_remove sr h)
         else case mode of
           Automatic \<Rightarrow>
             map_option (Pair (Release RcSuccess, SmIgnored))
               (outbound_set h (AwaitComp Automatic))
         | Manual \<Rightarrow> map_option (Pair (RNone, SmIgnored)) (outbound_nop h))
    | AwaitComp _ \<Rightarrow> map_option (Pair (Release RcSuccess, SmIgnored)) (outbound_nop h)
    | AwaitRec mode \<Rightarrow>
        (if is_erroneous rc then
           map_option (Pair (RNone, SmRejected)) (outbound_remove sr h)
         else case mode of
           Automatic \<Rightarrow>
             map_option (Pair (Release RcSuccess, SmReceived Automatic))
               (outbound_set h (AwaitComp Automatic))
         | Manual \<Rightarrow>
             map_option (Pair (RNone, SmReceived Manual)) (outbound_set h (DueRel Manual))))"

definition oh_outbound_pubrel :: "outbound_handle \<Rightarrow> ((sm_error + unit) \<times> session) option" where
  "oh_outbound_pubrel h = (case oh_state h of
      DuePublishAtLeastOnce \<Rightarrow> map_option (Pair (Inl SmQoSMismatched)) (outbound_nop h)
    | AwaitAck \<Rightarrow> map_option (Pair (Inl SmQoSMismatched)) (outbound_nop h)
    | DuePublishExactlyOnce _ \<Rightarrow>
        map_option (Pair (Inl SmHandshakeStateMismatched)) (outbound_nop h)
    | AwaitRec _ \<Rightarrow> map_option (Pair (Inl SmHandshakeStateMismatched)) (outbound_nop h)
    | AwaitComp _ \<Rightarrow> map_option (Pair (Inl SmHandshakeStateMismatched)) (outbound_nop h)
    | DueRel mode \<Rightarrow> map_option (Pair (Inr ())) (outbound_set h (AwaitComp mode)))"

definition oh_inbound_pubcomp ::
    "remover \<Rightarrow> outbound_handle \<Rightarrow> reason_code \<Rightarrow> ((response \<times> sm_event) \<times> session) option" where
  "oh_inbound_pubcomp sr h rc = (case oh_state h of
      DuePublishAtLeastOnce \<Rightarrow>
        map_option (Pair (RDisconnect RcProtocolError, SmServerError)) (outbound_nop h)
    | AwaitAck \<Rightarrow>
        map_option (Pair (RDisconnect RcProtocolError, SmServerError)) (outbound_nop h)
    | DuePublishExactlyOnce _ \<Rightarrow>
        map_option (Pair (RDisconnect RcProtocolError, SmServerError)) (outbound_nop h)
    | AwaitRec _ \<Rightarrow>
        map_option (Pair (RDisconnect RcProtocolError, SmServerError)) (outbound_nop h)
    | DueRel _ \<Rightarrow>
        (if is_success rc
         then map_option (Pair (RNone, SmCompleted)) (outbound_remove sr h)
         else map_option (Pair (RNone, SmRejected)) (outbound_remove sr h))
    | AwaitComp _ \<Rightarrow>
        (if is_success rc
         then map_option (Pair (RNone, SmCompleted)) (outbound_remove sr h)
         else map_option (Pair (RNone, SmRejected)) (outbound_remove sr h)))"

section \<open>Session operations\<close>

definition inbound_publish ::
    "session \<Rightarrow> identified_qos \<Rightarrow> ack_mode \<Rightarrow> ((response \<times> sm_event) \<times> session) option" where
  "inbound_publish s iq mode = (case packet_identifier iq of
      None \<Rightarrow> Some ((RNone, SmPublish), s)
    | Some p \<Rightarrow>
        (case get_inbound_handle s p of
           Some h \<Rightarrow> ih_inbound_republish h (qos_of iq)
         | None \<Rightarrow>
             (case available_inbound_publish_capacity s of
                None \<Rightarrow> None
              | Some True \<Rightarrow>
                  (case iq of
                     IdAtMostOnce \<Rightarrow> None
                   | IdAtLeastOnce _ \<Rightarrow>
                       (if is_manual mode
                        then map_option (Pair (RNone, SmPublish)) (schedule_inbound s p DueAck)
                        else Some ((Acknowledge RcSuccess, SmPublish), s))
                   | IdExactlyOnce _ \<Rightarrow>
                       (if is_manual mode
                        then map_option (Pair (RNone, SmPublish)) (schedule_inbound s p DueRec)
                        else map_option (Pair (Receive RcSuccess, SmPublish))
                               (schedule_inbound s p (AwaitRel Automatic))))
              | Some False \<Rightarrow> Some ((RDisconnect RcQuotaExceeded, SmServerError), s))))"

definition outbound_puback ::
    "remover \<Rightarrow> session \<Rightarrow> pid \<Rightarrow> ((sm_error + unit) \<times> session) option" where
  "outbound_puback sr s p = (case get_inbound_handle s p of
      Some h \<Rightarrow> ih_outbound_puback sr h
    | None \<Rightarrow> Some (Inl PacketIdentifierUnused, s))"

definition outbound_pubrec ::
    "remover \<Rightarrow> session \<Rightarrow> pid \<Rightarrow> reason_code \<Rightarrow> ((sm_error + unit) \<times> session) option" where
  "outbound_pubrec sr s p rc = (case get_inbound_handle s p of
      Some h \<Rightarrow> ih_outbound_pubrec sr h rc
    | None \<Rightarrow> Some (Inl PacketIdentifierUnused, s))"

definition inbound_pubrel ::
    "remover \<Rightarrow> session \<Rightarrow> pid \<Rightarrow> reason_code \<Rightarrow> ((response \<times> sm_event) \<times> session) option" where
  "inbound_pubrel sr s p rc = (case get_inbound_handle s p of
      Some h \<Rightarrow> ih_inbound_pubrel sr h rc
    | None \<Rightarrow> Some ((Complete RcPacketIdentifierNotFound, SmIgnored), s))"

definition outbound_pubcomp ::
    "remover \<Rightarrow> session \<Rightarrow> pid \<Rightarrow> ((sm_error + unit) \<times> session) option" where
  "outbound_pubcomp sr s p = (case get_inbound_handle s p of
      Some h \<Rightarrow> ih_outbound_pubcomp sr h
    | None \<Rightarrow> Some (Inl PacketIdentifierUnused, s))"

definition outbound_republish ::
    "session \<Rightarrow> identified_qos \<Rightarrow> ((sm_error + unit) \<times> session) option" where
  "outbound_republish s iq = (case packet_identifier iq of
      None \<Rightarrow> Some (Inr (), s)
    | Some p \<Rightarrow>
        (case get_outbound_handle s p of
           Some h \<Rightarrow> oh_outbound_republish h (qos_of iq)
         | None \<Rightarrow> Some (Inl PacketIdentifierUnused, s)))"

definition inbound_puback ::
    "remover \<Rightarrow> session \<Rightarrow> pid \<Rightarrow> reason_code \<Rightarrow> ((response \<times> sm_event) \<times> session) option" where
  "inbound_puback sr s p rc = (case get_outbound_handle s p of
      Some h \<Rightarrow> oh_inbound_puback sr h rc
    | None \<Rightarrow> Some ((RNone, SmIgnored), s))"

definition inbound_pubrec ::
    "remover \<Rightarrow> session \<Rightarrow> pid \<Rightarrow> reason_code \<Rightarrow> ((response \<times> sm_event) \<times> session) option" where
  "inbound_pubrec sr s p rc = (case get_outbound_handle s p of
      Some h \<Rightarrow> oh_inbound_pubrec sr h rc
    | None \<Rightarrow> Some ((Release RcPacketIdentifierNotFound, SmIgnored), s))"

definition outbound_pubrel :: "session \<Rightarrow> pid \<Rightarrow> ((sm_error + unit) \<times> session) option" where
  "outbound_pubrel s p = (case get_outbound_handle s p of
      Some h \<Rightarrow> oh_outbound_pubrel h
    | None \<Rightarrow> Some (Inl PacketIdentifierUnused, s))"

definition inbound_pubcomp ::
    "remover \<Rightarrow> session \<Rightarrow> pid \<Rightarrow> reason_code \<Rightarrow> ((response \<times> sm_event) \<times> session) option" where
  "inbound_pubcomp sr s p rc = (case get_outbound_handle s p of
      Some h \<Rightarrow> oh_inbound_pubcomp sr h rc
    | None \<Rightarrow> Some ((RNone, SmIgnored), s))"

end
