(* ===== verification/Mqtt_Handshake.thy ===== *)
theory Mqtt_Handshake
  imports Mqtt_Session
begin

text \<open>
  What the session promises, stated for one packet identifier at a time: the session is a finite
  map from identifiers to handshake states, every packet and every user request is a transition
  of the entry it names, and nothing else changes. This theory holds the specification of those
  transitions and the proof that the vector-and-handle code of \<open>Mqtt_Session\<close> implements it, for
  every order in which \<open>swap_remove\<close> may leave the vectors.
\<close>

section \<open>Specification: transitions of one entry\<close>

text \<open>
  A request of the user (PUBACK, PUBREC, PUBREL, PUBCOMP, retransmission of PUBLISH) is granted
  exactly when the entry exists, has the Quality of Service of the request and is in the state in
  which the packet is due; \<open>due\<close> gives what becomes of the entry then.
\<close>

definition user_request ::
    "('st \<Rightarrow> qos) \<Rightarrow> qos \<Rightarrow> ('st \<Rightarrow> 'st option option) \<Rightarrow> 'st option
     \<Rightarrow> (sm_error + unit) \<times> 'st option" where
  "user_request qos_of_state q due eo = (case eo of
      None \<Rightarrow> (Inl PacketIdentifierUnused, None)
    | Some st \<Rightarrow>
        if qos_of_state st \<noteq> q then (Inl SmQoSMismatched, eo)
        else case due st of
          None \<Rightarrow> (Inl SmHandshakeStateMismatched, eo)
        | Some eo' \<Rightarrow> (Inr (), eo'))"

definition puback_due :: "peer_publish_state \<Rightarrow> peer_publish_state option option" where
  "puback_due st = (if st = DueAck then Some None else None)"

definition pubrec_due ::
    "reason_code \<Rightarrow> peer_publish_state \<Rightarrow> peer_publish_state option option" where
  "pubrec_due rc st =
     (if st = DueRec then Some (if is_success rc then Some (AwaitRel Manual) else None) else None)"

definition pubcomp_due :: "peer_publish_state \<Rightarrow> peer_publish_state option option" where
  "pubcomp_due st = (if st = DueComp then Some None else None)"

definition republish_due :: "local_publish_state \<Rightarrow> local_publish_state option option" where
  "republish_due st = (case st of
      DuePublishAtLeastOnce \<Rightarrow> Some (Some AwaitAck)
    | DuePublishExactlyOnce mode \<Rightarrow> Some (Some (AwaitRec mode))
    | _ \<Rightarrow> None)"

definition pubrel_due :: "local_publish_state \<Rightarrow> local_publish_state option option" where
  "pubrel_due st = (case st of DueRel mode \<Rightarrow> Some (Some (AwaitComp mode)) | _ \<Rightarrow> None)"

abbreviation protocol_error :: "response \<times> sm_event" where
  "protocol_error \<equiv> (RDisconnect RcProtocolError, SmServerError)"

text \<open>An incoming PUBLISH of Quality of Service 1 or 2; \<open>room\<close> tells whether a new entry fits.\<close>

definition peer_publish ::
    "bool \<Rightarrow> qos \<Rightarrow> ack_mode \<Rightarrow> peer_publish_state option
     \<Rightarrow> (response \<times> sm_event) \<times> peer_publish_state option" where
  "peer_publish room q mode eo = (case eo of
      None \<Rightarrow>
        if \<not> room then ((RDisconnect RcQuotaExceeded, SmServerError), None)
        else (case (q, mode) of
            (ExactlyOnce, Automatic) \<Rightarrow> ((Receive RcSuccess, SmPublish), Some (AwaitRel Automatic))
          | (ExactlyOnce, Manual) \<Rightarrow> ((RNone, SmPublish), Some DueRec)
          | (_, Automatic) \<Rightarrow> ((Acknowledge RcSuccess, SmPublish), None)
          | (_, Manual) \<Rightarrow> ((RNone, SmPublish), Some DueAck))
    | Some st \<Rightarrow>
        if qos_of_peer st \<noteq> q then (protocol_error, eo)
        else (case st of
            AwaitPublishAtLeastOnce \<Rightarrow> ((RNone, SmPublish), Some DueAck)
          | DueAck \<Rightarrow> ((RNone, SmPublish), eo)
          | AwaitPublishExactlyOnce Automatic \<Rightarrow>
              ((Receive RcSuccess, SmDuplicate Automatic), Some (AwaitRel Automatic))
          | AwaitPublishExactlyOnce Manual \<Rightarrow> ((RNone, SmDuplicate Manual), Some DueRec)
          | DueRec \<Rightarrow> ((RNone, SmDuplicate Manual), eo)
          | AwaitRel m \<Rightarrow> ((Receive RcSuccess, SmDuplicate m), eo)
          | _ \<Rightarrow> (protocol_error, eo)))"

text \<open>An incoming PUBREL: an error aborts, otherwise the message is released once.\<close>

definition ack_mode_of_peer :: "peer_publish_state \<Rightarrow> ack_mode" where
  "ack_mode_of_peer st = (case st of
      AwaitPublishExactlyOnce m \<Rightarrow> m | AwaitRel m \<Rightarrow> m | _ \<Rightarrow> Manual)"

definition peer_pubrel ::
    "reason_code \<Rightarrow> peer_publish_state option
     \<Rightarrow> (response \<times> sm_event) \<times> peer_publish_state option" where
  "peer_pubrel rc eo = (case eo of
      None \<Rightarrow> ((Complete RcPacketIdentifierNotFound, SmIgnored), None)
    | Some st \<Rightarrow>
        if qos_of_peer st \<noteq> ExactlyOnce then (protocol_error, eo)
        else if \<not> is_success rc \<and> st \<noteq> AwaitReRel then ((Complete RcSuccess, SmAborted), None)
        else if st = DueComp then ((RNone, SmIgnored), eo)
        else (case ack_mode_of_peer st of
            Automatic \<Rightarrow> ((Complete RcSuccess, SmReleased Automatic), None)
          | Manual \<Rightarrow> ((RNone, SmReleased Manual), Some DueComp)))"

text \<open>Acknowledgements of outgoing publications.\<close>

definition local_puback ::
    "reason_code \<Rightarrow> local_publish_state option
     \<Rightarrow> (response \<times> sm_event) \<times> local_publish_state option" where
  "local_puback rc eo = (case eo of
      None \<Rightarrow> ((RNone, SmIgnored), None)
    | Some st \<Rightarrow>
        if qos_of_local st \<noteq> AtLeastOnce then (protocol_error, eo)
        else ((RNone, if is_success rc then SmAcknowledged else SmRejected), None))"

definition local_pubrec ::
    "reason_code \<Rightarrow> local_publish_state option
     \<Rightarrow> (response \<times> sm_event) \<times> local_publish_state option" where
  "local_pubrec rc eo = (case eo of
      None \<Rightarrow> ((Release RcPacketIdentifierNotFound, SmIgnored), None)
    | Some st \<Rightarrow>
        if qos_of_local st \<noteq> ExactlyOnce then (protocol_error, eo)
        else (case st of
            AwaitComp _ \<Rightarrow> ((Release RcSuccess, SmIgnored), eo)
          | DueRel m \<Rightarrow>
              if \<not> is_success rc then ((RNone, SmRejected), None)
              else (case m of
                  Automatic \<Rightarrow> ((Release RcSuccess, SmIgnored), Some (AwaitComp Automatic))
                | Manual \<Rightarrow> ((RNone, SmIgnored), eo))
          | AwaitRec m \<Rightarrow>
              if \<not> is_success rc then ((RNone, SmRejected), None)
              else (case m of
                  Automatic \<Rightarrow> ((Release RcSuccess, SmReceived m), Some (AwaitComp m))
                | Manual \<Rightarrow> ((RNone, SmReceived m), Some (DueRel m)))
          | DuePublishExactlyOnce m \<Rightarrow>
              if \<not> is_success rc then ((RNone, SmRejected), None)
              else (case m of
                  Automatic \<Rightarrow> ((Release RcSuccess, SmReceived m), Some (AwaitComp m))
                | Manual \<Rightarrow> ((RNone, SmReceived m), Some (DueRel m)))
          | _ \<Rightarrow> (protocol_error, eo)))"

definition local_pubcomp ::
    "reason_code \<Rightarrow> local_publish_state option
     \<Rightarrow> (response \<times> sm_event) \<times> local_publish_state option" where
  "local_pubcomp rc eo = (case eo of
      None \<Rightarrow> ((RNone, SmIgnored), None)
    | Some st \<Rightarrow>
        (case st of
            DueRel _ \<Rightarrow> ((RNone, if is_success rc then SmCompleted else SmRejected), None)
          | AwaitComp _ \<Rightarrow> ((RNone, if is_success rc then SmCompleted else SmRejected), None)
          | _ \<Rightarrow> (protocol_error, eo)))"

section \<open>Invariant and abstraction\<close>

definition session_inv :: "session \<Rightarrow> bool" where
  "session_inv s \<longleftrightarrow>
     distinct (subs s @ unsubs s @ keys (outbound_publishes s))
   \<and> distinct (keys (inbound_publishes s))
   \<and> (\<forall>p \<in> set (subs s) \<union> set (unsubs s) \<union> set (keys (inbound_publishes s))
            \<union> set (keys (outbound_publishes s)). pid_valid p)
   \<and> length (subs s) \<le> SUBSCRIBE_MAXIMUM s
   \<and> length (unsubs s) \<le> SUBSCRIBE_MAXIMUM s
   \<and> length (inbound_publishes s) \<le> min (RECEIVE_MAXIMUM s) 65535
   \<and> length (outbound_publishes s) \<le> min (SEND_MAXIMUM s) 65535"

abbreviation peer_entry :: "session \<Rightarrow> pid \<Rightarrow> peer_publish_state option" where
  "peer_entry s \<equiv> map_of (inbound_publishes s)"

abbreviation local_entry :: "session \<Rightarrow> pid \<Rightarrow> local_publish_state option" where
  "local_entry s \<equiv> map_of (outbound_publishes s)"

definition inbound_room :: "session \<Rightarrow> bool" where
  "inbound_room s \<longleftrightarrow> length (inbound_publishes s) < min (RECEIVE_MAXIMUM s) 65535"

definition outbound_room :: "session \<Rightarrow> bool" where
  "outbound_room s \<longleftrightarrow> length (outbound_publishes s) < min (SEND_MAXIMUM s) 65535"

text \<open>\<open>s'\<close> differs from \<open>s\<close> in the inbound (outbound) entry of \<open>p\<close> only, which is now \<open>eo\<close>.\<close>

definition peer_update ::
    "session \<Rightarrow> pid \<Rightarrow> peer_publish_state option \<Rightarrow> session \<Rightarrow> bool" where
  "peer_update s p eo s' \<longleftrightarrow>
     session_inv s' \<and> peer_entry s' = (peer_entry s)(p := eo)
   \<and> s' = s\<lparr>inbound_publishes := inbound_publishes s'\<rparr>"

definition local_update ::
    "session \<Rightarrow> pid \<Rightarrow> local_publish_state option \<Rightarrow> session \<Rightarrow> bool" where
  "local_update s p eo s' \<longleftrightarrow>
     session_inv s' \<and> local_entry s' = (local_entry s)(p := eo)
   \<and> s' = s\<lparr>outbound_publishes := outbound_publishes s'\<rparr>"

section \<open>The vectors as tables of entries\<close>

lemma distinct_shrink:
  "distinct (a @ b @ c) \<Longrightarrow> distinct c' \<Longrightarrow> set c' \<subseteq> set c \<Longrightarrow> distinct (a @ b @ c')"
  by auto

lemma peer_updateI:
  assumes "session_inv s" and "distinct (keys xs)" and "set (keys xs) \<subseteq> set (keys (inbound_publishes s))"
    and "length xs \<le> length (inbound_publishes s)"
    and "map_of xs = (peer_entry s)(p := eo)"
  shows "peer_update s p eo (s\<lparr>inbound_publishes := xs\<rparr>)"
proof -
  have "pid_valid q" if "q \<in> set (keys xs)" for q
    using assms(1) subsetD [OF assms(3) that] unfolding session_inv_def by blast
  then show ?thesis
    using assms by (auto simp: peer_update_def session_inv_def)
qed

lemma local_updateI:
  assumes "session_inv s" and "distinct (keys xs)" and "set (keys xs) \<subseteq> set (keys (outbound_publishes s))"
    and "length xs \<le> length (outbound_publishes s)"
    and "map_of xs = (local_entry s)(p := eo)"
  shows "local_update s p eo (s\<lparr>outbound_publishes := xs\<rparr>)"
proof -
  have "pid_valid q" if "q \<in> set (keys xs)" for q
    using assms(1) subsetD [OF assms(3) that] unfolding session_inv_def by blast
  moreover have "distinct (subs s @ unsubs s @ keys xs)"
    using assms(1) unfolding session_inv_def by (intro distinct_shrink [OF _ assms(2,3)]) simp
  ultimately show ?thesis
    using assms(1,4,5) by (auto simp: local_update_def session_inv_def)
qed

lemma session_inv_distinct:
  assumes "session_inv s"
  shows "distinct (keys (inbound_publishes s))" and "distinct (keys (outbound_publishes s))"
  using assms by (simp_all add: session_inv_def)

text \<open>
  The contract between the vectors and the state machine: a handle for an identifier exists exactly
  when the table has an entry, carries its state, and writing or removing through the handle changes
  that entry alone. Both directions of publication implement it.
\<close>

locale entry_table =
  fixes update :: "session \<Rightarrow> pid \<Rightarrow> 'e option \<Rightarrow> session \<Rightarrow> bool"
    and entry :: "session \<Rightarrow> pid \<Rightarrow> 'e option"
    and handle :: "session \<Rightarrow> pid \<Rightarrow> 'h option"
    and state :: "'h \<Rightarrow> 'e"
    and owner :: "'h \<Rightarrow> session"
    and set_state :: "'h \<Rightarrow> 'e \<Rightarrow> session option"
    and remove :: "'h \<Rightarrow> session option"
  assumes handle_None: "session_inv s \<Longrightarrow> handle s p = None \<Longrightarrow> entry s p = None"
    and handle_Some: "session_inv s \<Longrightarrow> handle s p = Some h \<Longrightarrow> entry s p = Some (state h) \<and> owner h = s"
    and set_ok: "session_inv s \<Longrightarrow> handle s p = Some h \<Longrightarrow>
           \<exists>s'. set_state h e = Some s' \<and> update s p (Some e) s'"
    and remove_ok: "session_inv s \<Longrightarrow> handle s p = Some h \<Longrightarrow>
           \<exists>s'. remove h = Some s' \<and> update s p None s'"
    and keep_ok: "session_inv s \<Longrightarrow> update s p (entry s p) s"
begin

text \<open>
  The client's side: an operation that looks its entry up and then sets, removes or keeps it
  implements the entry transition \<open>g\<close>, and never panics.
\<close>

lemma refines:
  assumes inv: "session_inv s"
    and absent: "g None = (d, None)"
    and present: "\<And>h. handle s p = Some h \<Longrightarrow>
        (\<exists>r e. f h = map_option (Pair r) (set_state h e) \<and> g (Some (state h)) = (r, Some e))
      \<or> (\<exists>r. f h = map_option (Pair r) (remove h) \<and> g (Some (state h)) = (r, None))
      \<or> (\<exists>r. f h = map_option (Pair r) (Some (owner h)) \<and> g (Some (state h)) = (r, Some (state h)))"
  shows "\<exists>r s'. (case handle s p of Some h \<Rightarrow> f h | None \<Rightarrow> Some (d, s)) = Some (r, s')
           \<and> (\<exists>eo. g (entry s p) = (r, eo) \<and> update s p eo s')"
proof (cases "handle s p")
  case None
  then show ?thesis
    using handle_None [OF inv None] keep_ok [OF inv, of p] absent by auto
next
  case (Some h)
  have e: "entry s p = Some (state h)" and o: "owner h = s"
    using handle_Some [OF inv Some] by auto
  from present [OF Some] show ?thesis
    using set_ok [OF inv Some] remove_ok [OF inv Some] keep_ok [OF inv, of p] Some e o
    by fastforce
qed

end

locale vector_removal =
  fixes sr :: remover
  assumes sr_ok: "swap_remove_ok sr"

sublocale vector_removal \<subseteq> peer: entry_table peer_update peer_entry get_inbound_handle ih_state
  ih_session inbound_set "inbound_remove sr"
proof
  fix s p h e
  assume inv: "session_inv s"
  let ?xs = "inbound_publishes s"
  have d: "distinct (keys ?xs)" using inv by (rule session_inv_distinct)
  show "peer_update s p (peer_entry s p) s"
    using inv by (simp add: peer_update_def)
  show "peer_entry s p = None" if "get_inbound_handle s p = None"
    using that by (simp add: get_inbound_handle_def find_pos_key [OF d])
  assume "get_inbound_handle s p = Some h"
  then obtain i where pos: "find_pos (\<lambda>e. fst e = p) ?xs = Some i"
    and h: "h = \<lparr>ih_session = s, ih_i = i, ih_state = snd (?xs ! i)\<rparr>"
    by (auto simp: get_inbound_handle_def)
  note i = find_pos_keyD [OF pos]
  show "peer_entry s p = Some (ih_state h) \<and> ih_session h = s"
    using pos by (simp add: find_pos_key [OF d] h)
  show "\<exists>s'. inbound_set h e = Some s' \<and> peer_update s p (Some e) s'"
    using map_of_update_value [OF d i(1), of e] i d inv
    by (auto simp: inbound_set_def h intro!: peer_updateI)
  obtain ys where ys: "swap_remove sr ?xs i = Some ys"
    using i by (cases "swap_remove sr ?xs i") auto
  show "\<exists>s'. inbound_remove sr h = Some s' \<and> peer_update s p None s'"
    using swap_remove_map_of [OF sr_ok d ys] length_swap_remove [OF sr_ok ys] i inv ys
    by (auto simp: inbound_remove_def h intro!: peer_updateI)
qed

sublocale vector_removal \<subseteq> local: entry_table local_update local_entry get_outbound_handle oh_state
  oh_session outbound_set "outbound_remove sr"
proof
  fix s p h e
  assume inv: "session_inv s"
  let ?xs = "outbound_publishes s"
  have d: "distinct (keys ?xs)" using inv by (rule session_inv_distinct)
  show "local_update s p (local_entry s p) s"
    using inv by (simp add: local_update_def)
  show "local_entry s p = None" if "get_outbound_handle s p = None"
    using that by (simp add: get_outbound_handle_def find_pos_key [OF d])
  assume "get_outbound_handle s p = Some h"
  then obtain i where pos: "find_pos (\<lambda>e. fst e = p) ?xs = Some i"
    and h: "h = \<lparr>oh_session = s, oh_i = i, oh_state = snd (?xs ! i)\<rparr>"
    by (auto simp: get_outbound_handle_def)
  note i = find_pos_keyD [OF pos]
  show "local_entry s p = Some (oh_state h) \<and> oh_session h = s"
    using pos by (simp add: find_pos_key [OF d] h)
  show "\<exists>s'. outbound_set h e = Some s' \<and> local_update s p (Some e) s'"
    using map_of_update_value [OF d i(1), of e] i d inv
    by (auto simp: outbound_set_def h intro!: local_updateI)
  obtain ys where ys: "swap_remove sr ?xs i = Some ys"
    using i by (cases "swap_remove sr ?xs i") auto
  show "\<exists>s'. outbound_remove sr h = Some s' \<and> local_update s p None s'"
    using swap_remove_map_of [OF sr_ok d ys] length_swap_remove [OF sr_ok ys] i inv ys
    by (auto simp: outbound_remove_def h intro!: local_updateI)
qed

lemma word16_less_of_nat: "m \<le> 65535 \<Longrightarrow> n \<le> 65535 \<Longrightarrow> (word_of_nat m :: u16) < word_of_nat n \<longleftrightarrow> m < n"
  by (simp add: word_less_nat_alt unat_of_nat)

lemma inbound_capacity:
  "session_inv s \<Longrightarrow> available_inbound_publish_capacity s = Some (inbound_room s)"
  by (simp add: available_inbound_publish_capacity_def active_inbound_publishes_def Let_def
        inbound_room_def session_inv_def word16_less_of_nat)

lemma outbound_capacity:
  "session_inv s \<Longrightarrow> available_outbound_publish_capacity s = Some (outbound_room s)"
  by (simp add: available_outbound_publish_capacity_def active_outbound_publishes_def Let_def
        outbound_room_def session_inv_def word16_less_of_nat)

lemma schedule_inbound_ok:
  assumes inv: "session_inv s" and room: "inbound_room s" and fresh: "get_inbound_handle s p = None"
    and v: "pid_valid p"
  shows "\<exists>s'. schedule_inbound s p st = Some s' \<and> peer_update s p (Some st) s'"
proof -
  have "p \<notin> set (keys (inbound_publishes s))"
    using fresh by (auto simp: get_inbound_handle_def)
  with inv room v have "peer_update s p (Some st)
      (s\<lparr>inbound_publishes := inbound_publishes s @ [(p, st)]\<rparr>)"
    by (auto simp: peer_update_def session_inv_def inbound_room_def map_of_snoc_fresh
          simp del: map_of_append)
  then show ?thesis
    using room fresh inbound_capacity [OF inv]
    by (simp add: schedule_inbound_def inbound_room_def)
qed

lemma qos_of_local_AtLeastOnce:
  "qos_of_local st = AtLeastOnce \<longleftrightarrow> st = DuePublishAtLeastOnce \<or> st = AwaitAck"
  by (cases st) simp_all

context vector_removal
begin

lemma inbound_publish_refines:
  assumes inv: "session_inv s" and p: "packet_identifier iq = Some p" and v: "pid_valid p"
  shows "\<exists>r s'. inbound_publish s iq mode = Some (r, s')
           \<and> (\<exists>eo. peer_publish (inbound_room s) (qos_of iq) mode (peer_entry s p) = (r, eo)
                  \<and> peer_update s p eo s')"
proof (cases "get_inbound_handle s p")
  case None
  have e: "peer_entry s p = None" using peer.handle_None [OF inv None] .
  have room: "available_inbound_publish_capacity s = Some (inbound_room s)"
    using inv by (rule inbound_capacity)
  show ?thesis
  proof (cases "inbound_room s")
    case False
    then show ?thesis
      using None e p room peer.keep_ok [OF inv, of p]
      by (auto simp: inbound_publish_def peer_publish_def)
  next
    case True
    note sched = schedule_inbound_ok [OF inv True None v]
    show ?thesis
      using None e p room True sched peer.keep_ok [OF inv, of p]
      by (cases iq; cases mode) (fastforce simp: inbound_publish_def peer_publish_def)+
  qed
next
  case (Some h)
  have "\<exists>r s'. (case get_inbound_handle s p of Some h \<Rightarrow> ih_inbound_republish h (qos_of iq)
                | None \<Rightarrow> Some (undefined, s)) = Some (r, s')
      \<and> (\<exists>eo. (if peer_entry s p = None then (undefined, None)
              else peer_publish (inbound_room s) (qos_of iq) mode (peer_entry s p)) = (r, eo)
            \<and> peer_update s p eo s')"
    by (rule peer.refines [OF inv]; cases iq)
       (use p in \<open>auto simp: peer_publish_def split: peer_publish_state.splits ack_mode.splits\<close>)
  then show ?thesis
    using Some p peer.handle_Some [OF inv Some] by (simp add: inbound_publish_def)
qed

lemma inbound_pubrel_refines:
  assumes "session_inv s"
  shows "\<exists>r s'. inbound_pubrel sr s p rc = Some (r, s')
           \<and> (\<exists>eo. peer_pubrel rc (peer_entry s p) = (r, eo) \<and> peer_update s p eo s')"
  unfolding inbound_pubrel_def
  by (rule peer.refines [OF assms])
     (auto simp: peer_pubrel_def ih_inbound_pubrel_def ack_mode_of_peer_def
        split: peer_publish_state.splits ack_mode.splits)

lemma outbound_puback_refines:
  assumes "session_inv s"
  shows "\<exists>r s'. outbound_puback sr s p = Some (r, s')
           \<and> (\<exists>eo. user_request qos_of_peer AtLeastOnce puback_due (peer_entry s p) = (r, eo)
                  \<and> peer_update s p eo s')"
  unfolding outbound_puback_def
  by (rule peer.refines [OF assms])
     (auto simp: user_request_def puback_due_def ih_outbound_puback_def
        split: peer_publish_state.splits)

lemma outbound_pubrec_refines:
  assumes "session_inv s"
  shows "\<exists>r s'. outbound_pubrec sr s p rc = Some (r, s')
           \<and> (\<exists>eo. user_request qos_of_peer ExactlyOnce (pubrec_due rc) (peer_entry s p) = (r, eo)
                  \<and> peer_update s p eo s')"
  unfolding outbound_pubrec_def
  by (rule peer.refines [OF assms])
     (auto simp: user_request_def pubrec_due_def ih_outbound_pubrec_def
        split: peer_publish_state.splits)

lemma outbound_pubcomp_refines:
  assumes "session_inv s"
  shows "\<exists>r s'. outbound_pubcomp sr s p = Some (r, s')
           \<and> (\<exists>eo. user_request qos_of_peer ExactlyOnce pubcomp_due (peer_entry s p) = (r, eo)
                  \<and> peer_update s p eo s')"
  unfolding outbound_pubcomp_def
  by (rule peer.refines [OF assms])
     (auto simp: user_request_def pubcomp_due_def ih_outbound_pubcomp_def
        split: peer_publish_state.splits)

lemma outbound_republish_refines:
  assumes "session_inv s" and "packet_identifier iq = Some p"
  shows "\<exists>r s'. outbound_republish s iq = Some (r, s')
           \<and> (\<exists>eo. user_request qos_of_local (qos_of iq) republish_due (local_entry s p) = (r, eo)
                  \<and> local_update s p eo s')"
  unfolding outbound_republish_def assms(2) option.case
  by (rule local.refines [OF assms(1)]; cases iq)
     (use assms(2) in \<open>auto simp: user_request_def republish_due_def
        split: local_publish_state.splits\<close>)

lemma outbound_pubrel_refines:
  assumes "session_inv s"
  shows "\<exists>r s'. outbound_pubrel s p = Some (r, s')
           \<and> (\<exists>eo. user_request qos_of_local ExactlyOnce pubrel_due (local_entry s p) = (r, eo)
                  \<and> local_update s p eo s')"
  unfolding outbound_pubrel_def
  by (rule local.refines [OF assms])
     (auto simp: user_request_def pubrel_due_def oh_outbound_pubrel_def
        split: local_publish_state.splits)

lemma inbound_puback_refines:
  assumes "session_inv s"
  shows "\<exists>r s'. inbound_puback sr s p rc = Some (r, s')
           \<and> (\<exists>eo. local_puback rc (local_entry s p) = (r, eo) \<and> local_update s p eo s')"
  unfolding inbound_puback_def
  by (rule local.refines [OF assms])
     (auto simp: local_puback_def oh_inbound_puback_def qos_of_local_AtLeastOnce)

lemma inbound_pubrec_refines:
  assumes "session_inv s"
  shows "\<exists>r s'. inbound_pubrec sr s p rc = Some (r, s')
           \<and> (\<exists>eo. local_pubrec rc (local_entry s p) = (r, eo) \<and> local_update s p eo s')"
  unfolding inbound_pubrec_def
  by (rule local.refines [OF assms])
     (auto simp: local_pubrec_def oh_inbound_pubrec_def
        split: local_publish_state.splits ack_mode.splits)

lemma inbound_pubcomp_refines:
  assumes "session_inv s"
  shows "\<exists>r s'. inbound_pubcomp sr s p rc = Some (r, s')
           \<and> (\<exists>eo. local_pubcomp rc (local_entry s p) = (r, eo) \<and> local_update s p eo s')"
  unfolding inbound_pubcomp_def
  by (rule local.refines [OF assms])
     (auto simp: local_pubcomp_def oh_inbound_pubcomp_def split: local_publish_state.splits)

end

end
