(* ===== verification/Mqtt_Session_Runs.thy ===== *)
theory Mqtt_Session_Runs
  imports Mqtt_Handshake
begin

text \<open>
  Whole histories of a session: the abstract specification of the session as a transition system
  over finite maps, the proof that the code of \<open>Mqtt_Session\<close> simulates it without panicking, and
  the delivery guarantees of the protocol as statements about arbitrary sequences of packets, user
  requests and reconnections.
\<close>

section \<open>Operations and their outcomes\<close>

text \<open>
  One constructor per way in which \<open>src/client/mod.rs\<close> uses the session: requests of the user
  (\<open>Op\<close>) and packets of the server (\<open>In\<close>).
\<close>

datatype sess_op =
    OpClear
  | OpReconnect
  | OpSub
  | OpUnsub
  | OpPublish qos ack_mode
  | OpRepublish identified_qos
  | OpPubrel pid
  | OpPuback pid
  | OpPubrec pid reason_code
  | OpPubcomp pid
  | InSuback pid
  | InUnsuback pid
  | InPublish identified_qos ack_mode
  | InPuback pid reason_code
  | InPubrec pid reason_code
  | InPubrel pid reason_code
  | InPubcomp pid reason_code

datatype sess_out =
    OutDone
  | OutNoPid
  | OutNoCapacity
  | OutPid pid
  | OutUnknown
  | OutUser "sm_error + unit"
  | OutPeer "response \<times> sm_event"

definition allocate ::
    "session \<Rightarrow> (free_handle \<Rightarrow> ((sm_error + unit) \<times> session) option)
     \<Rightarrow> (sess_out \<times> session) option" where
  "allocate s f = (case get_free_handle s of
      None \<Rightarrow> Some (OutNoPid, s)
    | Some h \<Rightarrow> map_option
        (\<lambda>(r, s'). (case r of Inl _ \<Rightarrow> OutNoCapacity | Inr _ \<Rightarrow> OutPid (fh_packet_identifier h), s'))
        (f h))"

definition exec_op :: "remover \<Rightarrow> session \<Rightarrow> sess_op \<Rightarrow> (sess_out \<times> session) option" where
  "exec_op sr s op = (case op of
      OpClear \<Rightarrow> Some (OutDone, session_clear s)
    | OpReconnect \<Rightarrow> Some (OutDone, session_reconnect s)
    | OpSub \<Rightarrow> allocate s (\<lambda>h. Some (outbound_sub h))
    | OpUnsub \<Rightarrow> allocate s (\<lambda>h. Some (outbound_unsub h))
    | OpPublish q mode \<Rightarrow> allocate s (\<lambda>h. outbound_publish h q mode)
    | OpRepublish iq \<Rightarrow> map_option (apfst OutUser) (outbound_republish s iq)
    | OpPubrel p \<Rightarrow> map_option (apfst OutUser) (outbound_pubrel s p)
    | OpPuback p \<Rightarrow> map_option (apfst OutUser) (outbound_puback sr s p)
    | OpPubrec p rc \<Rightarrow> map_option (apfst OutUser) (outbound_pubrec sr s p rc)
    | OpPubcomp p \<Rightarrow> map_option (apfst OutUser) (outbound_pubcomp sr s p)
    | InSuback p \<Rightarrow>
        (case get_sub_handle s p of
           None \<Rightarrow> Some (OutUnknown, s)
         | Some h \<Rightarrow> map_option (Pair OutDone) (sub_remove sr h))
    | InUnsuback p \<Rightarrow>
        (case get_unsub_handle s p of
           None \<Rightarrow> Some (OutUnknown, s)
         | Some h \<Rightarrow> map_option (Pair OutDone) (unsub_remove sr h))
    | InPublish iq mode \<Rightarrow> map_option (apfst OutPeer) (inbound_publish s iq mode)
    | InPuback p rc \<Rightarrow> map_option (apfst OutPeer) (inbound_puback sr s p rc)
    | InPubrec p rc \<Rightarrow> map_option (apfst OutPeer) (inbound_pubrec sr s p rc)
    | InPubrel p rc \<Rightarrow> map_option (apfst OutPeer) (inbound_pubrel sr s p rc)
    | InPubcomp p rc \<Rightarrow> map_option (apfst OutPeer) (inbound_pubcomp sr s p rc))"

text \<open>
  What the callers guarantee: identifiers read from a packet or held by the user are not zero, and
  \<open>outbound_publish\<close> is neither called for Quality of Service 0 nor with manual acknowledgement of
  Quality of Service 1 (its two debug assertions).
\<close>

fun op_ok :: "sess_op \<Rightarrow> bool" where
  "op_ok (OpPublish q mode) = (q \<noteq> AtMostOnce \<and> \<not> (q = AtLeastOnce \<and> mode = Manual))"
| "op_ok (InPublish iq mode) = (\<forall>p. packet_identifier iq = Some p \<longrightarrow> pid_valid p)"
| "op_ok _ = True"

section \<open>Abstract specification\<close>

record spec_state =
  sp_subs :: "pid set"
  sp_unsubs :: "pid set"
  sp_peer :: "pid \<Rightarrow> peer_publish_state option"
  sp_local :: "pid \<Rightarrow> local_publish_state option"

record spec_caps =
  cap_sub :: nat
  cap_receive :: nat
  cap_send :: nat

definition in_use :: "spec_state \<Rightarrow> pid set" where
  "in_use a = sp_subs a \<union> sp_unsubs a \<union> dom (sp_local a)"

definition fresh_local :: "qos \<Rightarrow> ack_mode \<Rightarrow> local_publish_state" where
  "fresh_local q mode = (if q = AtLeastOnce then AwaitAck else AwaitRec mode)"

inductive spec_step ::
    "spec_caps \<Rightarrow> spec_state \<Rightarrow> sess_op \<Rightarrow> sess_out \<Rightarrow> spec_state \<Rightarrow> bool" for c where
  st_clear: "spec_step c a OpClear OutDone
     \<lparr>sp_subs = {}, sp_unsubs = {}, sp_peer = Map.empty, sp_local = Map.empty\<rparr>"
| st_reconnect: "spec_step c a OpReconnect OutDone
     \<lparr>sp_subs = {}, sp_unsubs = {}, sp_peer = map_option peer_reconnected \<circ> sp_peer a,
      sp_local = map_option local_reconnected \<circ> sp_local a\<rparr>"
| st_no_pid: "op \<in> {OpSub, OpUnsub} \<union> {OpPublish q m |q m. True} \<Longrightarrow>
     (\<forall>p. pid_valid p \<longrightarrow> p \<in> in_use a) \<Longrightarrow> spec_step c a op OutNoPid a"
| st_sub: "pid_valid p \<Longrightarrow> p \<notin> in_use a \<Longrightarrow> card (sp_subs a) < cap_sub c \<Longrightarrow>
     spec_step c a OpSub (OutPid p) (a\<lparr>sp_subs := insert p (sp_subs a)\<rparr>)"
| st_sub_full: "card (sp_subs a) = cap_sub c \<Longrightarrow> spec_step c a OpSub OutNoCapacity a"
| st_unsub: "pid_valid p \<Longrightarrow> p \<notin> in_use a \<Longrightarrow> card (sp_unsubs a) < cap_sub c \<Longrightarrow>
     spec_step c a OpUnsub (OutPid p) (a\<lparr>sp_unsubs := insert p (sp_unsubs a)\<rparr>)"
| st_unsub_full: "card (sp_unsubs a) = cap_sub c \<Longrightarrow> spec_step c a OpUnsub OutNoCapacity a"
| st_publish: "pid_valid p \<Longrightarrow> p \<notin> in_use a \<Longrightarrow> card (dom (sp_local a)) < cap_send c \<Longrightarrow>
     spec_step c a (OpPublish q mode) (OutPid p)
       (a\<lparr>sp_local := (sp_local a)(p \<mapsto> fresh_local q mode)\<rparr>)"
| st_publish_full: "card (dom (sp_local a)) = cap_send c \<Longrightarrow>
     spec_step c a (OpPublish q mode) OutNoCapacity a"
| st_republish0: "spec_step c a (OpRepublish IdAtMostOnce) (OutUser (Inr ())) a"
| st_republish: "packet_identifier iq = Some p \<Longrightarrow>
     user_request qos_of_local (qos_of iq) republish_due (sp_local a p) = (r, eo) \<Longrightarrow>
     spec_step c a (OpRepublish iq) (OutUser r) (a\<lparr>sp_local := (sp_local a)(p := eo)\<rparr>)"
| st_pubrel: "user_request qos_of_local ExactlyOnce pubrel_due (sp_local a p) = (r, eo) \<Longrightarrow>
     spec_step c a (OpPubrel p) (OutUser r) (a\<lparr>sp_local := (sp_local a)(p := eo)\<rparr>)"
| st_puback: "user_request qos_of_peer AtLeastOnce puback_due (sp_peer a p) = (r, eo) \<Longrightarrow>
     spec_step c a (OpPuback p) (OutUser r) (a\<lparr>sp_peer := (sp_peer a)(p := eo)\<rparr>)"
| st_pubrec: "user_request qos_of_peer ExactlyOnce (pubrec_due rc) (sp_peer a p) = (r, eo) \<Longrightarrow>
     spec_step c a (OpPubrec p rc) (OutUser r) (a\<lparr>sp_peer := (sp_peer a)(p := eo)\<rparr>)"
| st_pubcomp: "user_request qos_of_peer ExactlyOnce pubcomp_due (sp_peer a p) = (r, eo) \<Longrightarrow>
     spec_step c a (OpPubcomp p) (OutUser r) (a\<lparr>sp_peer := (sp_peer a)(p := eo)\<rparr>)"
| st_suback: "spec_step c a (InSuback p) (if p \<in> sp_subs a then OutDone else OutUnknown)
     (a\<lparr>sp_subs := sp_subs a - {p}\<rparr>)"
| st_unsuback: "spec_step c a (InUnsuback p) (if p \<in> sp_unsubs a then OutDone else OutUnknown)
     (a\<lparr>sp_unsubs := sp_unsubs a - {p}\<rparr>)"
| st_in_publish0: "spec_step c a (InPublish IdAtMostOnce mode) (OutPeer (RNone, SmPublish)) a"
| st_in_publish: "packet_identifier iq = Some p \<Longrightarrow>
     peer_publish (card (dom (sp_peer a)) < cap_receive c) (qos_of iq) mode (sp_peer a p) = (r, eo)
     \<Longrightarrow> spec_step c a (InPublish iq mode) (OutPeer r) (a\<lparr>sp_peer := (sp_peer a)(p := eo)\<rparr>)"
| st_in_puback: "local_puback rc (sp_local a p) = (r, eo) \<Longrightarrow>
     spec_step c a (InPuback p rc) (OutPeer r) (a\<lparr>sp_local := (sp_local a)(p := eo)\<rparr>)"
| st_in_pubrec: "local_pubrec rc (sp_local a p) = (r, eo) \<Longrightarrow>
     spec_step c a (InPubrec p rc) (OutPeer r) (a\<lparr>sp_local := (sp_local a)(p := eo)\<rparr>)"
| st_in_pubrel: "peer_pubrel rc (sp_peer a p) = (r, eo) \<Longrightarrow>
     spec_step c a (InPubrel p rc) (OutPeer r) (a\<lparr>sp_peer := (sp_peer a)(p := eo)\<rparr>)"
| st_in_pubcomp: "local_pubcomp rc (sp_local a p) = (r, eo) \<Longrightarrow>
     spec_step c a (InPubcomp p rc) (OutPeer r) (a\<lparr>sp_local := (sp_local a)(p := eo)\<rparr>)"

inductive_cases spec_stepE: "spec_step c a op out a'"

section \<open>Abstraction\<close>

definition abs_session :: "session \<Rightarrow> spec_state" where
  "abs_session s =
     \<lparr>sp_subs = set (subs s), sp_unsubs = set (unsubs s),
      sp_peer = peer_entry s, sp_local = local_entry s\<rparr>"

definition session_caps :: "session \<Rightarrow> spec_caps" where
  "session_caps s =
     \<lparr>cap_sub = SUBSCRIBE_MAXIMUM s, cap_receive = min (RECEIVE_MAXIMUM s) 65535,
      cap_send = min (SEND_MAXIMUM s) 65535\<rparr>"

lemma abs_session_sel [simp]:
  "sp_subs (abs_session s) = set (subs s)" "sp_unsubs (abs_session s) = set (unsubs s)"
  "sp_peer (abs_session s) = peer_entry s" "sp_local (abs_session s) = local_entry s"
  by (simp_all add: abs_session_def)

lemma abs_session_same [simp]:
  "(abs_session s)\<lparr>sp_subs := set (subs s)\<rparr> = abs_session s"
  "(abs_session s)\<lparr>sp_unsubs := set (unsubs s)\<rparr> = abs_session s"
  by (simp_all add: abs_session_def)

lemma session_caps_sel [simp]:
  "cap_sub (session_caps s) = SUBSCRIBE_MAXIMUM s"
  "cap_receive (session_caps s) = min (RECEIVE_MAXIMUM s) 65535"
  "cap_send (session_caps s) = min (SEND_MAXIMUM s) 65535"
  by (simp_all add: session_caps_def)

lemma card_dom_map_of: "distinct (keys xs) \<Longrightarrow> card (dom (map_of xs)) = length xs"
  by (metis distinct_card dom_map_of_conv_image_fst length_map list.set_map)

lemma inbound_room_abs:
  "session_inv s \<Longrightarrow> inbound_room s \<longleftrightarrow>
     card (dom (sp_peer (abs_session s))) < cap_receive (session_caps s)"
  by (simp add: inbound_room_def card_dom_map_of session_inv_distinct)

lemma outbound_room_abs:
  "session_inv s \<Longrightarrow> outbound_room s \<longleftrightarrow>
     card (dom (sp_local (abs_session s))) < cap_send (session_caps s)"
  by (simp add: outbound_room_def card_dom_map_of session_inv_distinct)

lemma peer_update_abs:
  assumes "peer_update s p eo s'"
  shows "session_inv s'" and "session_caps s' = session_caps s"
    and "abs_session s' = (abs_session s)\<lparr>sp_peer := (sp_peer (abs_session s))(p := eo)\<rparr>"
proof -
  obtain xs where s': "s' = s\<lparr>inbound_publishes := xs\<rparr>"
    using assms unfolding peer_update_def by blast
  show "session_inv s'" using assms by (simp add: peer_update_def)
  show "session_caps s' = session_caps s" by (simp add: s' session_caps_def)
  show "abs_session s' = (abs_session s)\<lparr>sp_peer := (sp_peer (abs_session s))(p := eo)\<rparr>"
    using assms by (simp add: peer_update_def s' abs_session_def)
qed

lemma local_update_abs:
  assumes "local_update s p eo s'"
  shows "session_inv s'" and "session_caps s' = session_caps s"
    and "abs_session s' = (abs_session s)\<lparr>sp_local := (sp_local (abs_session s))(p := eo)\<rparr>"
proof -
  obtain xs where s': "s' = s\<lparr>outbound_publishes := xs\<rparr>"
    using assms unfolding local_update_def by blast
  show "session_inv s'" using assms by (simp add: local_update_def)
  show "session_caps s' = session_caps s" by (simp add: s' session_caps_def)
  show "abs_session s' = (abs_session s)\<lparr>sp_local := (sp_local (abs_session s))(p := eo)\<rparr>"
    using assms by (simp add: local_update_def s' abs_session_def)
qed

section \<open>Allocation of packet identifiers\<close>

lemma find_pos_eq_None: "find_pos (\<lambda>q. q = p) xs = None \<longleftrightarrow> p \<notin> set xs"
  by auto

lemma pid_unused_iff: "pid_unused s p \<longleftrightarrow> p \<notin> in_use (abs_session s)"
  unfolding pid_unused_def get_outbound_handle_def get_sub_handle_def get_unsub_handle_def in_use_def
  by (auto simp: dom_map_of_conv_image_fst simp del: find_pos.simps)

text \<open>The search returns the least unused identifier not below its start, if there is one.\<close>

lemma free_pid_from_Some:
  "free_pid_from s p = Some q \<Longrightarrow>
     pid_unused s q \<and> p \<le> q \<and> (\<forall>r. p \<le> r \<and> r < q \<longrightarrow> \<not> pid_unused s r)"
proof (induction s p rule: free_pid_from.induct)
  case (1 s p)
  show ?case
  proof (cases "pid_unused s p")
    case True
    then have "q = p" using "1.prems" by (subst (asm) free_pid_from.simps) simp
    then show ?thesis using True by auto
  next
    case False
    with "1.prems" have n: "pid_next p \<noteq> pid_ONE" and q: "free_pid_from s (pid_next p) = Some q"
      by (subst (asm) free_pid_from.simps; auto simp: Let_def split: if_splits)+
    have ih: "pid_unused s q" "pid_next p \<le> q"
      "\<And>r. pid_next p \<le> r \<Longrightarrow> r < q \<Longrightarrow> \<not> pid_unused s r"
      using "1.IH" [OF False refl n q] by auto
    have un: "unat (pid_next p) = unat p + 1" using n by (rule unat_pid_next)
    have "\<not> pid_unused s r" if "p \<le> r" "r < q" for r
    proof (cases "r = p")
      case False
      with that(1) have "pid_next p \<le> r"
        using un by (simp add: word_le_nat_alt) (metis Suc_leI le_neq_implies_less word_unat_eq_iff)
      then show ?thesis using ih(3) that(2) by blast
    qed (simp add: \<open>\<not> pid_unused s p\<close>)
    moreover have "p \<le> q" using ih(2) un by (simp add: word_le_nat_alt)
    ultimately show ?thesis using ih(1) by blast
  qed
qed

lemma pid_next_ONE:
  assumes "pid_next p = pid_ONE" and "p \<le> r" and "pid_valid p"
  shows "r = p"
proof -
  have "p + 1 = 0 \<or> p + 1 = 1"
    using assms(1) by (auto simp: pid_next_def pid_ONE_def Let_def split: if_splits)
  then have "p = - 1" using assms(3) by (auto simp: pid_valid_def eq_neg_iff_add_eq_0)
  then show ?thesis using assms(2) by (simp add: word_order.extremum_unique)
qed

lemma free_pid_from_None:
  "free_pid_from s p = None \<Longrightarrow> pid_valid p \<Longrightarrow> p \<le> r \<Longrightarrow> \<not> pid_unused s r"
proof (induction s p rule: free_pid_from.induct)
  case (1 s p)
  have np: "\<not> pid_unused s p"
    using "1.prems"(1) by (subst (asm) free_pid_from.simps) (auto split: if_splits)
  show ?case
  proof (cases "pid_next p = pid_ONE")
    case True
    then show ?thesis using pid_next_ONE "1.prems" np by blast
  next
    case False
    then have f: "free_pid_from s (pid_next p) = None"
      using "1.prems"(1) np by (subst (asm) free_pid_from.simps) simp
    have un: "unat (pid_next p) = unat p + 1" using False by (rule unat_pid_next)
    show ?thesis
    proof (cases "r = p")
      case False
      then have "pid_next p \<le> r"
        using un "1.prems"(3) by (simp add: word_le_nat_alt) (metis Suc_leI le_neq_implies_less word_unat_eq_iff)
      then show ?thesis using "1.IH" [OF np refl \<open>pid_next p \<noteq> pid_ONE\<close> f pid_next_valid] by simp
    qed (simp add: np)
  qed
qed

lemma pid_valid_ge_ONE: "pid_valid p \<longleftrightarrow> pid_ONE \<le> p"
  by (simp add: pid_valid_def pid_ONE_def word_le_nat_alt unat_gt_0 Suc_le_eq)

lemma get_free_handle_Some:
  assumes "get_free_handle s = Some h"
  shows "fh_session h = s" and "pid_valid (fh_packet_identifier h)"
    and "fh_packet_identifier h \<notin> in_use (abs_session s)"
  using assms free_pid_from_Some [of s pid_ONE]
  by (auto simp: get_free_handle_def pid_valid_ge_ONE pid_unused_iff)

lemma get_free_handle_None:
  "get_free_handle s = None \<Longrightarrow> pid_valid p \<Longrightarrow> p \<in> in_use (abs_session s)"
  using free_pid_from_None [of s pid_ONE p]
  by (auto simp: get_free_handle_def pid_valid_ge_ONE pid_unused_iff)

section \<open>Simulation\<close>

lemma allocate_cases:
  assumes "\<And>h. get_free_handle s = Some h \<Longrightarrow>
      f h = Some (Inl NoCapacity, s) \<and> spec_step c (abs_session s) op OutNoCapacity (abs_session s)
    \<or> (\<exists>s'. f h = Some (Inr (), s') \<and> session_inv s' \<and> session_caps s' = session_caps s
         \<and> spec_step c (abs_session s) op (OutPid (fh_packet_identifier h)) (abs_session s'))"
    and "session_inv s" and "op \<in> {OpSub, OpUnsub} \<union> {OpPublish q m |q m. True}"
  shows "\<exists>out s'. allocate s f = Some (out, s') \<and> session_inv s' \<and> session_caps s' = session_caps s
      \<and> spec_step c (abs_session s) op out (abs_session s')"
proof (cases "get_free_handle s")
  case None
  then have "spec_step c (abs_session s) op OutNoPid (abs_session s)"
    using get_free_handle_None [OF None] assms(3) by (blast intro: st_no_pid)
  then show ?thesis using None assms(2) by (simp add: allocate_def)
next
  case (Some h)
  then show ?thesis using assms(1) [OF Some] assms(2) by (auto simp: allocate_def)
qed

lemma in_use_abs: "in_use (abs_session s) =
    set (subs s) \<union> set (unsubs s) \<union> set (keys (outbound_publishes s))"
  by (simp add: in_use_def dom_map_of_conv_image_fst)

lemma sub_simulates:
  assumes inv: "session_inv s"
  shows "\<exists>out s'. allocate s (\<lambda>h. Some (outbound_sub h)) = Some (out, s') \<and> session_inv s'
      \<and> session_caps s' = session_caps s
      \<and> spec_step (session_caps s) (abs_session s) OpSub out (abs_session s')"
proof (rule allocate_cases [OF _ inv], goal_cases)
  case (1 h)
  note h = get_free_handle_Some [OF 1]
  have c: "card (set (subs s)) = length (subs s)" and le: "length (subs s) \<le> SUBSCRIBE_MAXIMUM s"
    using inv by (auto simp: session_inv_def intro: distinct_card)
  show ?case
  proof (cases "length (subs s) < SUBSCRIBE_MAXIMUM s")
    case True
    let ?s = "s\<lparr>subs := subs s @ [fh_packet_identifier h]\<rparr>"
    have "session_inv ?s" using inv h True by (auto simp: session_inv_def in_use_abs)
    moreover have "spec_step (session_caps s) (abs_session s) OpSub
        (OutPid (fh_packet_identifier h)) (abs_session ?s)"
      using st_sub [OF h(2,3), of "session_caps s"] True c by (simp add: abs_session_def)
    ultimately show ?thesis using h True by (simp add: outbound_sub_def session_caps_def)
  next
    case False
    then show ?thesis
      using h c le st_sub_full [of "abs_session s" "session_caps s"] by (simp add: outbound_sub_def)
  qed
qed simp

lemma unsub_simulates:
  assumes inv: "session_inv s"
  shows "\<exists>out s'. allocate s (\<lambda>h. Some (outbound_unsub h)) = Some (out, s') \<and> session_inv s'
      \<and> session_caps s' = session_caps s
      \<and> spec_step (session_caps s) (abs_session s) OpUnsub out (abs_session s')"
proof (rule allocate_cases [OF _ inv], goal_cases)
  case (1 h)
  note h = get_free_handle_Some [OF 1]
  have c: "card (set (unsubs s)) = length (unsubs s)"
    and le: "length (unsubs s) \<le> SUBSCRIBE_MAXIMUM s"
    using inv by (auto simp: session_inv_def intro: distinct_card)
  show ?case
  proof (cases "length (unsubs s) < SUBSCRIBE_MAXIMUM s")
    case True
    let ?s = "s\<lparr>unsubs := unsubs s @ [fh_packet_identifier h]\<rparr>"
    have "session_inv ?s" using inv h True by (auto simp: session_inv_def in_use_abs)
    moreover have "spec_step (session_caps s) (abs_session s) OpUnsub
        (OutPid (fh_packet_identifier h)) (abs_session ?s)"
      using st_unsub [OF h(2,3), of "session_caps s"] True c by (simp add: abs_session_def)
    ultimately show ?thesis using h True by (simp add: outbound_unsub_def session_caps_def)
  next
    case False
    then show ?thesis
      using h c le st_unsub_full [of "abs_session s" "session_caps s"]
      by (simp add: outbound_unsub_def)
  qed
qed simp

lemma schedule_outbound_ok:
  assumes inv: "session_inv s" and room: "outbound_room s" and v: "pid_valid p"
    and fresh: "p \<notin> in_use (abs_session s)"
  shows "\<exists>s'. schedule_outbound s p st = Some s' \<and> local_update s p (Some st) s'"
proof -
  have "local_update s p (Some st) (s\<lparr>outbound_publishes := outbound_publishes s @ [(p, st)]\<rparr>)"
    using inv room v fresh
    by (auto simp: local_update_def session_inv_def outbound_room_def map_of_snoc_fresh in_use_abs
          simp del: map_of_append)
  moreover have "pid_unused s p" using fresh by (simp add: pid_unused_iff)
  ultimately show ?thesis
    using room outbound_capacity [OF inv]
    by (simp add: schedule_outbound_def outbound_room_def pid_unused_def)
qed

lemma publish_simulates:
  assumes inv: "session_inv s" and ok: "op_ok (OpPublish q mode)"
  shows "\<exists>out s'. allocate s (\<lambda>h. outbound_publish h q mode) = Some (out, s') \<and> session_inv s'
      \<and> session_caps s' = session_caps s
      \<and> spec_step (session_caps s) (abs_session s) (OpPublish q mode) out (abs_session s')"
proof (rule allocate_cases [OF _ inv], goal_cases)
  case (1 h)
  note h = get_free_handle_Some [OF 1]
  note cap = outbound_capacity [OF inv]
  show ?case
  proof (cases "outbound_room s")
    case True
    obtain s' where s': "schedule_outbound s (fh_packet_identifier h) (fresh_local q mode) = Some s'"
      and u: "local_update s (fh_packet_identifier h) (Some (fresh_local q mode)) s'"
      using schedule_outbound_ok [OF inv True h(2,3)] by blast
    have "outbound_publish h q mode = Some (Inr (), s')"
      using h s' cap True ok by (cases q) (auto simp: outbound_publish_def fresh_local_def is_manual_def
          split: ack_mode.splits)
    moreover have "spec_step (session_caps s) (abs_session s) (OpPublish q mode)
        (OutPid (fh_packet_identifier h)) (abs_session s')"
      unfolding local_update_abs(3) [OF u]
      using True by (intro st_publish h(2,3)) (simp add: outbound_room_abs [OF inv])
    ultimately show ?thesis using local_update_abs(1,2) [OF u] by blast
  next
    case False
    have "length (outbound_publishes s) \<le> min (SEND_MAXIMUM s) 65535"
      using inv by (simp add: session_inv_def)
    with False have "card (dom (sp_local (abs_session s))) = cap_send (session_caps s)"
      by (auto simp: outbound_room_def card_dom_map_of session_inv_distinct [OF inv] min_def
            split: if_splits)
    moreover have "outbound_publish h q mode = Some (Inl NoCapacity, s)"
      using h cap False ok by (cases q; cases mode) (simp_all add: outbound_publish_def)
    ultimately show ?thesis by (blast intro: st_publish_full)
  qed
qed simp

lemma swap_remove_member:
  assumes "swap_remove_ok sr" and "distinct xs" and "find_pos (\<lambda>q. q = p) xs = Some i"
  shows "\<exists>ys. swap_remove sr xs i = Some ys \<and> distinct ys \<and> set ys = set xs - {p}
           \<and> length ys \<le> length xs"
proof -
  have i: "i < length xs" "xs ! i = p" using find_pos_SomeD [OF assms(3)] by auto
  obtain ys where ys: "swap_remove sr xs i = Some ys"
    using i by (cases "swap_remove sr xs i") auto
  have m: "mset xs = mset (p # ys)"
    using mset_remove_nth [OF mset_swap_remove(1) [OF assms(1) ys]] i nth_mem [of i xs] by auto
  have d: "distinct (p # ys)" using mset_eq_imp_distinct_iff [OF m] assms(2) by blast
  moreover have "set xs = insert p (set ys)" using mset_eq_setD [OF m] by simp
  ultimately show ?thesis using ys length_swap_remove [OF assms(1) ys] by auto
qed

context vector_removal
begin

lemma suback_simulates:
  assumes inv: "session_inv s"
  shows "\<exists>out s'. exec_op sr s (InSuback p) = Some (out, s') \<and> session_inv s'
      \<and> session_caps s' = session_caps s
      \<and> spec_step (session_caps s) (abs_session s) (InSuback p) out (abs_session s')"
proof (cases "find_pos (\<lambda>q. q = p) (subs s)")
  case None
  then have "p \<notin> set (subs s)" by auto
  then show ?thesis
    using None inv st_suback [of "session_caps s" "abs_session s" p]
    by (simp add: exec_op_def get_sub_handle_def del: find_pos_None_iff)
next
  case (Some i)
  have "distinct (subs s)" using inv by (simp add: session_inv_def)
  from swap_remove_member [OF sr_ok this Some] obtain ys where
    ys: "swap_remove sr (subs s) i = Some ys" "distinct ys" "set ys = set (subs s) - {p}"
        "length ys \<le> length (subs s)" by blast
  have "p \<in> set (subs s)" using find_pos_SomeD [OF Some] by auto
  moreover have "session_inv (s\<lparr>subs := ys\<rparr>)" using inv ys by (auto simp: session_inv_def)
  ultimately show ?thesis
    using Some ys st_suback [of "session_caps s" "abs_session s" p]
    by (simp add: exec_op_def get_sub_handle_def sub_remove_def abs_session_def session_caps_def)
qed

lemma unsuback_simulates:
  assumes inv: "session_inv s"
  shows "\<exists>out s'. exec_op sr s (InUnsuback p) = Some (out, s') \<and> session_inv s'
      \<and> session_caps s' = session_caps s
      \<and> spec_step (session_caps s) (abs_session s) (InUnsuback p) out (abs_session s')"
proof (cases "find_pos (\<lambda>q. q = p) (unsubs s)")
  case None
  then have "p \<notin> set (unsubs s)" by auto
  then show ?thesis
    using None inv st_unsuback [of "session_caps s" "abs_session s" p]
    by (simp add: exec_op_def get_unsub_handle_def del: find_pos_None_iff)
next
  case (Some i)
  have "distinct (unsubs s)" using inv by (simp add: session_inv_def)
  from swap_remove_member [OF sr_ok this Some] obtain ys where
    ys: "swap_remove sr (unsubs s) i = Some ys" "distinct ys" "set ys = set (unsubs s) - {p}"
        "length ys \<le> length (unsubs s)" by blast
  have "p \<in> set (unsubs s)" using find_pos_SomeD [OF Some] by auto
  moreover have "session_inv (s\<lparr>unsubs := ys\<rparr>)" using inv ys by (auto simp: session_inv_def)
  ultimately show ?thesis
    using Some ys st_unsuback [of "session_caps s" "abs_session s" p]
    by (simp add: exec_op_def get_unsub_handle_def unsub_remove_def abs_session_def session_caps_def)
qed

end

lemma map_of_map_states: "map_of (map (\<lambda>(p, st). (p, f st)) xs) = map_option f \<circ> map_of xs"
  by (induction xs) auto

lemma keys_map_states: "keys (map (\<lambda>(p, st). (p, f st)) xs) = keys xs"
  by (induction xs) auto

lemma reconnect_inv: "session_inv s \<Longrightarrow> session_inv (session_reconnect s)"
  unfolding session_inv_def session_reconnect_def by (auto simp: keys_map_states simp del: map_map)

lemma reconnect_abs:
  "abs_session (session_reconnect s) =
     \<lparr>sp_subs = {}, sp_unsubs = {}, sp_peer = map_option peer_reconnected \<circ> peer_entry s,
      sp_local = map_option local_reconnected \<circ> local_entry s\<rparr>"
  by (simp add: abs_session_def session_reconnect_def map_of_map_states)

lemma peer_step_intro:
  assumes "\<exists>r s'. f = Some (r, s') \<and> (\<exists>eo. g = (r, eo) \<and> peer_update s p eo s')"
    and "\<And>r eo. g = (r, eo) \<Longrightarrow> spec_step (session_caps s) (abs_session s) op (con r)
           ((abs_session s)\<lparr>sp_peer := (sp_peer (abs_session s))(p := eo)\<rparr>)"
  shows "\<exists>out s'. map_option (apfst con) f = Some (out, s') \<and> session_inv s'
      \<and> session_caps s' = session_caps s
      \<and> spec_step (session_caps s) (abs_session s) op out (abs_session s')"
proof -
  obtain r s' eo where "f = Some (r, s')" "g = (r, eo)" "peer_update s p eo s'"
    using assms(1) by blast
  then show ?thesis using assms(2) [of r eo] peer_update_abs [of s p eo s'] by simp
qed

lemma local_step_intro:
  assumes "\<exists>r s'. f = Some (r, s') \<and> (\<exists>eo. g = (r, eo) \<and> local_update s p eo s')"
    and "\<And>r eo. g = (r, eo) \<Longrightarrow> spec_step (session_caps s) (abs_session s) op (con r)
           ((abs_session s)\<lparr>sp_local := (sp_local (abs_session s))(p := eo)\<rparr>)"
  shows "\<exists>out s'. map_option (apfst con) f = Some (out, s') \<and> session_inv s'
      \<and> session_caps s' = session_caps s
      \<and> spec_step (session_caps s) (abs_session s) op out (abs_session s')"
proof -
  obtain r s' eo where "f = Some (r, s')" "g = (r, eo)" "local_update s p eo s'"
    using assms(1) by blast
  then show ?thesis using assms(2) [of r eo] local_update_abs [of s p eo s'] by simp
qed

context vector_removal
begin

lemma republish_simulates:
  assumes inv: "session_inv s"
  shows "\<exists>out s'. exec_op sr s (OpRepublish iq) = Some (out, s') \<and> session_inv s'
      \<and> session_caps s' = session_caps s
      \<and> spec_step (session_caps s) (abs_session s) (OpRepublish iq) out (abs_session s')"
proof (cases "packet_identifier iq")
  case None
  then have "iq = IdAtMostOnce" by (cases iq) simp_all
  then show ?thesis using inv st_republish0 by (simp add: exec_op_def outbound_republish_def)
next
  case (Some p)
  then show ?thesis
    unfolding exec_op_def sess_op.case
    by (intro local_step_intro [OF outbound_republish_refines [OF inv Some]] st_republish) simp_all
qed

lemma in_publish_simulates:
  assumes inv: "session_inv s" and ok: "op_ok (InPublish iq mode)"
  shows "\<exists>out s'. exec_op sr s (InPublish iq mode) = Some (out, s') \<and> session_inv s'
      \<and> session_caps s' = session_caps s
      \<and> spec_step (session_caps s) (abs_session s) (InPublish iq mode) out (abs_session s')"
proof (cases "packet_identifier iq")
  case None
  then have "iq = IdAtMostOnce" by (cases iq) simp_all
  then show ?thesis using inv st_in_publish0 by (simp add: exec_op_def inbound_publish_def)
next
  case (Some p)
  then have "pid_valid p" using ok by simp
  with Some show ?thesis
    unfolding exec_op_def sess_op.case
    by (intro peer_step_intro [OF inbound_publish_refines [OF inv Some]] st_in_publish)
       (simp_all add: inbound_room_abs [OF inv])
qed

text \<open>The operations that change one publication of the client, and those that change one of the server.\<close>

lemma local_simulates:
  assumes inv: "session_inv s"
    and op: "op \<in> {OpPubrel p, InPuback p rc, InPubrec p rc, InPubcomp p rc}"
  shows "\<exists>out s'. exec_op sr s op = Some (out, s') \<and> session_inv s' \<and> session_caps s' = session_caps s
      \<and> spec_step (session_caps s) (abs_session s) op out (abs_session s')"
  using op unfolding exec_op_def
  by (elim insertE emptyE; simp only: sess_op.case;
      intro local_step_intro [OF outbound_pubrel_refines [OF inv]] local_step_intro [OF inbound_puback_refines [OF inv]]
        local_step_intro [OF inbound_pubrec_refines [OF inv]] local_step_intro [OF inbound_pubcomp_refines [OF inv]]
        st_pubrel st_in_puback st_in_pubrec st_in_pubcomp; simp)

lemma peer_simulates:
  assumes inv: "session_inv s"
    and op: "op \<in> {OpPuback p, OpPubrec p rc, OpPubcomp p, InPubrel p rc}"
  shows "\<exists>out s'. exec_op sr s op = Some (out, s') \<and> session_inv s' \<and> session_caps s' = session_caps s
      \<and> spec_step (session_caps s) (abs_session s) op out (abs_session s')"
  using op unfolding exec_op_def
  by (elim insertE emptyE; simp only: sess_op.case;
      intro peer_step_intro [OF outbound_puback_refines [OF inv]] peer_step_intro [OF outbound_pubrec_refines [OF inv]]
        peer_step_intro [OF outbound_pubcomp_refines [OF inv]] peer_step_intro [OF inbound_pubrel_refines [OF inv]]
        st_puback st_pubrec st_pubcomp st_in_pubrel; simp)

lemma exec_op_simulates:
  assumes inv: "session_inv s" and ok: "op_ok op"
  shows "\<exists>out s'. exec_op sr s op = Some (out, s') \<and> session_inv s'
      \<and> session_caps s' = session_caps s
      \<and> spec_step (session_caps s) (abs_session s) op out (abs_session s')"
proof (cases op)
  case OpClear
  then show ?thesis
    using st_clear [of "session_caps s" "abs_session s"]
    by (simp add: exec_op_def session_clear_def abs_session_def session_caps_def session_inv_def)
next
  case OpReconnect
  then show ?thesis
    using st_reconnect [of "session_caps s" "abs_session s"] reconnect_inv [OF inv]
    by (simp add: exec_op_def reconnect_abs) (simp add: session_reconnect_def session_caps_def)
next
  case OpSub
  then show ?thesis using sub_simulates [OF inv] by (simp add: exec_op_def)
next
  case OpUnsub
  then show ?thesis using unsub_simulates [OF inv] by (simp add: exec_op_def)
next
  case (OpPublish q mode)
  then show ?thesis using publish_simulates [OF inv] ok by (simp add: exec_op_def)
next
  case (OpRepublish iq)
  then show ?thesis using republish_simulates [OF inv] by simp
next
  case (InPublish iq mode)
  then show ?thesis using in_publish_simulates [OF inv] ok by simp
next
  case (InSuback p)
  then show ?thesis using suback_simulates [OF inv] by simp
next
  case (InUnsuback p)
  then show ?thesis using unsuback_simulates [OF inv] by simp
qed (rule local_simulates [OF inv] peer_simulates [OF inv]; blast)+

end

section \<open>Histories\<close>

text \<open>A history pairs each operation with its outcome, oldest first.\<close>

inductive sess_run :: "remover \<Rightarrow> session \<Rightarrow> (sess_op \<times> sess_out) list \<Rightarrow> session \<Rightarrow> bool"
  for sr :: remover where
  run_nil: "sess_run sr s [] s"
| run_cons: "op_ok op \<Longrightarrow> exec_op sr s op = Some (out, s') \<Longrightarrow> sess_run sr s' tr s''
    \<Longrightarrow> sess_run sr s ((op, out) # tr) s''"

inductive_cases sess_run_NilE: "sess_run sr s [] s'"
inductive_cases sess_run_ConsE: "sess_run sr s (e # tr) s'"

text \<open>A history as a function of the operations, for evaluation on concrete inputs.\<close>

fun exec_ops :: "remover \<Rightarrow> session \<Rightarrow> sess_op list \<Rightarrow> (sess_op \<times> sess_out) list \<times> session" where
  "exec_ops sr s [] = ([], s)"
| "exec_ops sr s (op # ops) = (case exec_op sr s op of
      None \<Rightarrow> ([], s)
    | Some (out, s') \<Rightarrow> (let (tr, s'') = exec_ops sr s' ops in ((op, out) # tr, s'')))"

lemma sess_run_exec_ops:
  "\<forall>op \<in> set ops. op_ok op \<Longrightarrow> exec_ops sr s ops = (tr, s') \<Longrightarrow> sess_run sr s tr s'"
  by (induction ops arbitrary: s tr s')
     (auto intro: sess_run.intros split: option.splits prod.splits)

lemma sess_run_eval:
  "\<forall>op \<in> set ops. op_ok op \<Longrightarrow> fst (exec_ops sr s ops) = tr
   \<Longrightarrow> sess_run sr s tr (snd (exec_ops sr s ops))"
  using sess_run_exec_ops [of ops sr s tr "snd (exec_ops sr s ops)"] by auto

lemma session_default_inv: "session_inv (session_default m n k)"
  by (simp add: session_inv_def session_default_def)

lemmas session_eval [session_simps] = exec_op_def session_default_def allocate_def
  get_inbound_handle_def get_outbound_handle_def get_sub_handle_def get_unsub_handle_def
  get_free_handle_def pid_unused_def pid_ONE_def pid_next_def free_pid_from.simps
  available_inbound_publish_capacity_def active_inbound_publishes_def schedule_inbound_def
  available_outbound_publish_capacity_def active_outbound_publishes_def schedule_outbound_def
  outbound_sub_def outbound_unsub_def outbound_publish_def sub_remove_def unsub_remove_def
  session_clear_def session_reconnect_def
  inbound_set_def inbound_remove_def outbound_set_def outbound_remove_def
  swap_remove_def last_takes_place_def
  ih_outbound_puback_def ih_outbound_pubrec_def ih_inbound_pubrel_def ih_outbound_pubcomp_def
  oh_inbound_puback_def oh_inbound_pubrec_def oh_outbound_pubrel_def oh_inbound_pubcomp_def
  inbound_publish_def outbound_puback_def outbound_pubrec_def inbound_pubrel_def outbound_pubcomp_def
  outbound_republish_def inbound_puback_def inbound_pubrec_def outbound_pubrel_def inbound_pubcomp_def

text \<open>
  The shape of every guarantee below: after an event \<open>start\<close>, an event \<open>bad\<close> occurs only when an
  event \<open>stop\<close> lies in between. It suffices that \<open>\<Phi>\<close> holds after \<open>start\<close>, survives every step of
  the specification that is no \<open>stop\<close>, and excludes \<open>bad\<close>.
\<close>

type_synonym sess_ev = "sess_op \<times> sess_out"

locale until =
  fixes start stop bad :: "sess_ev \<Rightarrow> bool" and \<Phi> :: "spec_state \<Rightarrow> bool"
  assumes begins: "spec_step c a op out a' \<Longrightarrow> start (op, out) \<Longrightarrow> \<Phi> a'"
    and keeps: "spec_step c a op out a' \<Longrightarrow> \<Phi> a \<Longrightarrow> stop (op, out) \<or> \<Phi> a'"
    and excludes: "spec_step c a op out a' \<Longrightarrow> \<Phi> a \<Longrightarrow> \<not> bad (op, out)"

locale session_until = vector_removal sr + until start stop bad \<Phi>
  for sr start stop bad \<Phi>
begin

lemma run_excludes:
  "sess_run sr s tr s' \<Longrightarrow> session_inv s \<Longrightarrow> \<Phi> (abs_session s) \<Longrightarrow> tr = t2 @ e # t3 \<Longrightarrow> bad e
   \<Longrightarrow> \<exists>x \<in> set t2. stop x"
proof (induction s tr s' arbitrary: t2 rule: sess_run.induct)
  case (run_cons op s out s' tr s'')
  obtain st: "spec_step (session_caps s) (abs_session s) op out (abs_session s')"
    and inv: "session_inv s'"
    using exec_op_simulates [OF run_cons.prems(1) run_cons.hyps(1)] run_cons.hyps(2) by auto
  show ?case
  proof (cases t2)
    case Nil
    then show ?thesis using excludes [OF st] run_cons.prems by simp
  next
    case (Cons x t2')
    then show ?thesis
      using keeps [OF st run_cons.prems(2)] run_cons.IH [OF inv] run_cons.prems by auto
  qed
qed simp

lemma run_until:
  "sess_run sr s tr s' \<Longrightarrow> session_inv s \<Longrightarrow> tr = t1 @ e1 # t2 @ e2 # t3 \<Longrightarrow> start e1 \<Longrightarrow> bad e2
   \<Longrightarrow> \<exists>x \<in> set t2. stop x"
proof (induction s tr s' arbitrary: t1 rule: sess_run.induct)
  case (run_cons op s out s' tr s'')
  obtain st: "spec_step (session_caps s) (abs_session s) op out (abs_session s')"
    and inv: "session_inv s'"
    using exec_op_simulates [OF run_cons.prems(1) run_cons.hyps(1)] run_cons.hyps(2) by auto
  show ?case
  proof (cases t1)
    case Nil
    then show ?thesis
      using begins [OF st] run_excludes [OF run_cons.hyps(3) inv] run_cons.prems by simp
  next
    case (Cons x t1')
    then show ?thesis using run_cons.IH [OF inv] run_cons.prems by auto
  qed
qed simp

end

text \<open>The documented \<open>swap_remove\<close> satisfies the contract of the vectors.\<close>

interpretation std_vector: vector_removal last_takes_place
  by unfold_locales (rule last_takes_place_ok)

lemma history_until:
  assumes "swap_remove_ok sr" and "until start stop bad \<Phi>" and "session_inv s"
    and "sess_run sr s (t1 @ e1 # t2 @ e2 # t3) s'" and "start e1" and "bad e2"
  shows "\<exists>x \<in> set t2. stop x"
  using session_until.run_until [OF session_until.intro [OF vector_removal.intro] assms(4,3) refl]
    assms(1,2,5,6) by blast

lemma exec_op_ok:
  assumes "swap_remove_ok sr" and "session_inv s" and "op_ok op"
  shows "\<exists>out s'. exec_op sr s op = Some (out, s') \<and> session_inv s'
      \<and> session_caps s' = session_caps s
      \<and> spec_step (session_caps s) (abs_session s) op out (abs_session s')"
  using vector_removal.exec_op_simulates [OF vector_removal.intro] assms by blast

end
