(* ===== verification/Mqtt_Delivery.thy ===== *)
theory Mqtt_Delivery
  imports Mqtt_Session_Runs
begin

text \<open>
  The delivery guarantees of the session over arbitrary histories: exactly once delivery of
  incoming messages, one release per message, no reuse of a packet identifier that is in flight, no
  retransmission of an outgoing PUBLISH after its PUBREC, and at most one retransmission per
  connection. Each is an interpretation of the locale \<open>until\<close> on the specification of
  \<open>Mqtt_Session_Runs\<close>, carried over to the code by the simulation.
\<close>

section \<open>Exactly once delivery\<close>

text \<open>
  Delivery of a Quality of Service 2 message to the user, and the ways in which the handshake of an
  identifier ends: PUBREL with automatic acknowledgement, an aborting PUBREL, the user's PUBCOMP,
  the user's rejecting PUBREC, or a clean session.
\<close>

definition delivers2 :: "pid \<Rightarrow> sess_ev \<Rightarrow> bool" where
  "delivers2 p e \<longleftrightarrow> (\<exists>mode resp. e = (InPublish (IdExactlyOnce p) mode, OutPeer (resp, SmPublish)))"

fun ends_inbound :: "pid \<Rightarrow> sess_ev \<Rightarrow> bool" where
  "ends_inbound p (OpClear, _) = True"
| "ends_inbound p (InPubrel q rc, OutPeer (Complete rc', _)) = (q = p \<and> rc' = RcSuccess)"
| "ends_inbound p (OpPubcomp q, OutUser (Inr ())) = (q = p)"
| "ends_inbound p (OpPubrec q rc, OutUser (Inr ())) = (q = p \<and> is_erroneous rc)"
| "ends_inbound p _ = False"

definition peer_qos2 :: "pid \<Rightarrow> spec_state \<Rightarrow> bool" where
  "peer_qos2 p a \<longleftrightarrow> (\<exists>st. sp_peer a p = Some st \<and> qos_of_peer st = ExactlyOnce)"

lemmas entry_transitions =
  user_request_def puback_due_def pubrec_due_def pubcomp_due_def republish_due_def pubrel_due_def
  peer_publish_def peer_pubrel_def local_puback_def local_pubrec_def local_pubcomp_def

lemmas entry_splits =
  if_splits option.splits peer_publish_state.splits local_publish_state.splits ack_mode.splits
  qos.splits

lemma peer_reconnected_qos [simp]: "qos_of_peer (peer_reconnected st) = qos_of_peer st"
  by (cases st) simp_all

lemma local_reconnected_qos [simp]: "qos_of_local (local_reconnected st) = qos_of_local st"
  by (cases st) simp_all

interpretation exactly_once: until "delivers2 p" "ends_inbound p" "delivers2 p" "peer_qos2 p" for p
proof
  fix c a op out a'
  assume "spec_step c a op out a'"
  then show "peer_qos2 p a'" if "delivers2 p (op, out)"
    using that
    by cases (auto simp: delivers2_def peer_qos2_def peer_publish_def split: entry_splits)
next
  fix c a op out a'
  assume "spec_step c a op out a'"
  then show "\<not> delivers2 p (op, out)" if "peer_qos2 p a"
    using that
    by cases (auto simp: delivers2_def peer_qos2_def peer_publish_def split: entry_splits)
next
  fix c a op out a'
  assume "spec_step c a op out a'"
  then show "ends_inbound p (op, out) \<or> peer_qos2 p a'" if "peer_qos2 p a"
    using that
    by cases (auto simp: peer_qos2_def entry_transitions ack_mode_of_peer_def split: entry_splits)
qed

section \<open>One release per connection\<close>

definition releases :: "pid \<Rightarrow> sess_ev \<Rightarrow> bool" where
  "releases p e \<longleftrightarrow> (\<exists>rc resp mode. e = (InPubrel p rc, OutPeer (resp, SmReleased mode)))"

fun release_over :: "pid \<Rightarrow> sess_ev \<Rightarrow> bool" where
  "release_over p (OpClear, _) = True"
| "release_over p (OpReconnect, _) = True"
| "release_over p (InPubrel q rc, OutPeer (_, SmAborted)) = (q = p)"
| "release_over p (OpPubcomp q, OutUser (Inr ())) = (q = p)"
| "release_over p _ = False"

definition manual_releases :: "pid \<Rightarrow> sess_ev \<Rightarrow> bool" where
  "manual_releases p e \<longleftrightarrow> (\<exists>rc resp. e = (InPubrel p rc, OutPeer (resp, SmReleased Manual)))"

interpretation release_once: until "manual_releases p" "release_over p" "releases p"
  "\<lambda>a. sp_peer a p = Some DueComp" for p
proof
  fix c a op out a'
  assume "spec_step c a op out a'"
  then show "sp_peer a' p = Some DueComp" if "manual_releases p (op, out)"
    using that
    by cases (auto simp: manual_releases_def peer_pubrel_def split: entry_splits)
next
  fix c a op out a'
  assume "spec_step c a op out a'"
  then show "\<not> releases p (op, out)" if "sp_peer a p = Some DueComp"
    using that
    by cases (auto simp: releases_def peer_pubrel_def split: entry_splits)
next
  fix c a op out a'
  assume "spec_step c a op out a'"
  then show "release_over p (op, out) \<or> sp_peer a' p = Some DueComp" if "sp_peer a p = Some DueComp"
    using that by cases (auto simp: entry_transitions split: entry_splits)
qed

section \<open>Packet identifiers in flight\<close>

definition allocates :: "pid \<Rightarrow> sess_ev \<Rightarrow> bool" where
  "allocates p e \<longleftrightarrow> snd e = OutPid p"

definition publishes :: "pid \<Rightarrow> sess_ev \<Rightarrow> bool" where
  "publishes p e \<longleftrightarrow> (\<exists>q mode. e = (OpPublish q mode, OutPid p))"

definition subscribes :: "pid \<Rightarrow> sess_ev \<Rightarrow> bool" where
  "subscribes p e \<longleftrightarrow> e = (OpSub, OutPid p)"

definition unsubscribes :: "pid \<Rightarrow> sess_ev \<Rightarrow> bool" where
  "unsubscribes p e \<longleftrightarrow> e = (OpUnsub, OutPid p)"

text \<open>The ends of an outgoing publication.\<close>

fun ends_outbound :: "pid \<Rightarrow> sess_ev \<Rightarrow> bool" where
  "ends_outbound p (OpClear, _) = True"
| "ends_outbound p (InPuback q rc, OutPeer (_, ev)) = (q = p \<and> ev \<in> {SmAcknowledged, SmRejected})"
| "ends_outbound p (InPubrec q rc, OutPeer (_, ev)) = (q = p \<and> ev = SmRejected)"
| "ends_outbound p (InPubcomp q rc, OutPeer (_, ev)) = (q = p \<and> ev \<in> {SmCompleted, SmRejected})"
| "ends_outbound p _ = False"

definition ends_sub :: "pid \<Rightarrow> sess_ev \<Rightarrow> bool" where
  "ends_sub p e \<longleftrightarrow> fst e \<in> {OpClear, OpReconnect, InSuback p}"

definition ends_unsub :: "pid \<Rightarrow> sess_ev \<Rightarrow> bool" where
  "ends_unsub p e \<longleftrightarrow> fst e \<in> {OpClear, OpReconnect, InUnsuback p}"

lemma local_step:
  assumes "spec_step c a op out a'" and "sp_local a p = Some st"
  shows "ends_outbound p (op, out) \<or> (\<exists>st'. sp_local a' p = Some st' \<and> qos_of_local st' = qos_of_local st)"
  using assms
  by cases (auto simp: entry_transitions in_use_def split: entry_splits)

interpretation publish_pid: until "publishes p" "ends_outbound p" "allocates p"
  "\<lambda>a. p \<in> dom (sp_local a)" for p
proof
  fix c a op out a'
  assume st: "spec_step c a op out a'"
  then show "p \<in> dom (sp_local a')" if "publishes p (op, out)"
    using that by cases (auto simp: publishes_def)
  show "\<not> allocates p (op, out)" if "p \<in> dom (sp_local a)"
    using st that by cases (auto simp: allocates_def in_use_def)
  show "ends_outbound p (op, out) \<or> p \<in> dom (sp_local a')" if "p \<in> dom (sp_local a)"
    using local_step [OF st] that by blast
qed

interpretation subscribe_pid: until "subscribes p" "ends_sub p" "allocates p"
  "\<lambda>a. p \<in> sp_subs a" for p
proof
  fix c a op out a'
  assume st: "spec_step c a op out a'"
  then show "p \<in> sp_subs a'" if "subscribes p (op, out)"
    using that by cases (auto simp: subscribes_def)
  show "\<not> allocates p (op, out)" if "p \<in> sp_subs a"
    using st that by cases (auto simp: allocates_def in_use_def)
  show "ends_sub p (op, out) \<or> p \<in> sp_subs a'" if "p \<in> sp_subs a"
    using st that by cases (auto simp: ends_sub_def)
qed

interpretation unsubscribe_pid: until "unsubscribes p" "ends_unsub p" "allocates p"
  "\<lambda>a. p \<in> sp_unsubs a" for p
proof
  fix c a op out a'
  assume st: "spec_step c a op out a'"
  then show "p \<in> sp_unsubs a'" if "unsubscribes p (op, out)"
    using that by cases (auto simp: unsubscribes_def)
  show "\<not> allocates p (op, out)" if "p \<in> sp_unsubs a"
    using st that by cases (auto simp: allocates_def in_use_def)
  show "ends_unsub p (op, out) \<or> p \<in> sp_unsubs a'" if "p \<in> sp_unsubs a"
    using st that by cases (auto simp: ends_unsub_def)
qed

section \<open>Retransmission\<close>

definition retransmits :: "pid \<Rightarrow> sess_ev \<Rightarrow> bool" where
  "retransmits p e \<longleftrightarrow>
     (\<exists>iq. e = (OpRepublish iq, OutUser (Inr ())) \<and> packet_identifier iq = Some p)"

definition receives :: "pid \<Rightarrow> sess_ev \<Rightarrow> bool" where
  "receives p e \<longleftrightarrow> (\<exists>rc resp mode. e = (InPubrec p rc, OutPeer (resp, SmReceived mode)))"

fun past_pubrec :: "local_publish_state \<Rightarrow> bool" where
  "past_pubrec (DueRel _) = True"
| "past_pubrec (AwaitComp _) = True"
| "past_pubrec _ = False"

lemma past_pubrec_reconnected [simp]: "past_pubrec (local_reconnected st) = past_pubrec st"
  by (cases st) simp_all

interpretation no_resend: until "receives p" "ends_outbound p" "retransmits p"
  "\<lambda>a. \<exists>st. sp_local a p = Some st \<and> past_pubrec st" for p
proof
  fix c a op out a'
  assume st: "spec_step c a op out a'"
  then show "\<exists>st. sp_local a' p = Some st \<and> past_pubrec st" if "receives p (op, out)"
    using that by cases (auto simp: receives_def local_pubrec_def split: entry_splits)
  show "\<not> retransmits p (op, out)" if "\<exists>st. sp_local a p = Some st \<and> past_pubrec st"
    using st that
    by cases (auto simp: retransmits_def user_request_def republish_due_def split: entry_splits)
  show "ends_outbound p (op, out) \<or> (\<exists>st. sp_local a' p = Some st \<and> past_pubrec st)"
    if "\<exists>st. sp_local a p = Some st \<and> past_pubrec st"
    using st that by cases (auto simp: entry_transitions in_use_def split: entry_splits)
qed

definition sends_publish :: "pid \<Rightarrow> sess_ev \<Rightarrow> bool" where
  "sends_publish p e \<longleftrightarrow> publishes p e \<or> retransmits p e"

definition ends_attempt :: "pid \<Rightarrow> sess_ev \<Rightarrow> bool" where
  "ends_attempt p e \<longleftrightarrow> ends_outbound p e \<or> fst e = OpReconnect"

fun publish_sent :: "local_publish_state \<Rightarrow> bool" where
  "publish_sent DuePublishAtLeastOnce = False"
| "publish_sent (DuePublishExactlyOnce _) = False"
| "publish_sent _ = True"

interpretation resend_once: until "sends_publish p" "ends_attempt p" "sends_publish p"
  "\<lambda>a. \<exists>st. sp_local a p = Some st \<and> publish_sent st" for p
proof
  fix c a op out a'
  assume st: "spec_step c a op out a'"
  then show "\<exists>st. sp_local a' p = Some st \<and> publish_sent st" if "sends_publish p (op, out)"
    using that
    by cases (auto simp: sends_publish_def publishes_def retransmits_def user_request_def
        republish_due_def fresh_local_def split: entry_splits)
  show "\<not> sends_publish p (op, out)" if "\<exists>st. sp_local a p = Some st \<and> publish_sent st"
    using st that
    by cases (auto simp: sends_publish_def publishes_def retransmits_def user_request_def
        republish_due_def in_use_def split: entry_splits)
  show "ends_attempt p (op, out) \<or> (\<exists>st. sp_local a' p = Some st \<and> publish_sent st)"
    if "\<exists>st. sp_local a p = Some st \<and> publish_sent st"
    using st that
    by cases (auto simp: entry_transitions in_use_def ends_attempt_def split: entry_splits)
qed

section \<open>The guarantees for the code\<close>

text \<open>
  The interface of the guarantees on the concrete vectors: every interpretation of \<open>until\<close> gives
  one of \<open>session_until\<close>.
\<close>

sublocale vector_removal \<subseteq> exactly_once: session_until sr "delivers2 p" "ends_inbound p"
  "delivers2 p" "peer_qos2 p" for p
  by unfold_locales

sublocale vector_removal \<subseteq> no_resend: session_until sr "receives p" "ends_outbound p"
  "retransmits p" "\<lambda>a. \<exists>st. sp_local a p = Some st \<and> past_pubrec st" for p
  by unfold_locales

text \<open>C1: No operation of the session panics on a well-formed session: every packet identifier,
  reason code and request gives an outcome, the session stays well-formed (identifiers distinct and
  not zero, vectors within their capacities), and outcome and new state are a transition of the
  abstract specification, in which the session is three finite sets and maps and each operation
  changes the entry it names only. This holds whatever order \<open>swap_remove\<close> leaves.\<close>

theorem session_refines_spec:
  assumes "swap_remove_ok sr" and "session_inv s" and "op_ok op"
  shows "\<exists>out s'. exec_op sr s op = Some (out, s') \<and> session_inv s'
      \<and> session_caps s' = session_caps s
      \<and> spec_step (session_caps s) (abs_session s) op out (abs_session s')"
  using exec_op_ok [OF assms] .

theorem session_refines_spec_witness:
  "\<exists>out s'. exec_op last_takes_place (session_default 1 2 2) (InPublish (IdExactlyOnce 5) Manual)
       = Some (out, s') \<and> session_inv s'
     \<and> session_caps s' = session_caps (session_default 1 2 2)
     \<and> spec_step (session_caps (session_default 1 2 2)) (abs_session (session_default 1 2 2))
         (InPublish (IdExactlyOnce 5) Manual) out (abs_session s')"
  by (rule session_refines_spec [OF last_takes_place_ok session_default_inv])
     (simp add: pid_valid_def)

text \<open>C10: Exactly once delivery. In every history of a session, an application message of Quality of
  Service 2 with identifier \<open>p\<close> is handed to the user twice only if the handshake of \<open>p\<close> was ended
  in between, by an acknowledged PUBREL, the user's PUBCOMP or rejecting PUBREC, or a clean session;
  retransmissions by the server and reconnections in between do not deliver it again.\<close>

theorem exactly_once_delivery:
  assumes "swap_remove_ok sr" and "session_inv s"
    and "sess_run sr s (t1 @ e1 # t2 @ e2 # t3) s'" and "delivers2 p e1" and "delivers2 p e2"
  shows "\<exists>x \<in> set t2. ends_inbound p x"
  using history_until [OF assms(1) exactly_once.until_axioms assms(2-5)] .

theorem exactly_once_delivery_witness:
  "\<exists>x \<in> set [(InPublish (IdExactlyOnce 5) Automatic, OutPeer (Receive RcSuccess, SmDuplicate Automatic)),
             (InPubrel 5 RcSuccess, OutPeer (Complete RcSuccess, SmReleased Automatic))].
     ends_inbound 5 x"
proof (rule exactly_once_delivery [OF last_takes_place_ok session_default_inv])
  show "sess_run last_takes_place (session_default 1 2 2)
      ([] @ (InPublish (IdExactlyOnce 5) Automatic, OutPeer (Receive RcSuccess, SmPublish))
        # [(InPublish (IdExactlyOnce 5) Automatic, OutPeer (Receive RcSuccess, SmDuplicate Automatic)),
           (InPubrel 5 RcSuccess, OutPeer (Complete RcSuccess, SmReleased Automatic))]
        @ (InPublish (IdExactlyOnce 5) Automatic, OutPeer (Receive RcSuccess, SmPublish)) # [])
      (snd (exec_ops last_takes_place (session_default 1 2 2)
        [InPublish (IdExactlyOnce 5) Automatic, InPublish (IdExactlyOnce 5) Automatic,
         InPubrel 5 RcSuccess, InPublish (IdExactlyOnce 5) Automatic]))"
    by (rule sess_run_eval) (simp_all add: session_simps pid_valid_def)
qed (simp_all add: delivers2_def)

text \<open>C11: A message that the user acknowledges by hand is released to the user at most once per
  connection: a second \<open>Released\<close> for the same identifier requires the user's PUBCOMP, an aborting
  PUBREL, a reconnection or a clean session in between.\<close>

theorem released_once:
  assumes "swap_remove_ok sr" and "session_inv s"
    and "sess_run sr s (t1 @ e1 # t2 @ e2 # t3) s'" and "manual_releases p e1" and "releases p e2"
  shows "\<exists>x \<in> set t2. release_over p x"
  using history_until [OF assms(1) release_once.until_axioms assms(2-5)] .

theorem released_once_witness:
  "\<exists>x \<in> set [(OpReconnect, OutDone)]. release_over 5 x"
proof (rule released_once [OF last_takes_place_ok session_default_inv])
  show "sess_run last_takes_place (session_default 1 2 2)
      ([(InPublish (IdExactlyOnce 5) Manual, OutPeer (RNone, SmPublish)),
        (OpPubrec 5 RcSuccess, OutUser (Inr ()))]
        @ (InPubrel 5 RcSuccess, OutPeer (RNone, SmReleased Manual))
        # [(OpReconnect, OutDone)]
        @ (InPubrel 5 RcSuccess, OutPeer (RNone, SmReleased Manual)) # [])
      (snd (exec_ops last_takes_place (session_default 1 2 2)
        [InPublish (IdExactlyOnce 5) Manual, OpPubrec 5 RcSuccess, InPubrel 5 RcSuccess,
         OpReconnect, InPubrel 5 RcSuccess]))"
    by (rule sess_run_eval) (simp_all add: session_simps pid_valid_def)
qed (simp_all add: manual_releases_def releases_def)

text \<open>The packet identifier of an outgoing publication is not given to another packet before the
  publication is acknowledged, completed or rejected, or the session is cleared; reconnections do
  not free it [MQTT-2.2.1-3].\<close>

theorem publish_identifier_not_reused:
  assumes "swap_remove_ok sr" and "session_inv s"
    and "sess_run sr s (t1 @ e1 # t2 @ e2 # t3) s'" and "publishes p e1" and "allocates p e2"
  shows "\<exists>x \<in> set t2. ends_outbound p x"
  using history_until [OF assms(1) publish_pid.until_axioms assms(2-5)] .

theorem publish_identifier_not_reused_witness:
  "\<exists>x \<in> set [(OpReconnect, OutDone), (InPuback 1 RcSuccess, OutPeer (RNone, SmAcknowledged))].
     ends_outbound 1 x"
proof (rule publish_identifier_not_reused [OF last_takes_place_ok session_default_inv])
  show "sess_run last_takes_place (session_default 1 2 2)
      ([] @ (OpPublish AtLeastOnce Automatic, OutPid 1)
        # [(OpReconnect, OutDone), (InPuback 1 RcSuccess, OutPeer (RNone, SmAcknowledged))]
        @ (OpSub, OutPid 1) # [])
      (snd (exec_ops last_takes_place (session_default 1 2 2)
        [OpPublish AtLeastOnce Automatic, OpReconnect, InPuback 1 RcSuccess, OpSub]))"
    by (rule sess_run_eval) (simp_all add: session_simps)
qed (simp_all add: publishes_def allocates_def)

text \<open>The packet identifier of a SUBSCRIBE is not given to another packet before its SUBACK
  arrived or the connection was re-established.\<close>

theorem subscribe_identifier_not_reused:
  assumes "swap_remove_ok sr" and "session_inv s"
    and "sess_run sr s (t1 @ e1 # t2 @ e2 # t3) s'" and "subscribes p e1" and "allocates p e2"
  shows "\<exists>x \<in> set t2. ends_sub p x"
  using history_until [OF assms(1) subscribe_pid.until_axioms assms(2-5)] .

theorem subscribe_identifier_not_reused_witness:
  "\<exists>x \<in> set [(OpUnsub, OutPid 2), (InSuback 1, OutDone)]. ends_sub 1 x"
proof (rule subscribe_identifier_not_reused [OF last_takes_place_ok session_default_inv])
  show "sess_run last_takes_place (session_default 1 2 2)
      ([] @ (OpSub, OutPid 1) # [(OpUnsub, OutPid 2), (InSuback 1, OutDone)]
        @ (OpPublish ExactlyOnce Manual, OutPid 1) # [])
      (snd (exec_ops last_takes_place (session_default 1 2 2)
        [OpSub, OpUnsub, InSuback 1, OpPublish ExactlyOnce Manual]))"
    by (rule sess_run_eval) (simp_all add: session_simps)
qed (simp_all add: subscribes_def allocates_def)

text \<open>C12: Once the PUBREC of an outgoing publication was accepted, no retransmission of its PUBLISH is
  granted before the publication has ended, not even after reconnections [MQTT-4.3.3-6].\<close>

theorem no_republish_after_pubrec:
  assumes "swap_remove_ok sr" and "session_inv s"
    and "sess_run sr s (t1 @ e1 # t2 @ e2 # t3) s'" and "receives p e1" and "retransmits p e2"
  shows "\<exists>x \<in> set t2. ends_outbound p x"
  using history_until [OF assms(1) no_resend.until_axioms assms(2-5)] .

theorem no_republish_after_pubrec_witness:
  "\<exists>x \<in> set [(OpPubrel 1, OutUser (Inr ())), (OpReconnect, OutDone),
             (InPubcomp 1 RcSuccess, OutPeer (RNone, SmCompleted)),
             (OpPublish AtLeastOnce Automatic, OutPid 1), (OpReconnect, OutDone)]. ends_outbound 1 x"
proof (rule no_republish_after_pubrec [OF last_takes_place_ok session_default_inv])
  show "sess_run last_takes_place (session_default 1 2 2)
      ([(OpPublish ExactlyOnce Manual, OutPid 1)]
        @ (InPubrec 1 RcSuccess, OutPeer (RNone, SmReceived Manual))
        # [(OpPubrel 1, OutUser (Inr ())), (OpReconnect, OutDone),
           (InPubcomp 1 RcSuccess, OutPeer (RNone, SmCompleted)),
           (OpPublish AtLeastOnce Automatic, OutPid 1), (OpReconnect, OutDone)]
        @ (OpRepublish (IdAtLeastOnce 1), OutUser (Inr ())) # [])
      (snd (exec_ops last_takes_place (session_default 1 2 2)
        [OpPublish ExactlyOnce Manual, InPubrec 1 RcSuccess, OpPubrel 1, OpReconnect,
         InPubcomp 1 RcSuccess, OpPublish AtLeastOnce Automatic, OpReconnect,
         OpRepublish (IdAtLeastOnce 1)]))"
    by (rule sess_run_eval) (simp_all add: session_simps)
qed (simp_all add: receives_def retransmits_def)

text \<open>C13: A PUBLISH with identifier \<open>p\<close> is sent again, by retransmission or as a new publication, only
  after a reconnection or after the publication has ended [MQTT-4.4.0-1].\<close>

theorem resend_needs_reconnect:
  assumes "swap_remove_ok sr" and "session_inv s"
    and "sess_run sr s (t1 @ e1 # t2 @ e2 # t3) s'" and "sends_publish p e1"
    and "sends_publish p e2"
  shows "\<exists>x \<in> set t2. ends_attempt p x"
  using history_until [OF assms(1) resend_once.until_axioms assms(2-5)] .

theorem resend_needs_reconnect_witness:
  "\<exists>x \<in> set [(OpRepublish (IdExactlyOnce 1), OutUser (Inl SmHandshakeStateMismatched)),
             (OpReconnect, OutDone)]. ends_attempt 1 x"
proof (rule resend_needs_reconnect [OF last_takes_place_ok session_default_inv])
  show "sess_run last_takes_place (session_default 1 2 2)
      ([] @ (OpPublish ExactlyOnce Manual, OutPid 1)
        # [(OpRepublish (IdExactlyOnce 1), OutUser (Inl SmHandshakeStateMismatched)),
           (OpReconnect, OutDone)]
        @ (OpRepublish (IdExactlyOnce 1), OutUser (Inr ())) # [])
      (snd (exec_ops last_takes_place (session_default 1 2 2)
        [OpPublish ExactlyOnce Manual, OpRepublish (IdExactlyOnce 1), OpReconnect,
         OpRepublish (IdExactlyOnce 1)]))"
    by (rule sess_run_eval) (simp_all add: session_simps)
qed (simp_all add: sends_publish_def publishes_def retransmits_def)

text \<open>C14: \<open>get_free_handle\<close> finds the least identifier that no SUBSCRIBE, UNSUBSCRIBE or outgoing
  PUBLISH uses, and reports that there is none exactly when all 65535 are in use; the search always
  ends.\<close>

theorem free_identifier_least:
  "get_free_handle s = None \<and> (\<forall>p. pid_valid p \<longrightarrow> p \<in> in_use (abs_session s))
   \<or> (\<exists>p. get_free_handle s = Some \<lparr>fh_session = s, fh_packet_identifier = p\<rparr>
        \<and> pid_valid p \<and> p \<notin> in_use (abs_session s)
        \<and> (\<forall>q < p. pid_valid q \<longrightarrow> q \<in> in_use (abs_session s)))"
proof (cases "get_free_handle s")
  case None
  then show ?thesis using get_free_handle_None by blast
next
  case (Some h)
  then have "free_pid_from s pid_ONE = Some (fh_packet_identifier h)"
    by (auto simp: get_free_handle_def)
  from free_pid_from_Some [OF this] get_free_handle_Some [OF Some] Some show ?thesis
    by (intro disjI2 exI [of _ "fh_packet_identifier h"])
       (cases h; simp add: pid_valid_ge_ONE pid_unused_iff)
qed

theorem free_identifier_least_witness:
  "get_free_handle (session_default 1 2 2)
     = Some \<lparr>fh_session = session_default 1 2 2, fh_packet_identifier = 1\<rparr>
   \<and> 1 \<notin> in_use (abs_session (session_default 1 2 2))"
  using free_identifier_least [of "session_default 1 2 2"] by (simp add: session_simps)

end
