(* ===== verification/Mqtt_Topic.thy ===== *)
theory Mqtt_Topic
  imports Mqtt_Types
begin

unbundle bit_operations_syntax

text \<open>
  Binary data, strings and topics: \<open>src/types/binary.rs\<close>, \<open>src/types/string.rs\<close> and
  \<open>src/types/topic.rs\<close>. \<open>Bytes\<close> (owned or borrowed) is the list of its bytes; a string is its UTF-8
  encoding. The syntax checks are index loops in the source; the model recurses over the bytes that
  are left, and the facts below compare it with the declarative definition by topic levels.
\<close>

section \<open>Binary data and strings\<close>

type_synonym mqtt_binary = "u8 list"
type_synonym mqtt_string = "u8 list"

definition MAX_LENGTH :: nat where
  "MAX_LENGTH = 65535"

text \<open>\<open>None\<close> is \<open>Err(TooLargeToEncode)\<close>.\<close>

definition binary_from_bytes :: "u8 list \<Rightarrow> mqtt_binary option" where
  "binary_from_bytes bs = (if length bs \<le> MAX_LENGTH then Some bs else None)"

definition binary_from_slice :: "u8 list \<Rightarrow> mqtt_binary option" where
  "binary_from_slice bs = (if length bs \<le> MAX_LENGTH then Some bs else None)"

text \<open>\<open>None\<close> is the debug assertion.\<close>

definition binary_from_slice_unchecked :: "u8 list \<Rightarrow> mqtt_binary option" where
  "binary_from_slice_unchecked bs = (if length bs \<le> MAX_LENGTH then Some bs else None)"

definition binary_len :: "mqtt_binary \<Rightarrow> u16" where
  "binary_len bs = word_of_nat (length bs)"

text \<open>Well-formed UTF-8 as \<open>core::str::from_utf8\<close> checks it (Unicode, table 3-7).\<close>

definition utf8_cont :: "u8 \<Rightarrow> bool" where
  "utf8_cont b \<longleftrightarrow> 0x80 \<le> b \<and> b \<le> 0xBF"

fun utf8_valid :: "u8 list \<Rightarrow> bool" where
  "utf8_valid [] = True"
| "utf8_valid (b # bs) =
    (if b \<le> 0x7F then utf8_valid bs
     else if 0xC2 \<le> b \<and> b \<le> 0xDF then
       (case bs of b1 # r \<Rightarrow> utf8_cont b1 \<and> utf8_valid r | _ \<Rightarrow> False)
     else if 0xE0 \<le> b \<and> b \<le> 0xEF then
       (case bs of b1 # b2 # r \<Rightarrow>
           (if b = 0xE0 then 0xA0 \<le> b1 \<and> b1 \<le> 0xBF
            else if b = 0xED then 0x80 \<le> b1 \<and> b1 \<le> 0x9F
            else utf8_cont b1) \<and> utf8_cont b2 \<and> utf8_valid r
        | _ \<Rightarrow> False)
     else if 0xF0 \<le> b \<and> b \<le> 0xF4 then
       (case bs of b1 # b2 # b3 # r \<Rightarrow>
           (if b = 0xF0 then 0x90 \<le> b1 \<and> b1 \<le> 0xBF
            else if b = 0xF4 then 0x80 \<le> b1 \<and> b1 \<le> 0x8F
            else utf8_cont b1) \<and> utf8_cont b2 \<and> utf8_cont b3 \<and> utf8_valid r
        | _ \<Rightarrow> False)
     else False)"

datatype mqtt_string_error = Utf8Error | NullCharacter | StringTooLargeToEncode

text \<open>The search loop for a null byte.\<close>

fun contains_null :: "u8 list \<Rightarrow> bool" where
  "contains_null [] = False"
| "contains_null (b # bs) = (if b = 0 then True else contains_null bs)"

definition from_utf8_binary :: "mqtt_binary \<Rightarrow> mqtt_string_error + mqtt_string" where
  "from_utf8_binary b =
     (if contains_null b then Inl NullCharacter
      else if utf8_valid b then Inr b
      else Inl Utf8Error)"

text \<open>\<open>from_str\<close>: the argument is a \<open>&str\<close>, valid UTF-8 by its type.\<close>

definition string_from_str :: "u8 list \<Rightarrow> mqtt_string_error + mqtt_string" where
  "string_from_str s =
     (if contains_null s then Inl NullCharacter
      else if length s \<le> MAX_LENGTH then Inr s
      else Inl StringTooLargeToEncode)"

text \<open>\<open>TryFrom<String>\<close> and \<open>TryFrom<Vec<u8>>\<close> check in another order.\<close>

definition string_try_from_string :: "u8 list \<Rightarrow> mqtt_string_error + mqtt_string" where
  "string_try_from_string s = (case binary_from_bytes s of
      None \<Rightarrow> Inl StringTooLargeToEncode
    | Some b \<Rightarrow> (if \<not> contains_null b then Inr b else Inl NullCharacter))"

definition string_try_from_vec :: "u8 list \<Rightarrow> mqtt_string_error + mqtt_string" where
  "string_try_from_vec v = (if utf8_valid v then string_try_from_string v else Inl Utf8Error)"

record mqtt_string_pair =
  pair_name :: mqtt_string
  pair_value :: mqtt_string

definition string_ok :: "mqtt_string \<Rightarrow> bool" where
  "string_ok s \<longleftrightarrow> length s \<le> MAX_LENGTH \<and> 0 \<notin> set s \<and> utf8_valid s"

section \<open>Topic names\<close>

abbreviation c_plus :: u8 where "c_plus \<equiv> 0x2B"
abbreviation c_hash :: u8 where "c_hash \<equiv> 0x23"
abbreviation c_slash :: u8 where "c_slash \<equiv> 0x2F"

fun topic_name_loop :: "u8 list \<Rightarrow> bool" where
  "topic_name_loop [] = True"
| "topic_name_loop (b # bs) = (if b = c_plus \<or> b = c_hash then False else topic_name_loop bs)"

definition topic_name_is_valid :: "mqtt_string \<Rightarrow> bool" where
  "topic_name_is_valid s = (if s = [] then False else topic_name_loop s)"

type_synonym topic_name = mqtt_string

definition topic_name_new :: "mqtt_string \<Rightarrow> topic_name option" where
  "topic_name_new s = (if topic_name_is_valid s then Some s else None)"

section \<open>Topic filters\<close>

text \<open>The bytes of \<open>$share\<close>.\<close>

definition share_prefix :: "u8 list" where
  "share_prefix = [0x24, 0x73, 0x68, 0x61, 0x72, 0x65]"

text \<open>
  The loop of \<open>TopicFilter::is_valid\<close> over the bytes left; \<open>i == s.len() - 1\<close> and
  \<open>i + 1 == s.len()\<close> say that the current byte is the last one.
\<close>

fun topic_filter_loop :: "u8 list \<Rightarrow> nat \<Rightarrow> bool \<Rightarrow> bool \<Rightarrow> bool" where
  "topic_filter_loop [] level_len level_contains_wildcard checking_share_name = True"
| "topic_filter_loop (b # rest) level_len level_contains_wildcard checking_share_name =
    (if b = c_hash \<and> rest \<noteq> [] then False
     else
       let wildcard = level_contains_wildcard \<or> b = c_hash \<or> b = c_plus in
       if b = c_slash then
         (if checking_share_name \<and> level_len = 0 then False
          else if checking_share_name \<and> wildcard then False
          else if checking_share_name \<and> rest = [] then False
          else topic_filter_loop rest 0 False False)
       else
         (if level_len + 1 > 1 \<and> wildcard then False
          else topic_filter_loop rest (level_len + 1) wildcard checking_share_name))"

definition topic_filter_is_valid :: "mqtt_string \<Rightarrow> bool" where
  "topic_filter_is_valid s =
     (if s = [] then False
      else let is_shared = length s \<ge> 6 \<and> take 6 s = share_prefix in
        if is_shared \<and> length s < 10 then False
        else if is_shared \<and> s ! 6 \<noteq> c_slash then False
        else topic_filter_loop (if is_shared then drop 7 s else s) 0 False is_shared)"

type_synonym topic_filter = mqtt_string

definition topic_filter_new :: "mqtt_string \<Rightarrow> topic_filter option" where
  "topic_filter_new s = (if topic_filter_is_valid s then Some s else None)"

definition filter_is_shared :: "topic_filter \<Rightarrow> bool" where
  "filter_is_shared s \<longleftrightarrow> length s \<ge> 10 \<and> take 6 s = share_prefix"

fun filter_has_wildcard :: "topic_filter \<Rightarrow> bool" where
  "filter_has_wildcard [] = False"
| "filter_has_wildcard (b # bs) = (if b = c_hash \<or> b = c_plus then True else filter_has_wildcard bs)"

section \<open>Subscription filters\<close>

datatype retain_handling = AlwaysSend | SendIfNotSubscribedBefore | NeverSend

record subscription_options =
  so_retain_handling :: retain_handling
  so_retain_as_published :: bool
  so_no_local :: bool
  so_qos :: qos
  so_subscription_identifier :: "var_byte_int option"
  so_user_properties :: "mqtt_string_pair list"

record subscription_filter =
  sf_topic :: topic_filter
  sf_subscription_options :: u8

text \<open>\<open>None\<close> is \<open>Err(NoLocalSharedSubscription)\<close>.\<close>

definition subscription_filter_new ::
    "topic_filter \<Rightarrow> subscription_options \<Rightarrow> subscription_filter option" where
  "subscription_filter_new topic options =
     (if so_no_local options \<and> filter_is_shared topic then None
      else
        let retain_handling_bits = (case so_retain_handling options of
              AlwaysSend \<Rightarrow> 0x00 | SendIfNotSubscribedBefore \<Rightarrow> 0x10 | NeverSend \<Rightarrow> 0x20) :: u8;
            retain_as_published_bit = (if so_retain_as_published options then 0x08 else 0x00);
            no_local_bit = (if so_no_local options then 0x04 else 0x00);
            qos_bits = qos_into_bits (so_qos options) 0
        in Some \<lparr>sf_topic = topic,
             sf_subscription_options =
               retain_handling_bits OR retain_as_published_bit OR no_local_bit OR qos_bits\<rparr>)"

section \<open>Declarative syntax of filters\<close>

text \<open>The levels of a filter: the parts between slashes.\<close>

fun levels :: "u8 list \<Rightarrow> u8 list list" where
  "levels [] = [[]]"
| "levels (b # bs) =
     (if b = c_slash then [] # levels bs
      else (case levels bs of l # ls \<Rightarrow> (b # l) # ls | [] \<Rightarrow> [[b]]))"

definition plain :: "u8 list \<Rightarrow> bool" where
  "plain l \<longleftrightarrow> c_plus \<notin> set l \<and> c_hash \<notin> set l"

text \<open>
  [MQTT-4.7.1-1], [MQTT-4.7.1-2]: a wildcard stands alone in its level, the multi-level wildcard in
  the last one.
\<close>

definition levels_ok :: "u8 list list \<Rightarrow> bool" where
  "levels_ok ls \<longleftrightarrow> (\<forall>l \<in> set (butlast ls). plain l \<or> l = [c_plus])
     \<and> (plain (last ls) \<or> last ls = [c_plus] \<or> last ls = [c_hash])"

lemma levels_nonempty [simp]: "levels s \<noteq> []"
  by (induction s) (auto split: list.splits)

lemma levels_no_slash: "c_slash \<notin> set s \<Longrightarrow> levels s = [s]"
  by (induction s) auto

lemma levels_append: "levels (a @ c_slash # b) = levels a @ levels b"
proof (induction a)
  case (Cons x a)
  then show ?case by (cases "levels a") (auto simp: neq_Nil_conv)
qed simp

lemma levels_ok_Cons: "ls \<noteq> [] \<Longrightarrow> levels_ok (l # ls) \<longleftrightarrow> (plain l \<or> l = [c_plus]) \<and> levels_ok ls"
  by (auto simp: levels_ok_def)

lemma levels_ok_single: "levels_ok [l] \<longleftrightarrow> plain l \<or> l = [c_plus] \<or> l = [c_hash]"
  by (auto simp: levels_ok_def)

lemma plain_Cons [simp]: "plain (b # l) \<longleftrightarrow> b \<noteq> c_plus \<and> b \<noteq> c_hash \<and> plain l"
  by (auto simp: plain_def)

lemma plain_Nil [simp]: "plain []"
  by (simp add: plain_def)

text \<open>What the loop checks when it stands inside a level of which \<open>pre\<close> was read already.\<close>

lemma plain_append [simp]: "plain (a @ b) \<longleftrightarrow> plain a \<and> plain b"
  by (auto simp: plain_def)

lemma levels_Cons_noslash:
  "b \<noteq> c_slash \<Longrightarrow> levels (b # s) = (b # hd (levels s)) # tl (levels s)"
  by (cases "levels s") simp_all

definition rest_ok :: "u8 list \<Rightarrow> u8 list \<Rightarrow> bool" where
  "rest_ok pre s \<longleftrightarrow> levels_ok ((pre @ hd (levels s)) # tl (levels s))"

text \<open>A \<open>#\<close> is followed by nothing, and a wildcard stands alone in its level.\<close>

lemma hash_not_last: "s \<noteq> [] \<Longrightarrow> \<not> rest_ok (pre @ [c_hash]) s"
proof (cases "tl (levels s) = []")
  case True
  assume "s \<noteq> []"
  then have "hd (levels s) \<noteq> []" using True by (cases s) (auto split: list.splits if_splits)
  then show ?thesis using True by (auto simp: rest_ok_def levels_ok_single append_eq_Cons_conv)
next
  case False
  then show ?thesis by (auto simp: rest_ok_def levels_ok_Cons append_eq_Cons_conv)
qed

lemma wildcard_alone: "pre \<noteq> [] \<Longrightarrow> \<not> plain (pre @ [b]) \<Longrightarrow> \<not> rest_ok (pre @ [b]) s"
  by (cases "tl (levels s) = []")
     (auto simp: rest_ok_def levels_ok_single levels_ok_Cons append_eq_Cons_conv)

lemma topic_filter_loop_noshare:
  "pre = [c_plus] \<or> pre = [c_hash] \<and> s = [] \<or> plain pre \<Longrightarrow>
     topic_filter_loop s (length pre) (\<not> plain pre) False \<longleftrightarrow> rest_ok pre s"
proof (induction s arbitrary: pre)
  case Nil
  then show ?case by (auto simp: rest_ok_def levels_ok_single)
next
  case (Cons b s)
  show ?case
  proof (cases "b = c_slash")
    case True
    have "topic_filter_loop s 0 False False \<longleftrightarrow> rest_ok [] s"
      using Cons.IH [of "[]"] by simp
    moreover have "rest_ok pre (b # s) \<longleftrightarrow> rest_ok [] s"
      using Cons.prems True by (auto simp: rest_ok_def levels_ok_Cons)
    ultimately show ?thesis using True by (simp add: Let_def)
  next
    case False
    have r: "rest_ok pre (b # s) \<longleftrightarrow> rest_ok (pre @ [b]) s"
      using False by (simp add: rest_ok_def levels_Cons_noslash del: levels.simps)
    consider "b = c_hash" "s \<noteq> []" | "b = c_hash \<longrightarrow> s = []" "pre = [] \<or> plain (pre @ [b])"
      | "b = c_hash \<longrightarrow> s = []" "pre \<noteq> []" "\<not> plain (pre @ [b])" by auto
    then show ?thesis
    proof cases
      case 1
      then show ?thesis using r hash_not_last by simp
    next
      case 2
      then have "topic_filter_loop s (length (pre @ [b])) (\<not> plain (pre @ [b])) False \<longleftrightarrow> rest_ok (pre @ [b]) s"
        by (intro Cons.IH) auto
      then show ?thesis using 2 False r by (auto simp: Let_def)
    next
      case 3
      then show ?thesis using False r wildcard_alone [OF 3(2,3)] by (auto simp: Let_def)
    qed
  qed
qed

lemma topic_filter_loop_share:
  "pre = [c_plus] \<or> pre = [c_hash] \<and> s = [] \<or> plain pre \<Longrightarrow>
     topic_filter_loop s (length pre) (\<not> plain pre) True \<longleftrightarrow>
       (if c_slash \<in> set s
        then pre @ hd (levels s) \<noteq> [] \<and> plain (pre @ hd (levels s))
             \<and> tl (levels s) \<noteq> [[]] \<and> levels_ok (tl (levels s))
        else rest_ok pre s)"
proof (induction s arbitrary: pre)
  case Nil
  then show ?case by (auto simp: rest_ok_def levels_ok_single)
next
  case (Cons b s)
  note IH = Cons.IH
  show ?case
  proof (cases "b = c_slash")
    case True
    have "topic_filter_loop s 0 False False \<longleftrightarrow> levels_ok (levels s)"
      using topic_filter_loop_noshare [of "[]" s] by (simp add: rest_ok_def)
    moreover have "levels s = [[]] \<longleftrightarrow> s = []"
      by (cases s) (auto split: list.splits)
    ultimately show ?thesis using True by (auto simp: Let_def)
  next
    case False
    let ?R = "if c_slash \<in> set s
        then (pre @ [b]) @ hd (levels s) \<noteq> [] \<and> plain ((pre @ [b]) @ hd (levels s))
             \<and> tl (levels s) \<noteq> [[]] \<and> levels_ok (tl (levels s))
        else rest_ok (pre @ [b]) s"
    have r: "(if c_slash \<in> set (b # s)
        then pre @ hd (levels (b # s)) \<noteq> [] \<and> plain (pre @ hd (levels (b # s)))
             \<and> tl (levels (b # s)) \<noteq> [[]] \<and> levels_ok (tl (levels (b # s)))
        else rest_ok pre (b # s)) \<longleftrightarrow> ?R"
      using False by (simp add: rest_ok_def levels_Cons_noslash del: levels.simps)
    show ?thesis
    proof (cases "(b = c_hash \<and> s \<noteq> []) \<or> (pre \<noteq> [] \<and> \<not> plain (pre @ [b]))")
      case True
      then have "\<not> ?R"
      proof (cases "c_slash \<in> set s")
        case False
        then have "levels s = [s]" by (rule levels_no_slash)
        then show ?thesis
          using True False by (auto simp: rest_ok_def levels_ok_single append_eq_Cons_conv)
      qed auto
      moreover have "\<not> topic_filter_loop (b # s) (length pre) (\<not> plain pre) True"
        using True False by (auto simp: Let_def)
      ultimately show ?thesis using r by simp
    next
      case nh: False
      then have "topic_filter_loop s (length (pre @ [b])) (\<not> plain (pre @ [b])) True \<longleftrightarrow> ?R"
        by (intro IH) auto
      moreover have "(\<not> plain pre \<or> b = c_hash \<or> b = c_plus) \<longleftrightarrow> \<not> plain (pre @ [b])" by auto
      ultimately show ?thesis using False nh r by (auto simp: Let_def)
    qed
  qed
qed

text \<open>
  A shared subscription [MQTT-4.8.2-1], [MQTT-4.8.2-2]: \<open>$share/\<close>, a share name without wildcard
  and slash, a slash and a topic filter.
\<close>

definition shared_filter :: "u8 list \<Rightarrow> bool" where
  "shared_filter s \<longleftrightarrow> (\<exists>name filter. s = share_prefix @ [c_slash] @ name @ [c_slash] @ filter
     \<and> name \<noteq> [] \<and> plain name \<and> c_slash \<notin> set name \<and> filter \<noteq> [] \<and> levels_ok (levels filter))"

text \<open>What the code accepts beyond: a share name of at least three bytes and nothing after it.\<close>

definition bare_share_name :: "u8 list \<Rightarrow> bool" where
  "bare_share_name s \<longleftrightarrow> (\<exists>name. s = share_prefix @ [c_slash] @ name
     \<and> 3 \<le> length name \<and> plain name \<and> c_slash \<notin> set name)"

lemma first_slash: "c_slash \<in> set s \<Longrightarrow> \<exists>a b. s = a @ c_slash # b \<and> c_slash \<notin> set a"
  by (rule split_list_first)

lemma slash_split:
  "c \<notin> set a \<Longrightarrow> c \<notin> set n \<Longrightarrow> a @ c # b = n @ c # f \<longleftrightarrow> a = n \<and> b = f"
proof (induction a arbitrary: n)
  case Nil
  then show ?case by (cases n) auto
next
  case (Cons x a)
  then show ?case by (cases n) auto
qed

lemma split_share_prefix:
  assumes "take 6 s = share_prefix" and "6 < length s" and "s ! 6 = c_slash"
  shows "s = share_prefix @ [c_slash] @ drop 7 s"
proof -
  have "s = take 6 s @ s ! 6 # drop (Suc 6) s" using assms(2) by (rule id_take_nth_drop)
  then show ?thesis using assms by simp
qed

lemma levels_Nil_iff: "levels s = [[]] \<longleftrightarrow> s = []"
  by (cases s) (auto split: list.splits)

lemma levels_first:
  "c_slash \<notin> set a \<Longrightarrow> hd (levels (a @ c_slash # b)) = a \<and> tl (levels (a @ c_slash # b)) = levels b"
  by (simp add: levels_append levels_no_slash)

lemma share_loop_iff:
  "topic_filter_loop r 0 False True \<longleftrightarrow>
     (\<exists>name filter. r = name @ [c_slash] @ filter \<and> name \<noteq> [] \<and> plain name \<and> c_slash \<notin> set name
        \<and> filter \<noteq> [] \<and> levels_ok (levels filter))
   \<or> (c_slash \<notin> set r \<and> (plain r \<or> r = [c_plus] \<or> r = [c_hash]))"
proof (cases "c_slash \<in> set r")
  case True
  then obtain a b where r: "r = a @ c_slash # b" and a: "c_slash \<notin> set a"
    using first_slash by blast
  have "(\<exists>name filter. r = name @ [c_slash] @ filter \<and> name \<noteq> [] \<and> plain name
        \<and> c_slash \<notin> set name \<and> filter \<noteq> [] \<and> levels_ok (levels filter))
      \<longleftrightarrow> a \<noteq> [] \<and> plain a \<and> b \<noteq> [] \<and> levels_ok (levels b)"
    using a slash_split [OF a, of _ b] unfolding r by (auto simp: Cons_eq_append_conv)
  then show ?thesis
    using topic_filter_loop_share [of "[]" r] True levels_first [OF a, of b]
    by (simp add: r levels_Nil_iff)
next
  case False
  then show ?thesis
    using topic_filter_loop_share [of "[]" r] levels_no_slash [OF False]
    by (auto simp: rest_ok_def levels_ok_single)
qed

text \<open>C28: \<open>TopicFilter::is_valid\<close> accepts exactly the filters of the MQTT syntax, by levels: a plain
  filter is a nonempty list of levels in which every wildcard stands alone and \<open>#\<close> comes last, a
  filter that begins with \<open>$share\<close> is a shared subscription; with one exception, a bare share name of
  three or more characters that no topic filter follows.\<close>

theorem topic_filter_valid_iff:
  "topic_filter_is_valid s \<longleftrightarrow>
     (if take 6 s = share_prefix then shared_filter s \<or> bare_share_name s
      else s \<noteq> [] \<and> levels_ok (levels s))"
proof (cases "take 6 s = share_prefix")
  case False
  then show ?thesis
    using topic_filter_loop_noshare [of "[]" s]
    by (auto simp: topic_filter_is_valid_def Let_def rest_ok_def)
next
  case True
  then have "length (take 6 s) = 6" by (simp add: share_prefix_def)
  then have len: "6 \<le> length s" by simp
  have valid: "topic_filter_is_valid s \<longleftrightarrow>
      10 \<le> length s \<and> s ! 6 = c_slash \<and> topic_filter_loop (drop 7 s) 0 False True"
    using True len by (auto simp: topic_filter_is_valid_def Let_def not_less)
  show ?thesis
  proof (cases "6 < length s \<and> s ! 6 = c_slash")
    case False
    have "6 < length s \<and> s ! 6 = c_slash" if "s = share_prefix @ [c_slash] @ r" for r
      unfolding that by (simp add: share_prefix_def)
    with False have "\<not> (\<exists>r. s = share_prefix @ [c_slash] @ r)" by blast
    then show ?thesis using False True valid by (auto simp: shared_filter_def bare_share_name_def)
  next
    case slash: True
    define r where "r = drop 7 s"
    have s: "s = share_prefix @ [c_slash] @ r"
      unfolding r_def using split_share_prefix True slash by blast
    have l: "length s = 7 + length r" by (subst s) (simp add: share_prefix_def)
    let ?sh = "\<exists>name filter. r = name @ [c_slash] @ filter \<and> name \<noteq> [] \<and> plain name
        \<and> c_slash \<notin> set name \<and> filter \<noteq> [] \<and> levels_ok (levels filter)"
    have sh: "shared_filter s \<longleftrightarrow> ?sh" by (simp add: shared_filter_def s)
    have ba: "bare_share_name s \<longleftrightarrow> 3 \<le> length r \<and> plain r \<and> c_slash \<notin> set r"
      by (simp add: bare_share_name_def s)
    have "3 \<le> length r" if ?sh
    proof -
      from that obtain name filter where "r = name @ [c_slash] @ filter" "name \<noteq> []" "filter \<noteq> []"
        by blast
      then show ?thesis by (cases name; cases filter) simp_all
    qed
    moreover have "\<not> 3 \<le> length r" if "r = [c_plus] \<or> r = [c_hash]"
      using that by auto
    ultimately have "3 \<le> length r \<and> topic_filter_loop r 0 False True
        \<longleftrightarrow> shared_filter s \<or> bare_share_name s"
      unfolding share_loop_iff sh ba by blast
    moreover have "10 \<le> length s \<longleftrightarrow> 3 \<le> length r" using l by simp
    ultimately show ?thesis using valid slash True unfolding r_def by simp
  qed
qed

lemma contains_null_iff: "contains_null s \<longleftrightarrow> 0 \<in> set s"
  by (induction s) auto

lemma topic_name_loop_iff: "topic_name_loop s \<longleftrightarrow> plain s"
  by (induction s) auto

lemma filter_has_wildcard_iff: "filter_has_wildcard s \<longleftrightarrow> \<not> plain s"
  by (induction s) auto

lemma from_utf8_binary_ok:
  "length b \<le> MAX_LENGTH \<Longrightarrow> from_utf8_binary b = Inr s \<longleftrightarrow> s = b \<and> string_ok b"
  by (auto simp: from_utf8_binary_def string_ok_def contains_null_iff)

text \<open>A string that is a topic name is a topic filter without wildcard, unless it begins with
  \<open>$share\<close>; so a client can subscribe to every name it publishes to.\<close>

theorem topic_name_is_filter:
  "topic_name_is_valid s \<Longrightarrow> take 6 s \<noteq> share_prefix
   \<Longrightarrow> topic_filter_is_valid s \<and> \<not> filter_has_wildcard s"
proof -
  assume n: "topic_name_is_valid s" and p: "take 6 s \<noteq> share_prefix"
  have pl: "plain s" and ne: "s \<noteq> []"
    using n by (auto simp: topic_name_is_valid_def topic_name_loop_iff split: if_splits)
  have "\<forall>l \<in> set (levels s). set l \<subseteq> set s"
    by (induction s) (auto split: list.splits)
  then have "\<forall>l \<in> set (levels s). plain l"
    using pl by (auto simp: plain_def)
  then have "levels_ok (levels s)"
    by (auto simp: levels_ok_def dest: in_set_butlastD)
  then show ?thesis using p ne pl by (simp add: topic_filter_valid_iff filter_has_wildcard_iff)
qed

theorem topic_name_is_filter_witness:
  "topic_filter_is_valid [0x61, c_slash, 0x62] \<and> \<not> filter_has_wildcard [0x61, c_slash, 0x62]"
  by (rule topic_name_is_filter) (simp_all add: topic_name_is_valid_def share_prefix_def)

end
