(* ===== verification/Mqtt_IO.thy ===== *)
theory Mqtt_IO
  imports Mqtt_Topic
begin

unbundle bit_operations_syntax

text \<open>
  Readers and writers: \<open>src/io/read.rs\<close>, \<open>src/io/write.rs\<close>, \<open>src/io/err.rs\<close>, the buffer
  providers of \<open>src/buffer.rs\<close> and the \<open>Readable\<close> and \<open>Writable\<close> instances of \<open>src/types\<close>.

  The transport is code outside this repository (\<open>embedded_io_async\<close>). It is a parameter: \<open>rd n\<close> is
  \<open>Read::read\<close> into a buffer of \<open>n\<close> bytes, returning the bytes that were read, \<open>wr bs\<close> is
  \<open>Write::write\<close>, returning how many bytes of \<open>bs\<close> were taken; a provider \<open>pb n\<close> is
  \<open>BufferProvider::provide_buffer\<close>. The readers of the composite types take a second parameter \<open>st\<close>
  for \<open>Store::read_and_store\<close>.
\<close>

section \<open>Errors\<close>

datatype 'e read_error =
  ReRead 'e | ReUnexpectedEOF | ReMalformedPacket | ReProtocolError | ReInvalidTopicName

datatype ('e, 'p) body_read_error =
    BrRead 'e
  | BrBuffer 'p
  | BrUnexpectedEOF
  | BrInsufficientRemainingLen
  | BrMalformedPacket
  | BrProtocolError
  | BrInvalidTopicName

datatype 'e write_error = WriteZero | WrWrite 'e

text \<open>\<open>From<BodyReadError> for ReadError<BodyReadError>\<close>\<close>

fun read_error_of_body :: "('e, 'p) body_read_error \<Rightarrow> ('e, 'p) body_read_error read_error" where
  "read_error_of_body BrUnexpectedEOF = ReUnexpectedEOF"
| "read_error_of_body BrMalformedPacket = ReMalformedPacket"
| "read_error_of_body BrProtocolError = ReProtocolError"
| "read_error_of_body BrInvalidTopicName = ReInvalidTopicName"
| "read_error_of_body e = ReRead e"

text \<open>\<open>From<ReadError> for BodyReadError\<close>\<close>

fun body_error_of_read :: "'e read_error \<Rightarrow> ('e, 'p) body_read_error" where
  "body_error_of_read (ReRead e) = BrRead e"
| "body_error_of_read ReUnexpectedEOF = BrUnexpectedEOF"
| "body_error_of_read ReMalformedPacket = BrMalformedPacket"
| "body_error_of_read ReProtocolError = BrProtocolError"
| "body_error_of_read ReInvalidTopicName = BrInvalidTopicName"

section \<open>Reading\<close>

type_synonym ('s, 'e) reader = "nat \<Rightarrow> ('s, 'e, u8 list) comp"

text \<open>
  The loop that fills a buffer of \<open>n\<close> bytes, of \<open>Readable for [u8; N]\<close> and of \<open>read_and_store\<close>:
  read into the part that is still empty until there is none. \<open>conv\<close> is the error conversion of the
  call site. A transport that claims more bytes than the buffer holds makes the slicing panic.
\<close>

function fill :: "('e \<Rightarrow> 'e read_error) \<Rightarrow> ('s, 'e) reader \<Rightarrow> nat \<Rightarrow> ('s, 'e read_error, u8 list) comp" where
  "fill conv rd n s =
     (if n = 0 then (Ok [], s)
      else (case rd n s of
          (Err e, s') \<Rightarrow> (Err (conv e), s')
        | (Panic, s') \<Rightarrow> (Panic, s')
        | (Ok bs, s') \<Rightarrow>
            (if bs = [] then (Err ReUnexpectedEOF, s')
             else if length bs > n then (Panic, s')
             else bnd (fill conv rd (n - length bs)) (\<lambda>more. ret (bs @ more)) s')))"
  by pat_completeness auto

termination
  by (relation "measure (\<lambda>(conv, rd, n, s). n)") auto

declare fill.simps [simp del]

definition read_array :: "('s, 'e) reader \<Rightarrow> nat \<Rightarrow> ('s, 'e read_error, u8 list) comp" where
  "read_array rd n = fill ReRead rd n"

fun u16_from_be_bytes :: "u8 list \<Rightarrow> u16" where
  "u16_from_be_bytes [a, b] = push_bit 8 (ucast a) OR ucast b"
| "u16_from_be_bytes _ = 0"

fun u32_from_be_bytes :: "u8 list \<Rightarrow> u32" where
  "u32_from_be_bytes [a, b, c, d] =
     push_bit 24 (ucast a) OR push_bit 16 (ucast b) OR push_bit 8 (ucast c) OR ucast d"
| "u32_from_be_bytes _ = 0"

definition read_u8 :: "('s, 'e) reader \<Rightarrow> ('s, 'e read_error, u8) comp" where
  "read_u8 rd = bnd (read_array rd 1) (\<lambda>bs. ret (hd bs))"

definition read_u16 :: "('s, 'e) reader \<Rightarrow> ('s, 'e read_error, u16) comp" where
  "read_u16 rd = bnd (read_array rd 2) (\<lambda>bs. ret (u16_from_be_bytes bs))"

definition read_u32 :: "('s, 'e) reader \<Rightarrow> ('s, 'e read_error, u32) comp" where
  "read_u32 rd = bnd (read_array rd 4) (\<lambda>bs. ret (u32_from_be_bytes bs))"

definition nonzero :: "'a :: zero \<Rightarrow> 'a option" where
  "nonzero v = (if v = 0 then None else Some v)"

definition read_nonzero_u16 :: "('s, 'e) reader \<Rightarrow> ('s, 'e read_error, u16) comp" where
  "read_nonzero_u16 rd = bnd (read_u16 rd) (\<lambda>v. ok_or ReProtocolError (nonzero v))"

definition read_nonzero_u32 :: "('s, 'e) reader \<Rightarrow> ('s, 'e read_error, u32) comp" where
  "read_nonzero_u32 rd = bnd (read_u32 rd) (\<lambda>v. ok_or ReProtocolError (nonzero v))"

definition read_pid :: "('s, 'e) reader \<Rightarrow> ('s, 'e read_error, pid) comp" where
  "read_pid rd = bnd (read_u16 rd) (\<lambda>v. ok_or ReProtocolError (nonzero v))"

definition read_bool :: "('s, 'e) reader \<Rightarrow> ('s, 'e read_error, bool) comp" where
  "read_bool rd = bnd (read_u8 rd) (\<lambda>v.
     if v = 0 then ret False else if v = 1 then ret True else fail ReMalformedPacket)"

definition read_reason_code :: "('s, 'e) reader \<Rightarrow> ('s, 'e read_error, reason_code) comp" where
  "read_reason_code rd = bnd (read_u8 rd) (\<lambda>v. ok_or ReMalformedPacket (reason_code_of_byte v))"

text \<open>
  The loop of \<open>VarByteInt::read\<close>; \<open>buf\<close> are the bytes of \<open>buffer[0..i]\<close>, so \<open>i\<close> is its length. The
  case \<open>i > 3\<close> would index out of the buffer.
\<close>

function read_vbi_loop ::
    "('s, 'e) reader \<Rightarrow> u8 list \<Rightarrow> ('s, 'e read_error, var_byte_int) comp" where
  "read_vbi_loop rd buf s =
     (if length buf > 3 then (Panic, s)
      else (case rd 1 s of
          (Err e, s') \<Rightarrow> (Err (ReRead e), s')
        | (Panic, s') \<Rightarrow> (Panic, s')
        | (Ok [], s') \<Rightarrow> (Err ReUnexpectedEOF, s')
        | (Ok [b], s') \<Rightarrow>
            (if b \<ge> 128 then
               (if length buf = 3 then (Err ReMalformedPacket, s')
                else read_vbi_loop rd (buf @ [b]) s')
             else (case from_slice_unchecked (buf @ [b]) of
                 None \<Rightarrow> (Panic, s')
               | Some v \<Rightarrow> (Ok v, s')))
        | (Ok (_ # _ # _), s') \<Rightarrow> (Panic, s')))"
  by pat_completeness auto

termination
  by (relation "measure (\<lambda>(rd, buf, s). 4 - length buf)") auto

declare read_vbi_loop.simps [simp del]

definition read_vbi :: "('s, 'e) reader \<Rightarrow> ('s, 'e read_error, var_byte_int) comp" where
  "read_vbi rd = read_vbi_loop rd []"

type_synonym ('s, 'e) store = "nat \<Rightarrow> ('s, 'e read_error, u8 list) comp"

definition read_binary ::
    "('s, 'e) reader \<Rightarrow> ('s, 'e) store \<Rightarrow> ('s, 'e read_error, mqtt_binary) comp" where
  "read_binary rd st = bnd (read_u16 rd) (\<lambda>len. st (unat len))"

definition read_string ::
    "('s, 'e) reader \<Rightarrow> ('s, 'e) store \<Rightarrow> ('s, 'e read_error, mqtt_string) comp" where
  "read_string rd st = bnd (read_binary rd st) (\<lambda>b. case from_utf8_binary b of
      Inl _ \<Rightarrow> fail ReMalformedPacket
    | Inr s \<Rightarrow> ret s)"

definition read_string_pair ::
    "('s, 'e) reader \<Rightarrow> ('s, 'e) store \<Rightarrow> ('s, 'e read_error, mqtt_string_pair) comp" where
  "read_string_pair rd st = bnd (read_string rd st) (\<lambda>n. bnd (read_string rd st) (\<lambda>v.
     ret \<lparr>pair_name = n, pair_value = v\<rparr>))"

definition read_topic_name ::
    "('s, 'e) reader \<Rightarrow> ('s, 'e) store \<Rightarrow> ('s, 'e read_error, topic_name) comp" where
  "read_topic_name rd st = bnd (read_string rd st) (\<lambda>s.
     ok_or ReInvalidTopicName (topic_name_new s))"

section \<open>The body reader\<close>

record ('s, 'b) body_reader =
  br_r :: 's
  br_buffer :: 'b
  br_remaining_len :: nat

definition body_reader_new :: "'s \<Rightarrow> 'b \<Rightarrow> nat \<Rightarrow> ('s, 'b) body_reader" where
  "body_reader_new r buffer len = \<lparr>br_r = r, br_buffer = buffer, br_remaining_len = len\<rparr>"

text \<open>
  \<open>Read for BodyReader\<close>. The subtraction panics when the transport claims more than it was asked
  for.
\<close>

definition body_read ::
    "('s, 'e) reader \<Rightarrow> (('s, 'b) body_reader, ('e, 'p) body_read_error) reader" where
  "body_read rd n r =
     (if n \<noteq> 0 \<and> br_remaining_len r = 0 then (Err BrInsufficientRemainingLen, r)
      else (case rd (min n (br_remaining_len r)) (br_r r) of
          (Err e, s') \<Rightarrow> (Err (BrRead e), r\<lparr>br_r := s'\<rparr>)
        | (Panic, s') \<Rightarrow> (Panic, r\<lparr>br_r := s'\<rparr>)
        | (Ok bs, s') \<Rightarrow>
            (if length bs > br_remaining_len r then (Panic, r\<lparr>br_r := s'\<rparr>)
             else (Ok bs, r\<lparr>br_r := s', br_remaining_len := br_remaining_len r - length bs\<rparr>))))"

text \<open>
  \<open>Store for BodyReader\<close>. The buffer \<open>provide_buffer\<close> returns has exactly \<open>len\<close> bytes, which is what
  it documents.
\<close>

definition body_store ::
    "('s, 'e) reader \<Rightarrow> (nat \<Rightarrow> ('b, 'p, 'm) comp)
     \<Rightarrow> (('s, 'b) body_reader, ('e, 'p) body_read_error) store" where
  "body_store rd pb len r =
     (if br_remaining_len r < len then (Err (ReRead BrInsufficientRemainingLen), r)
      else (case pb len (br_buffer r) of
          (Err p, b') \<Rightarrow> (Err (read_error_of_body (BrBuffer p)), r\<lparr>br_buffer := b'\<rparr>)
        | (Panic, b') \<Rightarrow> (Panic, r\<lparr>br_buffer := b'\<rparr>)
        | (Ok _, b') \<Rightarrow> fill read_error_of_body (body_read rd) len (r\<lparr>br_buffer := b'\<rparr>)))"

definition CHUNK_SIZE :: nat where
  "CHUNK_SIZE = 64"

text \<open>The loop of \<open>skip\<close>; a transport that claims more than it was asked for underflows \<open>missing\<close>.\<close>

function skip_loop :: "('s, 'e) reader \<Rightarrow> nat \<Rightarrow> ('s, ('e, 'p) body_read_error, unit) comp" where
  "skip_loop rd missing s =
     (if missing = 0 then (Ok (), s)
      else (case rd (min CHUNK_SIZE missing) s of
          (Err e, s') \<Rightarrow> (Err (BrRead e), s')
        | (Panic, s') \<Rightarrow> (Panic, s')
        | (Ok bs, s') \<Rightarrow>
            (if bs = [] then (Err BrUnexpectedEOF, s')
             else if length bs > missing then (Panic, s')
             else skip_loop rd (missing - length bs) s')))"
  by pat_completeness auto

termination
  by (relation "measure (\<lambda>(rd, n, s). n)") auto

declare skip_loop.simps [simp del]

definition body_skip ::
    "('s, 'e) reader \<Rightarrow> nat \<Rightarrow> (('s, 'b) body_reader, ('e, 'p) body_read_error, unit) comp" where
  "body_skip rd len r =
     (if br_remaining_len r < len then (Panic, r)
      else (let (res, s') = skip_loop rd len (br_r r) in
        (res, r\<lparr>br_r := s', br_remaining_len := br_remaining_len r - len\<rparr>)))"

section \<open>Buffer providers\<close>

record bump_buffer =
  bb_len :: nat
  bb_index :: nat

datatype insufficient_space = InsufficientSpace

definition bump_new :: "u8 list \<Rightarrow> bump_buffer" where
  "bump_new backing = \<lparr>bb_len = length backing, bb_index = 0\<rparr>"

definition bump_remaining_len :: "bump_buffer \<Rightarrow> nat" where
  "bump_remaining_len b = bb_len b - bb_index b"

text \<open>The slice handed out is \<open>[start, start + len)\<close> of the backing buffer.\<close>

definition bump_provide :: "nat \<Rightarrow> (bump_buffer, insufficient_space, nat \<times> nat) comp" where
  "bump_provide len b =
     (if bump_remaining_len b < len then (Err InsufficientSpace, b)
      else (Ok (bb_index b, len), b\<lparr>bb_index := bb_index b + len\<rparr>))"

definition bump_reset :: "bump_buffer \<Rightarrow> bump_buffer" where
  "bump_reset b = b\<lparr>bb_index := 0\<rparr>"

definition alloc_provide :: "nat \<Rightarrow> (unit, 'p, u8 list) comp" where
  "alloc_provide len b = (Ok (replicate len 0), b)"

section \<open>Writing\<close>

type_synonym ('w, 'e) writer = "u8 list \<Rightarrow> ('w, 'e, nat) comp"

function write_slice :: "('w, 'e) writer \<Rightarrow> u8 list \<Rightarrow> ('w, 'e write_error, unit) comp" where
  "write_slice wr bs w =
     (if bs = [] then (Ok (), w)
      else (case wr bs w of
          (Err e, w') \<Rightarrow> (Err (WrWrite e), w')
        | (Panic, w') \<Rightarrow> (Panic, w')
        | (Ok n, w') \<Rightarrow>
            (if n = 0 then (Err WriteZero, w')
             else if n > length bs then (Panic, w')
             else write_slice wr (drop n bs) w')))"
  by pat_completeness auto

termination
  by (relation "measure (\<lambda>(wr, bs, w). length bs)") auto

declare write_slice.simps [simp del]

abbreviation thn :: "('s, 'e, 'a) comp \<Rightarrow> ('s, 'e, 'b) comp \<Rightarrow> ('s, 'e, 'b) comp" where
  "thn m n \<equiv> bnd m (\<lambda>_. n)"

definition u16_to_be_bytes :: "u16 \<Rightarrow> u8 list" where
  "u16_to_be_bytes v = [ucast (drop_bit 8 v), ucast v]"

definition u32_to_be_bytes :: "u32 \<Rightarrow> u8 list" where
  "u32_to_be_bytes v =
     [ucast (drop_bit 24 v), ucast (drop_bit 16 v), ucast (drop_bit 8 v), ucast v]"

definition write_u8 :: "('w, 'e) writer \<Rightarrow> u8 \<Rightarrow> ('w, 'e write_error, unit) comp" where
  "write_u8 wr v = write_slice wr [v]"

definition write_u16 :: "('w, 'e) writer \<Rightarrow> u16 \<Rightarrow> ('w, 'e write_error, unit) comp" where
  "write_u16 wr v = write_slice wr (u16_to_be_bytes v)"

definition write_u32 :: "('w, 'e) writer \<Rightarrow> u32 \<Rightarrow> ('w, 'e write_error, unit) comp" where
  "write_u32 wr v = write_slice wr (u32_to_be_bytes v)"

definition write_pid :: "('w, 'e) writer \<Rightarrow> pid \<Rightarrow> ('w, 'e write_error, unit) comp" where
  "write_pid wr p = write_u16 wr p"

definition bool_byte :: "bool \<Rightarrow> u8" where
  "bool_byte b = (if b then 1 else 0)"

definition write_bool :: "('w, 'e) writer \<Rightarrow> bool \<Rightarrow> ('w, 'e write_error, unit) comp" where
  "write_bool wr b = write_u8 wr (bool_byte b)"

definition write_reason_code ::
    "('w, 'e) writer \<Rightarrow> reason_code \<Rightarrow> ('w, 'e write_error, unit) comp" where
  "write_reason_code wr c = write_u8 wr (rc_value c)"

text \<open>\<open>None\<close> is the \<open>unreachable!\<close> of a value that no constructor of \<open>VarByteInt\<close> gives.\<close>

definition vbi_written_len :: "var_byte_int \<Rightarrow> nat option" where
  "vbi_written_len v =
     (let x = vbi_value v in
      if x \<le> 127 then Some 1
      else if x \<le> 16383 then Some 2
      else if x \<le> 2097151 then Some 3
      else if x \<le> MAX_ENCODABLE then Some 4
      else None)"

function write_vbi_loop :: "('w, 'e) writer \<Rightarrow> u32 \<Rightarrow> ('w, 'e write_error, unit) comp" where
  "write_vbi_loop wr x w =
     (let encoded_byte = ucast (x mod 128) :: u8;
          x' = x div 128;
          encoded_byte' = (if x' > 0 then encoded_byte OR 128 else encoded_byte)
      in bnd (write_u8 wr encoded_byte')
           (\<lambda>_ w'. if x' = 0 then (Ok (), w') else write_vbi_loop wr x' w') w)"
  by pat_completeness auto

termination
proof (relation "measure (\<lambda>(wr, x, w). unat x)", goal_cases)
  case 1
  show ?case by simp
next
  case (2 wr x w e x' e' u w')
  then have "unat (x div 128) \<noteq> 0" by (simp add: unat_eq_zero)
  then have "unat x div 128 \<noteq> 0" by (simp add: unat_div)
  then have "unat x div 128 < unat x" by (intro div_less_dividend) auto
  then show ?case using 2 by (simp add: unat_div)
qed

declare write_vbi_loop.simps [simp del]

definition write_vbi :: "('w, 'e) writer \<Rightarrow> var_byte_int \<Rightarrow> ('w, 'e write_error, unit) comp" where
  "write_vbi wr v = write_vbi_loop wr (vbi_value v)"

definition binary_written_len :: "mqtt_binary \<Rightarrow> nat" where
  "binary_written_len b = length b + 2"

definition write_binary :: "('w, 'e) writer \<Rightarrow> mqtt_binary \<Rightarrow> ('w, 'e write_error, unit) comp" where
  "write_binary wr b = thn (write_u16 wr (binary_len b)) (write_slice wr b)"

definition string_written_len :: "mqtt_string \<Rightarrow> nat" where
  "string_written_len s = binary_written_len s"

definition write_string :: "('w, 'e) writer \<Rightarrow> mqtt_string \<Rightarrow> ('w, 'e write_error, unit) comp" where
  "write_string wr s = write_binary wr s"

definition string_pair_written_len :: "mqtt_string_pair \<Rightarrow> nat" where
  "string_pair_written_len p = string_written_len (pair_name p) + string_written_len (pair_value p)"

definition write_string_pair ::
    "('w, 'e) writer \<Rightarrow> mqtt_string_pair \<Rightarrow> ('w, 'e write_error, unit) comp" where
  "write_string_pair wr p = thn (write_string wr (pair_name p)) (write_string wr (pair_value p))"

definition write_option ::
    "('a \<Rightarrow> ('w, 'e write_error, unit) comp) \<Rightarrow> 'a option \<Rightarrow> ('w, 'e write_error, unit) comp" where
  "write_option f x = (case x of Some t \<Rightarrow> f t | None \<Rightarrow> ret ())"

definition option_written_len :: "('a \<Rightarrow> nat) \<Rightarrow> 'a option \<Rightarrow> nat" where
  "option_written_len f x = (case x of Some t \<Rightarrow> f t | None \<Rightarrow> 0)"

fun write_subscription_filters ::
    "('w, 'e) writer \<Rightarrow> subscription_filter list \<Rightarrow> ('w, 'e write_error, unit) comp" where
  "write_subscription_filters wr [] = ret ()"
| "write_subscription_filters wr (t # ts) =
     thn (write_string wr (sf_topic t))
      (thn (write_u8 wr (sf_subscription_options t)) (write_subscription_filters wr ts))"

definition subscription_filters_written_len :: "subscription_filter list \<Rightarrow> nat" where
  "subscription_filters_written_len ts = sum_list (map (\<lambda>t. string_written_len (sf_topic t) + 1) ts)"

end
