(* ===== verification/Mqtt_Codec.thy ===== *)
theory Mqtt_Codec
  imports Mqtt_IO
begin

unbundle bit_operations_syntax

text \<open>
  The contracts between the codecs and the world: what a transport delivers (\<open>byte_source\<close>), what a
  transport accepts (\<open>byte_sink\<close>), what a memory provider grants (\<open>buffer_provider\<close>) and what a
  reader that can also store gives to the composite readers (\<open>byte_store\<close>). A calculus of
  \<^emph>\<open>writes these bytes\<close> and \<^emph>\<open>reads these bytes as this value\<close> is proved once over the contracts;
  round trips of the scalar types follow from it, whatever pieces the transport splits the bytes
  into. The slice reader and writer of \<open>src/test\<close>, the buffers of \<open>src/buffer.rs\<close> and the body
  reader of \<open>src/io/read.rs\<close> are the instances.
\<close>

section \<open>Sinks\<close>

locale byte_sink =
  fixes wr :: "('w, 'e) writer" and out :: "'w \<Rightarrow> u8 list" and room :: "'w \<Rightarrow> nat \<Rightarrow> bool"
  assumes wr_ok: "bs \<noteq> [] \<Longrightarrow> room w (length bs + k) \<Longrightarrow>
      \<exists>n w'. wr bs w = (Ok n, w') \<and> 0 < n \<and> n \<le> length bs \<and> out w' = out w @ take n bs
           \<and> room w' (length bs - n + k)"
begin

definition writes :: "('w, 'e write_error, unit) comp \<Rightarrow> u8 list \<Rightarrow> bool" where
  "writes m bs \<longleftrightarrow> (\<forall>w k. room w (length bs + k) \<longrightarrow>
     (\<exists>w'. m w = (Ok (), w') \<and> out w' = out w @ bs \<and> room w' k))"

lemma writesI:
  "(\<And>w k. room w (length bs + k) \<Longrightarrow> \<exists>w'. m w = (Ok (), w') \<and> out w' = out w @ bs \<and> room w' k)
   \<Longrightarrow> writes m bs"
  by (auto simp: writes_def)

lemma writesD:
  assumes "writes m bs" and "room w (length bs + k)"
  obtains w' where "m w = (Ok (), w')" "out w' = out w @ bs" "room w' k"
  using assms unfolding writes_def by blast

lemma writes_ret: "writes (ret ()) []"
  by (simp add: writes_def run_simps)

lemma writes_thn:
  assumes "writes m a" and "writes n b"
  shows "writes (thn m n) (a @ b)"
proof (rule writesI)
  fix w k
  assume "room w (length (a @ b) + k)"
  then have "room w (length a + (length b + k))" by (simp add: add.assoc)
  then obtain w1 where 1: "m w = (Ok (), w1)" "out w1 = out w @ a" "room w1 (length b + k)"
    using writesD [OF assms(1)] by blast
  obtain w2 where "n w1 = (Ok (), w2)" "out w2 = out w1 @ b" "room w2 k"
    using writesD [OF assms(2) 1(3)] by blast
  with 1 show "\<exists>w'. thn m n w = (Ok (), w') \<and> out w' = out w @ a @ b \<and> room w' k" by simp
qed

lemma write_slice_run:
  "room w (length bs + k) \<Longrightarrow>
     \<exists>w'. write_slice wr bs w = (Ok (), w') \<and> out w' = out w @ bs \<and> room w' k"
proof (induction bs arbitrary: w rule: length_induct)
  case (1 bs)
  show ?case
  proof (cases "bs = []")
    case True
    then show ?thesis using 1(2) by (simp add: write_slice.simps)
  next
    case False
    obtain n w1 where w1: "wr bs w = (Ok n, w1)" "0 < n" "n \<le> length bs" "out w1 = out w @ take n bs"
        "room w1 (length bs - n + k)"
      using wr_ok [OF False 1(2)] by blast
    then obtain w2 where "write_slice wr (drop n bs) w1 = (Ok (), w2)"
        "out w2 = out w1 @ drop n bs" "room w2 k"
      using 1(1) [rule_format, of "drop n bs" w1] False by auto
    then show ?thesis using w1 False by (subst write_slice.simps) simp
  qed
qed

lemma writes_slice: "writes (write_slice wr bs) bs"
  by (rule writesI) (rule write_slice_run)

end

section \<open>Sources and stores\<close>

locale byte_source =
  fixes rd :: "('s, 'e) reader" and bytes :: "'s \<Rightarrow> u8 list"
  assumes rd_ok: "0 < n \<Longrightarrow> bytes s \<noteq> [] \<Longrightarrow>
      \<exists>bs s'. rd n s = (Ok bs, s') \<and> bs \<noteq> [] \<and> length bs \<le> n \<and> bytes s = bs @ bytes s'"

text \<open>
  What is assumed of a transport, for every outcome of a call: it delivers at most what it was
  asked for, takes what it delivers from the front of its input, and takes nothing when it fails.
\<close>

locale byte_stream =
  fixes rd :: "('s, 'e) reader" and bytes :: "'s \<Rightarrow> u8 list"
  assumes rd_Ok: "rd n s = (Ok bs, s') \<Longrightarrow> bytes s = bs @ bytes s' \<and> length bs \<le> n"
    and rd_Err: "rd n s = (Err e, s') \<Longrightarrow> bytes s' = bytes s"
    and rd_Panic: "rd n s = (Panic, s') \<Longrightarrow> bytes s' = bytes s"

text \<open>Reading from the transport leaves the memory for stored data alone.\<close>

locale byte_memory = byte_source rd bytes
  for rd :: "('s, 'e) reader" and bytes +
  fixes fits :: "'s \<Rightarrow> nat \<Rightarrow> bool"
  assumes rd_fits: "rd n s = (Ok bs, s') \<Longrightarrow> fits s k \<Longrightarrow> fits s' k"
begin

lemma fill_run:
  "n \<le> length (bytes s) \<Longrightarrow> fits s k \<Longrightarrow>
     \<exists>s'. fill conv rd n s = (Ok (take n (bytes s)), s') \<and> bytes s' = drop n (bytes s) \<and> fits s' k"
proof (induction n arbitrary: s rule: less_induct)
  case (less n)
  show ?case
  proof (cases "n = 0")
    case True
    then show ?thesis using less.prems by (simp add: fill.simps)
  next
    case False
    then obtain bs s1 where s1: "rd n s = (Ok bs, s1)" "bs \<noteq> []" "length bs \<le> n" "bytes s = bs @ bytes s1"
      using rd_ok [of n s] less.prems by fastforce
    have "n - length bs < n" "n - length bs \<le> length (bytes s1)" "fits s1 k"
      using s1 False less.prems rd_fits by auto
    from less.IH [OF this] obtain s2 where
      "fill conv rd (n - length bs) s1 = (Ok (take (n - length bs) (bytes s1)), s2)"
      "bytes s2 = drop (n - length bs) (bytes s1)" "fits s2 k" by blast
    then show ?thesis using s1 False by (subst fill.simps) (simp add: run_simps)
  qed
qed

end

locale byte_store = byte_memory rd bytes fits
  for rd :: "('s, 'e) reader" and bytes and fits +
  fixes st :: "('s, 'e) store"
  assumes st_ok: "n \<le> length (bytes s) \<Longrightarrow> fits s (n + k) \<Longrightarrow>
      \<exists>s'. st n s = (Ok (take n (bytes s)), s') \<and> bytes s' = drop n (bytes s) \<and> fits s' k"
begin

text \<open>\<open>m\<close> takes exactly \<open>bs\<close> from the front of the input, needs \<open>k\<close> bytes of memory and gives \<open>v\<close>.\<close>

definition reads :: "('s, 'f, 'a) comp \<Rightarrow> u8 list \<Rightarrow> nat \<Rightarrow> 'a \<Rightarrow> bool" where
  "reads m bs k v \<longleftrightarrow> (\<forall>s rest j. bytes s = bs @ rest \<longrightarrow> fits s (k + j) \<longrightarrow>
     (\<exists>s'. m s = (Ok v, s') \<and> bytes s' = rest \<and> fits s' j))"

lemma readsI:
  "(\<And>s rest j. bytes s = bs @ rest \<Longrightarrow> fits s (k + j) \<Longrightarrow>
      \<exists>s'. m s = (Ok v, s') \<and> bytes s' = rest \<and> fits s' j) \<Longrightarrow> reads m bs k v"
  by (auto simp: reads_def)

lemma readsD:
  assumes "reads m bs k v" and "bytes s = bs @ rest" and "fits s (k + j)"
  obtains s' where "m s = (Ok v, s')" "bytes s' = rest" "fits s' j"
  using assms unfolding reads_def by blast

lemma reads_ret: "reads (ret v) [] 0 v"
  by (simp add: reads_def run_simps)

lemma reads_bnd:
  assumes "reads m a k v" and "reads (f v) b l x"
  shows "reads (bnd m f) (a @ b) (k + l) x"
proof (rule readsI)
  fix s rest j
  assume b: "bytes s = (a @ b) @ rest" and "fits s (k + l + j)"
  then have "fits s (k + (l + j))" by (simp add: add.assoc)
  moreover have "bytes s = a @ (b @ rest)" using b by simp
  ultimately obtain s1 where "m s = (Ok v, s1)" "bytes s1 = b @ rest" "fits s1 (l + j)"
    using readsD [OF assms(1)] by blast
  moreover from this(2,3) obtain s2 where "f v s1 = (Ok x, s2)" "bytes s2 = rest" "fits s2 j"
    using readsD [OF assms(2)] by blast
  ultimately show "\<exists>s'. bnd m f s = (Ok x, s') \<and> bytes s' = rest \<and> fits s' j" by simp
qed

lemma reads_bnd_ret: "reads m a k v \<Longrightarrow> f v = ret x \<Longrightarrow> reads (bnd m f) a k x"
  using reads_bnd [of m a k v f "[]" 0 x] by (simp add: reads_ret)

lemma reads_map_err: "reads m a k v \<Longrightarrow> reads (map_err f m) a k v"
  by (auto simp: reads_def)

text \<open>The same for the whole of the input, for readers that look at how much is left.\<close>

definition parses :: "('s, 'f, 'a) comp \<Rightarrow> u8 list \<Rightarrow> nat \<Rightarrow> 'a \<Rightarrow> bool" where
  "parses m bs k v \<longleftrightarrow> (\<forall>s j. bytes s = bs \<longrightarrow> fits s (k + j) \<longrightarrow>
     (\<exists>s'. m s = (Ok v, s') \<and> bytes s' = [] \<and> fits s' j))"

lemma parsesI:
  "(\<And>s j. bytes s = bs \<Longrightarrow> fits s (k + j) \<Longrightarrow> \<exists>s'. m s = (Ok v, s') \<and> bytes s' = [] \<and> fits s' j)
   \<Longrightarrow> parses m bs k v"
  by (auto simp: parses_def)

lemma parses_ret: "parses (ret v) [] 0 v"
  by (simp add: parses_def run_simps)

lemma parses_bnd:
  assumes "reads m a k v" and "parses (f v) b l x"
  shows "parses (bnd m f) (a @ b) (k + l) x"
proof (rule parsesI)
  fix s j
  assume "bytes s = a @ b" and "fits s (k + l + j)"
  then obtain s1 where "m s = (Ok v, s1)" "bytes s1 = b" "fits s1 (l + j)"
    using readsD [OF assms(1), of s b "l + j"] by (auto simp: add.assoc)
  moreover from this(2,3) obtain s2 where "f v s1 = (Ok x, s2)" "bytes s2 = []" "fits s2 j"
    using assms(2) unfolding parses_def by blast
  ultimately show "\<exists>s'. bnd m f s = (Ok x, s') \<and> bytes s' = [] \<and> fits s' j" by simp
qed

lemma reads_parses: "reads m bs k v \<Longrightarrow> parses m bs k v"
  unfolding reads_def parses_def by auto

lemma reads_array: "reads (read_array rd (length bs)) bs 0 bs"
proof (rule readsI)
  fix s rest j
  assume "bytes s = bs @ rest" "fits s (0 + j)"
  then show "\<exists>s'. read_array rd (length bs) s = (Ok bs, s') \<and> bytes s' = rest \<and> fits s' j"
    using fill_run [of "length bs" s j ReRead] by (simp add: read_array_def)
qed

lemma reads_store: "reads (st (length bs)) bs (length bs) bs"
proof (rule readsI)
  fix s rest j
  assume "bytes s = bs @ rest" "fits s (length bs + j)"
  then show "\<exists>s'. st (length bs) s = (Ok bs, s') \<and> bytes s' = rest \<and> fits s' j"
    using st_ok [of "length bs" s j] by simp
qed

end

section \<open>Encodings of the scalar types\<close>

lemma u32_div_less: "x div 128 \<noteq> 0 \<Longrightarrow> unat (x div 128) < unat (x :: u32)"
proof -
  assume "x div 128 \<noteq> 0"
  then have "unat (x div 128) \<noteq> 0" by (simp add: unat_eq_zero)
  then have "unat x div 128 \<noteq> 0" by (simp add: unat_div)
  then have "unat x div 128 < unat x" by (intro div_less_dividend) auto
  then show ?thesis by (simp add: unat_div)
qed

function vbi_bytes :: "u32 \<Rightarrow> u8 list" where
  "vbi_bytes x =
     (if x div 128 = 0 then [ucast (x mod 128)]
      else (ucast (x mod 128) OR 128) # vbi_bytes (x div 128))"
  by pat_completeness auto

termination
  by (relation "measure unat") (simp_all add: u32_div_less)

declare vbi_bytes.simps [simp del]

definition binary_bytes :: "mqtt_binary \<Rightarrow> u8 list" where
  "binary_bytes b = u16_to_be_bytes (binary_len b) @ b"

definition string_pair_bytes :: "mqtt_string_pair \<Rightarrow> u8 list" where
  "string_pair_bytes p = binary_bytes (pair_name p) @ binary_bytes (pair_value p)"

definition string_pair_ok :: "mqtt_string_pair \<Rightarrow> bool" where
  "string_pair_ok p \<longleftrightarrow> string_ok (pair_name p) \<and> string_ok (pair_value p)"

lemma u16_be_roundtrip [simp]: "u16_from_be_bytes (u16_to_be_bytes v) = v"
  by (simp add: u16_to_be_bytes_def) (rule bit_word_eqI, auto simp: bit_simps)

lemma u32_be_roundtrip [simp]: "u32_from_be_bytes (u32_to_be_bytes v) = v"
proof (rule bit_word_eqI)
  fix n
  assume "n < LENGTH(32)"
  consider "n < 8" | "8 \<le> n" "n < 16" | "16 \<le> n" "n < 24" | "24 \<le> n" by linarith
  then show "bit (u32_from_be_bytes (u32_to_be_bytes v)) n = bit v n"
    using \<open>n < LENGTH(32)\<close> by cases (auto simp: u32_to_be_bytes_def bit_simps)
qed

lemma length_be_bytes [simp]: "length (u16_to_be_bytes v) = 2" "length (u32_to_be_bytes w) = 4"
  by (simp_all add: u16_to_be_bytes_def u32_to_be_bytes_def)

lemma length_binary_bytes [simp]: "length (binary_bytes b) = binary_written_len b"
  by (simp add: binary_bytes_def binary_written_len_def)

text \<open>The seven bits of a group and the continuation bit, as masks.\<close>

lemma seven_bits: "(127 :: 'a :: len word) = mask 7" "(128 :: 'a :: len word) = 2 ^ 7"
  by (simp_all add: mask_eq_exp_minus_1)

lemma vbi_group:
  fixes x :: u32
  shows "ucast ((ucast (x mod 128) :: u8) AND 0x7F) = x mod 128"
    and "ucast (((ucast (x mod 128) :: u8) OR 128) AND 0x7F) = x mod 128"
    and "(ucast (x mod 128) :: u8) AND 128 = 0"
    and "((ucast (x mod 128) :: u8) OR 128) AND 128 \<noteq> 0"
proof -
  show low: "ucast ((ucast (x mod 128) :: u8) AND 0x7F) = x mod 128"
    unfolding seven_bits take_bit_eq_mod [symmetric] by (rule bit_word_eqI) (auto simp: bit_simps)
  have "(a OR 128) AND 0x7F = a AND 0x7F" for a :: u8
    by (simp add: bit.conj_disj_distrib2)
  then show "ucast (((ucast (x mod 128) :: u8) OR 128) AND 0x7F) = x mod 128"
    using low by simp
  show "(ucast (x mod 128) :: u8) AND 128 = 0"
    unfolding seven_bits take_bit_eq_mod [symmetric] and_exp_eq_0_iff_not_bit
    by (simp add: bit_simps)
  show "((ucast (x mod 128) :: u8) OR 128) AND 128 \<noteq> 0"
    unfolding seven_bits take_bit_eq_mod [symmetric] and_exp_eq_0_iff_not_bit
    by (simp add: bit_simps)
qed

lemma continuation_iff: "(b :: u8) \<ge> 128 \<longleftrightarrow> b AND 128 \<noteq> 0"
proof -
  have "unat b < 256" using unsigned_less [of b] by simp
  have "b AND 128 = 0 \<longleftrightarrow> \<not> bit b 7"
    unfolding seven_bits by (rule and_exp_eq_0_iff_not_bit)
  also have "bit b 7 \<longleftrightarrow> odd (unat b div 128)"
    using bit_unsigned_iff [of b 7, where 'a = nat] by (simp add: bit_iff_odd)
  also have "\<dots> \<longleftrightarrow> 128 \<le> unat b" using \<open>unat b < 256\<close> div_less [of "unat b" 128]
      by (cases "128 \<le> unat b") (auto simp: le_div_geq)
  finally show ?thesis by (simp add: word_le_nat_alt)
qed

lemma vbi_decode_bytes: "vbi_decode (vbi_bytes x) m v = v + x * m"
proof (induction x arbitrary: m v rule: vbi_bytes.induct)
  case (1 x)
  have split: "x = x div 128 * 128 + x mod 128" by (simp add: word_mod_div_equality)
  show ?case
  proof (cases "x div 128 = 0")
    case True
    then have "x mod 128 = x" using split by simp
    then show ?thesis using True vbi_group [of x] by (simp add: vbi_bytes.simps)
  next
    case False
    have "v + x mod 128 * m + x div 128 * (m * 128) = v + (x div 128 * 128 + x mod 128) * m"
      by (simp add: algebra_simps)
    then show ?thesis
      using False vbi_group [of x] 1 [OF False, of "m * 128" "v + x mod 128 * m"] split
      by (simp add: vbi_bytes.simps [of x])
  qed
qed

lemma last_vbi_bytes: "last (vbi_bytes x) AND 128 = 0" and vbi_bytes_nonempty [simp]: "vbi_bytes x \<noteq> []"
proof -
  show "last (vbi_bytes x) AND 128 = 0"
  proof (induction x rule: vbi_bytes.induct)
    case (1 x)
    show ?case
    proof (cases "x div 128 = 0")
      case True
      then show ?thesis using vbi_group(3) [of x] by (simp add: vbi_bytes.simps)
    next
      case False
      have "vbi_bytes (x div 128) \<noteq> []" by (subst vbi_bytes.simps) simp
      then show ?thesis using 1 [OF False] False by (simp add: vbi_bytes.simps [of x])
    qed
  qed
  show "vbi_bytes x \<noteq> []" by (subst vbi_bytes.simps) simp
qed

lemma u32_div_zero_iff: "(x :: u32) div 128 = 0 \<longleftrightarrow> unat x < 128"
proof -
  have "x div 128 = 0 \<longleftrightarrow> unat (x div 128) = 0" by (simp add: unat_eq_zero)
  then show ?thesis by (simp add: unat_div div_eq_0_iff)
qed

lemma length_vbi_bytes:
  "length (vbi_bytes x) = (if unat x < 128 then 1 else if unat x < 128 * 128 then 2
     else if unat x < 128 * 128 * 128 then 3 else if unat x < 128 * 128 * 128 * 128 then 4 else 5)"
proof -
  have step: "length (vbi_bytes y) = (if unat y < 128 then 1 else Suc (length (vbi_bytes (y div 128))))"
    for y by (simp add: vbi_bytes.simps [of y] u32_div_zero_iff)
  have d: "unat (y div 128) = unat y div 128" for y :: u32 by (simp add: unat_div)
  have "unat x < 4294967296" using unsigned_less [of x] by simp
  then have z: "unat x div 128 div 128 div 128 div 128 < 128" by (simp add: div_mult2_eq [symmetric] less_mult_imp_div_less)
  have "length (vbi_bytes x) = (if unat x < 128 then 1 else if unat x div 128 < 128 then 2
     else if unat x div 128 div 128 < 128 then 3 else if unat x div 128 div 128 div 128 < 128 then 4 else 5)"
    using z by (simp add: step [of x] step [of "x div 128"] step [of "x div 128 div 128"]
      step [of "x div 128 div 128 div 128"] step [of "x div 128 div 128 div 128 div 128"] d)
  then show ?thesis by (simp add: div_less_iff_less_mult)
qed

lemma vbi_written_len_bytes:
  "vbi_written_len (VarByteInt x) = (if x \<le> MAX_ENCODABLE then Some (length (vbi_bytes x)) else None)"
  by (auto simp: vbi_written_len_def length_vbi_bytes MAX_ENCODABLE_def word_le_nat_alt Let_def)

lemma from_slice_vbi_bytes:
  "x \<le> MAX_ENCODABLE \<Longrightarrow> from_slice_unchecked (vbi_bytes x) = Some (VarByteInt x)"
  by (simp add: from_slice_unchecked_def last_vbi_bytes vbi_decode_bytes vbi_new_unchecked_def
        length_vbi_bytes MAX_ENCODABLE_def word_le_nat_alt)

section \<open>Writing and reading the scalar types\<close>

context byte_sink
begin

lemma writes_vbi_loop: "writes (write_vbi_loop wr x) (vbi_bytes x)"
proof (induction x rule: vbi_bytes.induct)
  case (1 x)
  have eq: "write_vbi_loop wr x =
      (if x div 128 = 0 then thn (write_u8 wr (ucast (x mod 128))) (ret ())
       else thn (write_u8 wr (ucast (x mod 128) OR 128)) (write_vbi_loop wr (x div 128)))"
    by (cases "x div 128 = 0"; rule ext)
       (simp_all add: write_vbi_loop.simps [of wr x] bnd_def run_simps word_gt_0 Let_def
         split: prod.split res.split)
  show ?case
  proof (cases "x div 128 = 0")
    case True
    have "writes (thn (write_slice wr [ucast (x mod 128)]) (ret ())) ([ucast (x mod 128)] @ [])"
      by (intro writes_thn writes_slice writes_ret)
    then show ?thesis using True by (simp add: eq vbi_bytes.simps [of x] write_u8_def)
  next
    case False
    have "writes (thn (write_slice wr [ucast (x mod 128) OR 128]) (write_vbi_loop wr (x div 128)))
        ([ucast (x mod 128) OR 128] @ vbi_bytes (x div 128))"
      by (intro writes_thn writes_slice 1 [OF False])
    then show ?thesis using False by (simp add: eq vbi_bytes.simps [of x] write_u8_def)
  qed
qed

lemma writes_vbi: "writes (write_vbi wr v) (vbi_bytes (vbi_value v))"
  by (simp add: write_vbi_def writes_vbi_loop)

lemma writes_binary: "writes (write_binary wr b) (binary_bytes b)"
  unfolding write_binary_def binary_bytes_def write_u16_def by (intro writes_thn writes_slice)

lemma writes_string_pair: "writes (write_string_pair wr p) (string_pair_bytes p)"
  unfolding write_string_pair_def string_pair_bytes_def write_string_def
  by (intro writes_thn writes_binary)

lemma writes_subscription_filters:
  "writes (write_subscription_filters wr ts)
     (concat (map (\<lambda>t. binary_bytes (sf_topic t) @ [sf_subscription_options t]) ts))"
proof (induction ts)
  case (Cons t ts)
  then have "writes (write_subscription_filters wr (t # ts))
      (binary_bytes (sf_topic t) @ [sf_subscription_options t]
        @ concat (map (\<lambda>t. binary_bytes (sf_topic t) @ [sf_subscription_options t]) ts))"
    unfolding write_subscription_filters.simps write_string_def write_u8_def
    by (intro writes_thn writes_binary writes_slice)
  then show ?case by simp
qed (simp add: writes_ret)

end

context byte_store
begin

lemma rd_one:
  assumes "bytes s = b # rest" and "fits s j"
  obtains s' where "rd 1 s = (Ok [b], s')" "bytes s' = rest" "fits s' j"
proof -
  obtain bs s' where s': "rd 1 s = (Ok bs, s')" "bs \<noteq> []" "length bs \<le> 1" "bytes s = bs @ bytes s'"
    using rd_ok [of 1 s] assms(1) by auto
  then have "bs = [b]" "bytes s' = rest" using assms(1) by (cases bs; simp)+
  then show ?thesis using that s' rd_fits [OF s'(1) assms(2)] by blast
qed

lemma reads_vbi_loop:
  "length buf + length (vbi_bytes y) \<le> 4 \<Longrightarrow> from_slice_unchecked (buf @ vbi_bytes y) = Some v
   \<Longrightarrow> reads (read_vbi_loop rd buf) (vbi_bytes y) 0 v"
proof (induction y arbitrary: buf rule: vbi_bytes.induct)
  case (1 y)
  show ?case
  proof (rule readsI)
    fix s rest j
    assume b: "bytes s = vbi_bytes y @ rest" and f: "fits s (0 + j)"
    show "\<exists>s'. read_vbi_loop rd buf s = (Ok v, s') \<and> bytes s' = rest \<and> fits s' j"
    proof (cases "y div 128 = 0")
      case True
      then have e: "vbi_bytes y = [ucast (y mod 128)]" by (simp add: vbi_bytes.simps)
      obtain s' where "rd 1 s = (Ok [ucast (y mod 128)], s')" "bytes s' = rest" "fits s' j"
        using rd_one [of s "ucast (y mod 128)" rest j] b e f by auto
      then show ?thesis
        using e "1.prems" vbi_group(3) [of y]
        by (subst read_vbi_loop.simps) (simp add: continuation_iff)
    next
      case False
      let ?b = "ucast (y mod 128) OR 128 :: u8"
      have e: "vbi_bytes y = ?b # vbi_bytes (y div 128)" using False by (simp add: vbi_bytes.simps)
      obtain s1 where s1: "rd 1 s = (Ok [?b], s1)" "bytes s1 = vbi_bytes (y div 128) @ rest"
          "fits s1 j"
        using rd_one [of s ?b _ j] b e f by auto
      have len: "length buf + 1 + length (vbi_bytes (y div 128)) \<le> 4" using "1.prems"(1) e by simp
      moreover have "0 < length (vbi_bytes (y div 128))" by simp
      ultimately have short: "length buf < 3" by linarith
      have "reads (read_vbi_loop rd (buf @ [?b])) (vbi_bytes (y div 128)) 0 v"
        using "1.IH" [OF False, of "buf @ [?b]"] "1.prems" e len by simp
      then obtain s2 where "read_vbi_loop rd (buf @ [?b]) s1 = (Ok v, s2)" "bytes s2 = rest" "fits s2 j"
        using s1 unfolding reads_def by fastforce
      then show ?thesis
        using s1 short vbi_group(4) [of y]
        by (subst read_vbi_loop.simps) (simp add: continuation_iff)
    qed
  qed
qed

lemma reads_vbi: "x \<le> MAX_ENCODABLE \<Longrightarrow> reads (read_vbi rd) (vbi_bytes x) 0 (VarByteInt x)"
proof -
  assume x: "x \<le> MAX_ENCODABLE"
  then have "length (vbi_bytes x) \<le> 4"
    by (simp add: length_vbi_bytes MAX_ENCODABLE_def word_le_nat_alt)
  then show ?thesis
    unfolding read_vbi_def using reads_vbi_loop [of "[]" x] from_slice_vbi_bytes [OF x] by simp
qed

lemma reads_u8: "reads (read_u8 rd) [b] 0 b"
  unfolding read_u8_def by (rule reads_bnd_ret [OF reads_array [of "[b]", unfolded list.size add_0 Suc_eq_plus1]]) simp

lemma reads_u16: "reads (read_u16 rd) (u16_to_be_bytes v) 0 v"
  unfolding read_u16_def
  by (rule reads_bnd_ret [OF reads_array [of "u16_to_be_bytes v", unfolded length_be_bytes list.size]]) simp

lemma reads_u32: "reads (read_u32 rd) (u32_to_be_bytes v) 0 v"
  unfolding read_u32_def
  by (rule reads_bnd_ret [OF reads_array [of "u32_to_be_bytes v", unfolded length_be_bytes list.size]]) simp

lemma reads_pid: "pid_valid p \<Longrightarrow> reads (read_pid rd) (u16_to_be_bytes p) 0 p"
  unfolding read_pid_def by (rule reads_bnd_ret [OF reads_u16]) (simp add: nonzero_def pid_valid_def)

lemma reads_nonzero_u16: "v \<noteq> 0 \<Longrightarrow> reads (read_nonzero_u16 rd) (u16_to_be_bytes v) 0 v"
  unfolding read_nonzero_u16_def by (rule reads_bnd_ret [OF reads_u16]) (simp add: nonzero_def)

lemma reads_nonzero_u32: "v \<noteq> 0 \<Longrightarrow> reads (read_nonzero_u32 rd) (u32_to_be_bytes v) 0 v"
  unfolding read_nonzero_u32_def by (rule reads_bnd_ret [OF reads_u32]) (simp add: nonzero_def)

lemma reads_bool: "reads (read_bool rd) [bool_byte b] 0 b"
  unfolding read_bool_def by (rule reads_bnd_ret [OF reads_u8]) (simp add: bool_byte_def)

lemma reads_reason_code: "reads (read_reason_code rd) [rc_value c] 0 c"
  unfolding read_reason_code_def by (rule reads_bnd_ret [OF reads_u8]) simp

lemma reads_binary:
  assumes "length b \<le> MAX_LENGTH"
  shows "reads (read_binary rd st) (binary_bytes b) (length b) b"
proof -
  have "unat (binary_len b) = length b"
    using assms by (simp add: binary_len_def MAX_LENGTH_def unat_of_nat)
  then show ?thesis
    unfolding read_binary_def binary_bytes_def
    using reads_bnd [OF reads_u16 [of "binary_len b"], where f = "\<lambda>len. st (unat len)" and l = "length b"]
      reads_store [of b] by simp
qed

lemma reads_string: "string_ok s \<Longrightarrow> reads (read_string rd st) (binary_bytes s) (length s) s"
  unfolding read_string_def
  by (rule reads_bnd_ret [OF reads_binary])
     (auto simp: string_ok_def from_utf8_binary_def contains_null_iff)

lemma reads_string_pair:
  "string_pair_ok p \<Longrightarrow> reads (read_string_pair rd st) (string_pair_bytes p)
     (length (pair_name p) + length (pair_value p)) p"
  unfolding read_string_pair_def string_pair_bytes_def string_pair_ok_def
  by (rule reads_bnd, rule reads_string, simp, rule reads_bnd_ret, rule reads_string)
     (cases p; simp)+

lemma reads_topic_name:
  "string_ok s \<Longrightarrow> topic_name_is_valid s
   \<Longrightarrow> reads (read_topic_name rd st) (binary_bytes s) (length s) s"
  unfolding read_topic_name_def
  by (rule reads_bnd_ret [OF reads_string]) (simp_all add: topic_name_new_def)

end

end
