(* ===== verification/Mqtt_Transport.thy ===== *)
theory Mqtt_Transport
  imports Mqtt_Codec
begin

text \<open>
  The instances of the contracts of \<open>Mqtt_Codec\<close>: the slice reader and writer of \<open>src/test/read.rs\<close>
  and \<open>src/test/write.rs\<close>, the bump and heap buffers of \<open>src/buffer.rs\<close>, and the body reader of
  \<open>src/io/read.rs\<close> over any transport and any provider; and the round trips of the scalar types.
\<close>

section \<open>Slice reader and writer\<close>

record slice_reader =
  sr_slice :: "u8 list"
  sr_index :: nat

definition slice_reader_new :: "u8 list \<Rightarrow> slice_reader" where
  "slice_reader_new bs = \<lparr>sr_slice = bs, sr_index = 0\<rparr>"

definition slice_read :: "(slice_reader, 'e) reader" where
  "slice_read n s =
     (if length (sr_slice s) < sr_index s then (Panic, s)
      else
        let left = length (sr_slice s) - sr_index s;
            reading = min left n;
            src = take reading (drop (sr_index s) (sr_slice s))
        in (Ok src, s\<lparr>sr_index := sr_index s + reading\<rparr>))"

definition slice_bytes :: "slice_reader \<Rightarrow> u8 list" where
  "slice_bytes s = drop (sr_index s) (sr_slice s)"

record slice_writer =
  sw_slice :: "u8 list"
  sw_index :: nat

definition slice_writer_new :: "u8 list \<Rightarrow> slice_writer" where
  "slice_writer_new bs = \<lparr>sw_slice = bs, sw_index = 0\<rparr>"

definition slice_write :: "(slice_writer, 'e) writer" where
  "slice_write bs w =
     (let left = length (sw_slice w) - sw_index w;
          writing = min left (length bs);
          en = sw_index w + writing
      in if writing = 0 then (Ok 0, w)
         else (Ok writing,
           w\<lparr>sw_slice := take (sw_index w) (sw_slice w) @ take writing bs @ drop en (sw_slice w),
             sw_index := en\<rparr>))"

definition slice_written :: "slice_writer \<Rightarrow> nat" where
  "slice_written w = sw_index w"

definition slice_out :: "slice_writer \<Rightarrow> u8 list" where
  "slice_out w = take (sw_index w) (sw_slice w)"

definition slice_room :: "slice_writer \<Rightarrow> nat \<Rightarrow> bool" where
  "slice_room w n \<longleftrightarrow> sw_index w + n \<le> length (sw_slice w)"

interpretation slice: byte_source slice_read slice_bytes
proof
  fix n :: nat and s
  assume n: "0 < n" and b: "slice_bytes s \<noteq> []"
  then have i: "sr_index s < length (sr_slice s)" by (simp add: slice_bytes_def)
  let ?k = "min (length (sr_slice s) - sr_index s) n"
  have "slice_bytes s = take ?k (slice_bytes s) @ slice_bytes (s\<lparr>sr_index := sr_index s + ?k\<rparr>)"
    using append_take_drop_id [of ?k "slice_bytes s"] by (simp add: slice_bytes_def add.commute)
  then show "\<exists>bs s'. slice_read n s = (Ok bs, s') \<and> bs \<noteq> [] \<and> length bs \<le> n
      \<and> slice_bytes s = bs @ slice_bytes s'"
    using i n by (auto simp: slice_read_def slice_bytes_def Let_def)
qed

interpretation slice_out: byte_sink slice_write slice_out slice_room
proof
  fix bs :: "u8 list" and w k
  assume b: "bs \<noteq> []" and r: "slice_room w (length bs + k)"
  then have m: "min (length (sw_slice w) - sw_index w) (length bs) = length bs"
    by (simp add: slice_room_def)
  let ?w = "w\<lparr>sw_slice := take (sw_index w) (sw_slice w) @ bs
       @ drop (sw_index w + length bs) (sw_slice w), sw_index := sw_index w + length bs\<rparr>"
  have "slice_write bs w = (Ok (length bs), ?w)"
    using b m by (simp add: slice_write_def Let_def)
  moreover have "slice_out ?w = slice_out w @ bs" "slice_room ?w k"
    using r by (simp_all add: slice_out_def slice_room_def)
  ultimately show "\<exists>n w'. slice_write bs w = (Ok n, w') \<and> 0 < n \<and> n \<le> length bs
      \<and> slice_out w' = slice_out w @ take n bs \<and> slice_room w' (length bs - n + k)"
    using b by (intro exI [of _ "length bs"] exI [of _ ?w]) simp
qed

interpretation slice_stream: byte_stream slice_read slice_bytes
proof
  fix n s and bs :: "u8 list" and s'
  assume run: "slice_read n s = (Ok bs, s')"
  let ?k = "min (length (sr_slice s) - sr_index s) n"
  have "slice_bytes s = take ?k (slice_bytes s) @ slice_bytes (s\<lparr>sr_index := sr_index s + ?k\<rparr>)"
    using append_take_drop_id [of ?k "slice_bytes s"] by (simp add: slice_bytes_def add.commute)
  moreover have "bs = take ?k (slice_bytes s)" "s' = s\<lparr>sr_index := sr_index s + ?k\<rparr>"
    using run by (auto simp: slice_read_def slice_bytes_def Let_def split: if_splits)
  ultimately show "slice_bytes s = bs @ slice_bytes s' \<and> length bs \<le> n" by simp
qed (auto simp: slice_read_def Let_def split: if_splits)

section \<open>Buffer providers\<close>

locale buffer_provider =
  fixes pb :: "nat \<Rightarrow> ('b, 'p, 'm) comp" and free :: "'b \<Rightarrow> nat \<Rightarrow> bool"
  assumes pb_ok: "free b (n + k) \<Longrightarrow> \<exists>m b'. pb n b = (Ok m, b') \<and> free b' k"

interpretation bump: buffer_provider bump_provide "\<lambda>b n. n \<le> bump_remaining_len b"
  by unfold_locales (auto simp: bump_provide_def bump_remaining_len_def)

interpretation alloc: buffer_provider alloc_provide "\<lambda>b n. True"
  by unfold_locales (auto simp: alloc_provide_def)

section \<open>The body reader\<close>

locale packet_body = byte_source rd bytes + byte_stream rd bytes + buffer_provider pb free
  for rd :: "('s, 'e) reader" and bytes and pb :: "nat \<Rightarrow> ('b, 'p, 'm) comp" and free +
  fixes tail :: "u8 list"

definition body_bytes :: "('s \<Rightarrow> u8 list) \<Rightarrow> ('s, 'b) body_reader \<Rightarrow> u8 list" where
  "body_bytes bytes r = take (br_remaining_len r) (bytes (br_r r))"

text \<open>
  The transport still holds the rest of the packet, behind it come the bytes \<open>tail\<close>, and the
  provider has memory left.
\<close>

definition body_fits ::
    "('s \<Rightarrow> u8 list) \<Rightarrow> ('b \<Rightarrow> nat \<Rightarrow> bool) \<Rightarrow> u8 list \<Rightarrow> ('s, 'b) body_reader \<Rightarrow> nat \<Rightarrow> bool"
  where
  "body_fits bytes free tail r k \<longleftrightarrow> br_remaining_len r \<le> length (bytes (br_r r))
     \<and> drop (br_remaining_len r) (bytes (br_r r)) = tail \<and> free (br_buffer r) k"

lemma body_remaining: "body_fits bytes free tail r k \<Longrightarrow> br_remaining_len r = length (body_bytes bytes r)"
  by (simp add: body_fits_def body_bytes_def)

sublocale packet_body \<subseteq> body_mem:
  byte_memory "body_read rd :: (('s, 'b) body_reader, ('e, 'p) body_read_error) reader" "body_bytes bytes" "body_fits bytes free tail"
proof
  fix n :: nat and r :: "('s, 'b) body_reader"
  assume n: "0 < n" and ne: "body_bytes bytes r \<noteq> []"
  let ?m = "br_remaining_len r"
  have m: "0 < ?m" and b: "bytes (br_r r) \<noteq> []" using ne by (auto simp: body_bytes_def)
  obtain bs s' where s': "rd (min n ?m) (br_r r) = (Ok bs, s')" "bs \<noteq> []" "length bs \<le> min n ?m"
      "bytes (br_r r) = bs @ bytes s'"
    using rd_ok [of "min n ?m" "br_r r"] n m b by auto
  then show "\<exists>bs r'. body_read rd n r = (Ok bs, r') \<and> bs \<noteq> [] \<and> length bs \<le> n
      \<and> body_bytes bytes r = bs @ body_bytes bytes r'"
    using m
    by (intro exI [of _ bs] exI [of _ "r\<lparr>br_r := s', br_remaining_len := ?m - length bs\<rparr>"])
       (simp add: body_read_def body_bytes_def)
next
  fix n r bs r' k
  assume run: "body_read rd n r = (Ok bs, r')" and f: "body_fits bytes free tail r k"
  from run obtain s' where "rd (min n (br_remaining_len r)) (br_r r) = (Ok bs, s')"
      "r' = r\<lparr>br_r := s', br_remaining_len := br_remaining_len r - length bs\<rparr>"
    by (auto simp: body_read_def split: if_splits prod.splits res.splits)
  then show "body_fits bytes free tail r' k" using f rd_Ok by (force simp: body_fits_def)
qed

sublocale packet_body \<subseteq> body: byte_store "body_read rd" "body_bytes bytes" "body_fits bytes free tail"
  "body_store rd pb"
proof
  fix n r k
  assume n: "n \<le> length (body_bytes bytes r)" and "body_fits bytes free tail r (n + k)"
  then obtain m b' where pb: "pb n (br_buffer r) = (Ok m, b')" and "free b' k"
    unfolding body_fits_def using pb_ok by blast
  let ?r = "r\<lparr>br_buffer := b'\<rparr>"
  have f: "body_fits bytes free tail ?r k"
    using \<open>free b' k\<close> \<open>body_fits bytes free tail r (n + k)\<close> by (simp add: body_fits_def)
  have b: "body_bytes bytes ?r = body_bytes bytes r" by (simp add: body_bytes_def)
  obtain r' where "fill (read_error_of_body :: ('e, 'p) body_read_error \<Rightarrow> _) (body_read rd) n ?r
        = (Ok (take n (body_bytes bytes r)), r')"
      "body_bytes bytes r' = drop n (body_bytes bytes r)" "body_fits bytes free tail r' k"
    using body_mem.fill_run [of n ?r k read_error_of_body] n f b by auto
  moreover have "\<not> br_remaining_len r < n" using n by (simp add: body_bytes_def)
  ultimately show "\<exists>r'. body_store rd pb n r = (Ok (take n (body_bytes bytes r)), r')
      \<and> body_bytes bytes r' = drop n (body_bytes bytes r) \<and> body_fits bytes free tail r' k"
    using pb by (auto simp: body_store_def)
qed

text \<open>The combinations that the tests of the repository run: a slice, read into a bump buffer or the heap.\<close>

interpretation slice_bump: packet_body slice_read slice_bytes bump_provide
  "\<lambda>b n. n \<le> bump_remaining_len b" tail for tail ..

interpretation slice_alloc: packet_body slice_read slice_bytes alloc_provide "\<lambda>b n. True" tail
  for tail ..

section \<open>Round trips of the scalar types\<close>

text \<open>C27: For every transport that takes at least one byte per call and every transport that delivers
  the bytes sent, in pieces of any size, a variable byte integer up to 268435455 is written
  completely, in \<open>written_len\<close> bytes, at most four, and reading those bytes back, within any longer
  input, gives the value and consumes exactly them.\<close>

theorem vbi_roundtrip:
  assumes "byte_sink wr out room" and "byte_store rd bytes fits st"
    and "x \<le> MAX_ENCODABLE" and "room w 4"
  shows "\<exists>w' bs. write_vbi wr (VarByteInt x) w = (Ok (), w') \<and> out w' = out w @ bs
     \<and> vbi_written_len (VarByteInt x) = Some (length bs) \<and> 1 \<le> length bs \<and> length bs \<le> 4
     \<and> (\<forall>s rest. bytes s = bs @ rest \<and> fits s 0 \<longrightarrow>
          (\<exists>s'. read_vbi rd s = (Ok (VarByteInt x), s') \<and> bytes s' = rest))"
proof -
  let ?bs = "vbi_bytes x"
  have len: "length ?bs \<le> 4"
    using assms(3) by (simp add: length_vbi_bytes MAX_ENCODABLE_def word_le_nat_alt)
  then have "room w (length ?bs + (4 - length ?bs))" using assms(4) by simp
  then obtain w' where "write_vbi wr (VarByteInt x) w = (Ok (), w')" "out w' = out w @ ?bs"
    using byte_sink.writesD [OF assms(1) byte_sink.writes_vbi [OF assms(1)], of w "VarByteInt x"]
    by auto
  moreover have "\<exists>s'. read_vbi rd s = (Ok (VarByteInt x), s') \<and> bytes s' = rest"
    if "bytes s = ?bs @ rest" and "fits s 0" for s rest
    using byte_store.readsD [OF assms(2) byte_store.reads_vbi [OF assms(2,3)] that(1), of 0] that(2)
    by auto
  moreover have "1 \<le> length ?bs" by (simp add: Suc_leI)
  ultimately show ?thesis using len assms(3) vbi_written_len_bytes [of x] by auto
qed

theorem vbi_roundtrip_witness:
  "\<exists>w' bs. write_vbi slice_write (VarByteInt 200) (slice_writer_new (replicate 8 0)) = (Ok (), w')
     \<and> slice_out w' = slice_out (slice_writer_new (replicate 8 0)) @ bs
     \<and> vbi_written_len (VarByteInt 200) = Some (length bs) \<and> 1 \<le> length bs \<and> length bs \<le> 4
     \<and> (\<forall>s rest. body_bytes slice_bytes s = bs @ rest \<and> body_fits slice_bytes (\<lambda>b n. True) [] s 0 \<longrightarrow>
          (\<exists>s'. read_vbi (body_read slice_read) s
                  = (Ok (VarByteInt 200) :: ((unit, unit) body_read_error read_error, _) res, s')
              \<and> body_bytes slice_bytes (s' :: (_, unit) body_reader) = rest))"
  by (rule vbi_roundtrip [OF slice_out.byte_sink_axioms slice_alloc.body.byte_store_axioms])
     (simp_all add: MAX_ENCODABLE_def slice_room_def slice_writer_new_def)

text \<open>A string of at most 65535 bytes, valid UTF-8 and without null character, is written in
  \<open>written_len\<close> bytes and read back unchanged over every such transport, whenever the provider has
  memory for it.\<close>

theorem string_roundtrip:
  assumes "byte_sink wr out room" and "byte_store rd bytes fits st"
    and "string_ok str" and "room w (string_written_len str)"
  shows "\<exists>w' bs. write_string wr str w = (Ok (), w') \<and> out w' = out w @ bs
     \<and> length bs = string_written_len str
     \<and> (\<forall>s rest. bytes s = bs @ rest \<and> fits s (length str) \<longrightarrow>
          (\<exists>s'. read_string rd st s = (Ok str, s') \<and> bytes s' = rest))"
proof -
  let ?bs = "binary_bytes str"
  have "room w (length ?bs + 0)" using assms(4) by (simp add: string_written_len_def)
  then obtain w' where "write_string wr str w = (Ok (), w')" "out w' = out w @ ?bs"
    using byte_sink.writesD [OF assms(1) byte_sink.writes_binary [OF assms(1)], of w str]
    unfolding write_string_def by blast
  moreover have "\<exists>s'. read_string rd st s = (Ok str, s') \<and> bytes s' = rest"
    if "bytes s = ?bs @ rest" and "fits s (length str)" for s rest
    using byte_store.readsD [OF assms(2) byte_store.reads_string [OF assms(2,3)] that(1), of 0] that(2)
    by auto
  ultimately show ?thesis by (auto simp: string_written_len_def)
qed

theorem string_roundtrip_witness:
  "\<exists>w' bs. write_string slice_write [0x68, 0xC3, 0xA9] (slice_writer_new (replicate 8 0)) = (Ok (), w')
     \<and> slice_out w' = slice_out (slice_writer_new (replicate 8 0)) @ bs
     \<and> length bs = string_written_len [0x68, 0xC3, 0xA9]
     \<and> (\<forall>s rest. body_bytes slice_bytes s = bs @ rest
              \<and> body_fits slice_bytes (\<lambda>b n. n \<le> bump_remaining_len b) [] s
                  (length [0x68, 0xC3, 0xA9 :: u8]) \<longrightarrow>
          (\<exists>s'. read_string (body_read slice_read) (body_store slice_read bump_provide) s
                  = (Ok [0x68, 0xC3, 0xA9]
                     :: ((unit, insufficient_space) body_read_error read_error, _) res, s')
              \<and> body_bytes slice_bytes s' = rest))"
  by (rule string_roundtrip [OF slice_out.byte_sink_axioms slice_bump.body.byte_store_axioms])
     (simp_all add: string_ok_def MAX_LENGTH_def slice_room_def slice_writer_new_def
        string_written_len_def binary_written_len_def utf8_cont_def)

end
