(* ===== verification/Mqtt_Frame.thy ===== *)
theory Mqtt_Frame
  imports Mqtt_Transport
begin

text \<open>
  What no reader of the library does, whatever the input is: read past the end of its packet. A
  computation \<^emph>\<open>keeps\<close> a relation when the states before and after every run are related, however the
  run ends. Readers keep every preorder that the transport calls they are made of keep; the body
  reader of \<open>src/io/read.rs\<close> keeps its budget of remaining bytes.
\<close>

section \<open>Computations that keep a preorder\<close>

locale frame =
  fixes R :: "'s \<Rightarrow> 's \<Rightarrow> bool"
  assumes R_refl: "R s s" and R_trans: "R s t \<Longrightarrow> R t u \<Longrightarrow> R s u"
begin

definition keeps :: "('s, 'e, 'a) comp \<Rightarrow> bool" where
  "keeps m \<longleftrightarrow> (\<forall>s x s'. m s = (x, s') \<longrightarrow> R s s')"

lemma keepsI: "(\<And>s x s'. m s = (x, s') \<Longrightarrow> R s s') \<Longrightarrow> keeps m"
  by (auto simp: keeps_def)

lemma keepsD: "keeps m \<Longrightarrow> m s = (x, s') \<Longrightarrow> R s s'"
  by (auto simp: keeps_def)

lemma keeps_ret [intro, simp]: "keeps (ret a)"
  by (auto simp: keeps_def run_simps R_refl)

lemma keeps_fail [intro, simp]: "keeps (fail e)"
  by (auto simp: keeps_def run_simps R_refl)

lemma keeps_crash [intro, simp]: "keeps crash"
  by (auto simp: keeps_def run_simps R_refl)

lemma keeps_ok_or [intro, simp]: "keeps (ok_or e x)"
  by (cases x) auto

lemma keeps_bnd [intro]: "keeps m \<Longrightarrow> (\<And>a. keeps (f a)) \<Longrightarrow> keeps (bnd m f)"
  unfolding keeps_def bnd_def by (auto split: prod.splits res.splits) (meson R_trans)

lemma keeps_map_err [intro]: "keeps m \<Longrightarrow> keeps (map_err f m)"
  by (auto simp: keeps_def map_err_def split: prod.splits res.splits)

lemma keeps_if [intro]: "(c \<Longrightarrow> keeps m) \<Longrightarrow> (\<not> c \<Longrightarrow> keeps n) \<Longrightarrow> keeps (if c then m else n)"
  by simp

lemma keeps_case_option [intro]:
  "keeps m \<Longrightarrow> (\<And>v. keeps (f v)) \<Longrightarrow> keeps (case x of None \<Rightarrow> m | Some v \<Rightarrow> f v)"
  by (cases x) simp_all

lemma keeps_fill:
  assumes rd: "\<And>n. keeps (rd n)"
  shows "keeps (fill conv rd n)"
proof (induction n rule: less_induct)
  case (less n)
  show ?case
  proof (rule keepsI)
    fix s x s'
    assume run: "fill conv rd n s = (x, s')"
    show "R s s'"
    proof (cases "n = 0")
      case True
      then show ?thesis using run R_refl by (simp add: fill.simps)
    next
      case False
      obtain r s1 where r: "rd n s = (r, s1)" by fastforce
      have R1: "R s s1" using keepsD [OF rd r] .
      show ?thesis
      proof (cases "\<exists>bs. r = Ok bs \<and> bs \<noteq> [] \<and> length bs \<le> n")
        case True
        then obtain bs where bs: "r = Ok bs" "bs \<noteq> []" "length bs \<le> n" by blast
        have "keeps (bnd (fill conv rd (n - length bs)) (\<lambda>more. ret (bs @ more)))"
          using less.IH [of "n - length bs"] bs False by auto
        moreover have "bnd (fill conv rd (n - length bs)) (\<lambda>more. ret (bs @ more)) s1 = (x, s')"
          using run r bs False by (subst (asm) fill.simps) (simp add: not_less)
        ultimately show ?thesis using R1 R_trans keepsD by blast
      next
        case nb: False
        then have "s' = s1"
          using run r False by (subst (asm) fill.simps) (cases r; auto split: if_splits)
        then show ?thesis using R1 by simp
      qed
    qed
  qed
qed

lemma keeps_vbi_loop:
  assumes rd: "\<And>n. keeps (rd n)"
  shows "keeps (read_vbi_loop rd buf)"
proof (induction "4 - length buf" arbitrary: buf rule: less_induct)
  case less
  show ?case
  proof (rule keepsI)
    fix s x s'
    assume run: "read_vbi_loop rd buf s = (x, s')"
    obtain r s1 where r: "rd 1 s = (r, s1)" by fastforce
    have R1: "R s s1" using keepsD [OF rd r] .
    show "R s s'"
    proof (cases "\<exists>b. r = Ok [b] \<and> b \<ge> 128 \<and> length buf < 3")
      case True
      then obtain b where b: "r = Ok [b]" "b \<ge> 128" "length buf < 3" by blast
      have "keeps (read_vbi_loop rd (buf @ [b]))"
        using less [of "buf @ [b]"] b(3) by simp
      moreover have "read_vbi_loop rd (buf @ [b]) s1 = (x, s')"
        using run r b by (subst (asm) read_vbi_loop.simps) simp
      ultimately show ?thesis using R1 R_trans keepsD by blast
    next
      case False
      then have "s' = s1 \<or> s' = s"
        using run r by (subst (asm) read_vbi_loop.simps)
          (auto split: res.splits list.splits if_splits option.splits)
      then show ?thesis using R1 R_refl by auto
    qed
  qed
qed

end

text \<open>The readers of the library over a transport and a store that keep the relation.\<close>

locale reader_frame = frame R
  for R :: "'s \<Rightarrow> 's \<Rightarrow> bool" +
  fixes rd :: "('s, 'e) reader" and st :: "('s, 'e) store"
  assumes rd_keeps: "keeps (rd n)" and st_keeps: "keeps (st n)"
begin

lemma keeps_read_array [intro, simp]: "keeps (read_array rd n)"
  unfolding read_array_def by (rule keeps_fill) (rule rd_keeps)

lemma keeps_read_u8 [intro, simp]: "keeps (read_u8 rd)"
  unfolding read_u8_def by auto

lemma keeps_read_u16 [intro, simp]: "keeps (read_u16 rd)"
  unfolding read_u16_def by auto

lemma keeps_read_u32 [intro, simp]: "keeps (read_u32 rd)"
  unfolding read_u32_def by auto

lemma keeps_read_nonzero [intro, simp]: "keeps (read_nonzero_u16 rd)" "keeps (read_nonzero_u32 rd)"
  unfolding read_nonzero_u16_def read_nonzero_u32_def by auto

lemma keeps_read_pid [intro, simp]: "keeps (read_pid rd)"
  unfolding read_pid_def by auto

lemma keeps_read_bool [intro, simp]: "keeps (read_bool rd)"
  unfolding read_bool_def by auto

lemma keeps_read_reason_code [intro, simp]: "keeps (read_reason_code rd)"
  unfolding read_reason_code_def by auto

lemma keeps_read_vbi [intro, simp]: "keeps (read_vbi rd)"
  unfolding read_vbi_def by (rule keeps_vbi_loop) (rule rd_keeps)

lemma keeps_read_binary [intro, simp]: "keeps (read_binary rd st)"
  unfolding read_binary_def by (auto intro: st_keeps)

lemma keeps_read_string [intro, simp]: "keeps (read_string rd st)"
  unfolding read_string_def by (auto split: sum.splits)

lemma keeps_read_string_pair [intro, simp]: "keeps (read_string_pair rd st)"
  unfolding read_string_pair_def by auto

lemma keeps_read_topic_name [intro, simp]: "keeps (read_topic_name rd st)"
  unfolding read_topic_name_def by auto

end

section \<open>The budget of the body reader\<close>

text \<open>
  From \<open>r\<close> to \<open>r'\<close> the transport gave up some bytes, and the remaining length went down by at least
  as many.
\<close>

definition within_body ::
    "('s \<Rightarrow> u8 list) \<Rightarrow> ('s, 'b) body_reader \<Rightarrow> ('s, 'b) body_reader \<Rightarrow> bool" where
  "within_body bytes r r' \<longleftrightarrow> (\<exists>c. bytes (br_r r) = c @ bytes (br_r r')
     \<and> length c + br_remaining_len r' \<le> br_remaining_len r)"

lemma within_body_refl: "within_body bytes r r"
  by (simp add: within_body_def)

lemma within_body_trans:
  assumes "within_body bytes r s" and "within_body bytes s t"
  shows "within_body bytes r t"
proof -
  obtain c d where "bytes (br_r r) = c @ bytes (br_r s)" "length c + br_remaining_len s \<le> br_remaining_len r"
    "bytes (br_r s) = d @ bytes (br_r t)" "length d + br_remaining_len t \<le> br_remaining_len s"
    using assms unfolding within_body_def by blast
  then show ?thesis unfolding within_body_def by (intro exI [of _ "c @ d"]) simp
qed

interpretation body_budget: frame "within_body bytes" for bytes
  by unfold_locales (fact within_body_refl, fact within_body_trans)

context byte_stream
begin

lemma body_read_within: "body_read rd n r = (x, r') \<Longrightarrow> within_body bytes r r'"
proof -
  assume run: "body_read rd n r = (x, r')"
  show ?thesis
  proof (cases "n \<noteq> 0 \<and> br_remaining_len r = 0")
    case True
    then show ?thesis using run by (simp add: body_read_def within_body_refl)
  next
    case False
    obtain y s' where y: "rd (min n (br_remaining_len r)) (br_r r) = (y, s')" by fastforce
    show ?thesis
    proof (cases y)
      case (Ok bs)
      then have "bytes (br_r r) = bs @ bytes s'" "length bs \<le> br_remaining_len r"
        using rd_Ok y by fastforce+
      moreover have "r' = r\<lparr>br_r := s', br_remaining_len := br_remaining_len r - length bs\<rparr>"
        using run False y Ok calculation(2) by (auto simp: body_read_def split: if_splits)
      ultimately show ?thesis by (auto simp: within_body_def)
    next
      case (Err e)
      then have "r' = r\<lparr>br_r := s'\<rparr>" "bytes s' = bytes (br_r r)"
        using run False y rd_Err by (auto simp: body_read_def split: if_splits)
      then show ?thesis by (simp add: within_body_def)
    next
      case Panic
      then have "r' = r\<lparr>br_r := s'\<rparr>" "bytes s' = bytes (br_r r)"
        using run False y rd_Panic by (auto simp: body_read_def split: if_splits)
      then show ?thesis by (simp add: within_body_def)
    qed
  qed
qed

lemma body_fill_within: "fill conv (body_read rd) n r = (x, r') \<Longrightarrow> within_body bytes r r'"
  using body_budget.keeps_fill [of bytes "body_read rd" conv n] body_read_within
  unfolding body_budget.keeps_def by blast

lemma body_store_within:
  fixes x :: "(('e, 'p) body_read_error read_error, u8 list) res"
  assumes run: "body_store rd pb n r = (x, r')"
  shows "within_body bytes r r'"
proof -
  obtain p b' where p: "pb n (br_buffer r) = (p, b')" by fastforce
  have eq: "within_body bytes (r\<lparr>br_buffer := b'\<rparr>) r' \<longleftrightarrow> within_body bytes r r'"
    by (simp add: within_body_def)
  show ?thesis
  proof (cases "br_remaining_len r < n")
    case True
    then show ?thesis using run by (simp add: body_store_def within_body_refl)
  next
    case False
    then have "r' = r\<lparr>br_buffer := b'\<rparr> \<or>
        fill read_error_of_body (body_read rd) n (r\<lparr>br_buffer := b'\<rparr>) = (x, r')"
      using run p by (cases p) (auto simp: body_store_def)
    then show ?thesis
      using body_fill_within eq within_body_refl by (metis (no_types, lifting))
  qed
qed

lemma skip_loop_takes:
  "skip_loop rd n s = (x, s') \<Longrightarrow> \<exists>c. bytes s = c @ bytes s' \<and> length c \<le> n"
proof (induction n arbitrary: s x rule: less_induct)
  case (less n)
  show ?case
  proof (cases "n = 0")
    case True
    then show ?thesis using less.prems by (simp add: skip_loop.simps)
  next
    case False
    obtain y s1 where y: "rd (min CHUNK_SIZE n) s = (y, s1)" by fastforce
    show ?thesis
    proof (cases y)
      case (Ok bs)
      then have b: "bytes s = bs @ bytes s1" "length bs \<le> n" using rd_Ok y by fastforce+
      show ?thesis
      proof (cases "bs = []")
        case True
        then show ?thesis using less.prems False y Ok b
          by (subst (asm) skip_loop.simps) auto
      next
        case nb: False
        then have "skip_loop rd (n - length bs) s1 = (x, s')"
          using less.prems False y Ok b by (subst (asm) skip_loop.simps) simp
        from less.IH [OF _ this] obtain c where "bytes s1 = c @ bytes s'" "length c \<le> n - length bs"
          using nb False by auto
        then show ?thesis using b by (intro exI [of _ "bs @ c"]) simp
      qed
    next
      case (Err e)
      then show ?thesis using less.prems False y rd_Err [of "min CHUNK_SIZE n" s e s1]
        by (subst (asm) skip_loop.simps) auto
    next
      case Panic
      then show ?thesis using less.prems False y rd_Panic [of "min CHUNK_SIZE n" s s1]
        by (subst (asm) skip_loop.simps) auto
    qed
  qed
qed

lemma body_skip_within:
  fixes x :: "(('e, 'p) body_read_error, unit) res"
  assumes run: "body_skip rd n r = (x, r')"
  shows "within_body bytes r r'"
proof -
  show ?thesis
  proof (cases "br_remaining_len r < n")
    case True
    then show ?thesis using run by (simp add: body_skip_def within_body_refl)
  next
    case False
    obtain y :: "(('e, 'p) body_read_error, unit) res" and s'
      where y: "skip_loop rd n (br_r r) = (y, s')" by fastforce
    then have "r' = r\<lparr>br_r := s', br_remaining_len := br_remaining_len r - n\<rparr>"
      using run False by (simp add: body_skip_def)
    then show ?thesis using skip_loop_takes [OF y] False by (auto simp: within_body_def)
  qed
qed

end

sublocale byte_stream \<subseteq> body: reader_frame "within_body bytes" "body_read rd" "body_store rd pb" for pb
proof unfold_locales
  show "body_budget.keeps bytes (body_read rd n)" for n
    by (rule body_budget.keepsI) (rule body_read_within)
  show "body_budget.keeps bytes (body_store rd pb n)" for n
    by (rule body_budget.keepsI) (rule body_store_within)
qed

end
