(* ===== verification/Mqtt_Property.thy ===== *)
theory Mqtt_Property
  imports Mqtt_Frame
begin

unbundle bit_operations_syntax

text \<open>
  Properties and the parts that all packets share: \<open>src/v5/property\<close>, the configuration values of
  \<open>src/config\<close> that are properties, \<open>src/packet/rx.rs\<close>, \<open>src/packet/tx.rs\<close> and the writer of the
  fixed header in \<open>src/header.rs\<close>. The newtypes that the macro \<open>property!\<close> generates add the
  identifier in front of the content when written, and nothing when read; here a property is its
  content, and \<open>write_prop\<close> and \<open>prop_len\<close> add the identifier.

  Lengths are natural numbers (\<open>usize\<close>); \<open>as u32\<close> truncates.
\<close>

section \<open>Errors of sending and receiving\<close>

datatype ('e, 'p) rx_error =
    RxRead 'e
  | RxBuffer 'p
  | RxUnexpectedEOF
  | RxMalformedPacket
  | RxProtocolError
  | RxInvalidTopicName

datatype 'e tx_error = TxWrite 'e | TxWriteZero

fun rx_of_body :: "('e, 'p) body_read_error \<Rightarrow> ('e, 'p) rx_error" where
  "rx_of_body (BrRead e) = RxRead e"
| "rx_of_body (BrBuffer b) = RxBuffer b"
| "rx_of_body BrUnexpectedEOF = RxUnexpectedEOF"
| "rx_of_body BrInsufficientRemainingLen = RxMalformedPacket"
| "rx_of_body BrMalformedPacket = RxMalformedPacket"
| "rx_of_body BrProtocolError = RxProtocolError"
| "rx_of_body BrInvalidTopicName = RxInvalidTopicName"

fun rx_of_body_read :: "('e, 'p) body_read_error read_error \<Rightarrow> ('e, 'p) rx_error" where
  "rx_of_body_read (ReRead e) = rx_of_body e"
| "rx_of_body_read ReUnexpectedEOF = RxUnexpectedEOF"
| "rx_of_body_read ReMalformedPacket = RxMalformedPacket"
| "rx_of_body_read ReProtocolError = RxProtocolError"
| "rx_of_body_read ReInvalidTopicName = RxInvalidTopicName"

fun rx_of_read :: "'e read_error \<Rightarrow> ('e, 'p) rx_error" where
  "rx_of_read (ReRead e) = RxRead e"
| "rx_of_read ReUnexpectedEOF = RxUnexpectedEOF"
| "rx_of_read ReMalformedPacket = RxMalformedPacket"
| "rx_of_read ReProtocolError = RxProtocolError"
| "rx_of_read ReInvalidTopicName = RxInvalidTopicName"

datatype 'e at_most_once_error = AmRead 'e | AmAlreadySet

fun rx_of_at_most_once ::
    "('e, 'p) body_read_error read_error at_most_once_error \<Rightarrow> ('e, 'p) rx_error" where
  "rx_of_at_most_once (AmRead e) = rx_of_body_read e"
| "rx_of_at_most_once AmAlreadySet = RxProtocolError"

fun tx_of_write :: "'e write_error \<Rightarrow> 'e tx_error" where
  "tx_of_write (WrWrite e) = TxWrite e"
| "tx_of_write WriteZero = TxWriteZero"

section \<open>Property types\<close>

datatype property_type =
    PrPayloadFormatIndicator
  | PrMessageExpiryInterval
  | PrContentType
  | PrResponseTopic
  | PrCorrelationData
  | PrSubscriptionIdentifier
  | PrSessionExpiryInterval
  | PrAssignedClientIdentifier
  | PrServerKeepAlive
  | PrAuthenticationMethod
  | PrAuthenticationData
  | PrRequestProblemInformation
  | PrWillDelayInterval
  | PrRequestResponseInformation
  | PrResponseInformation
  | PrServerReference
  | PrReasonString
  | PrReceiveMaximum
  | PrTopicAliasMaximum
  | PrTopicAlias
  | PrMaximumQoS
  | PrRetainAvailable
  | PrUserProperty
  | PrMaximumPacketSize
  | PrWildcardSubscriptionAvailable
  | PrSubscriptionIdentifierAvailable
  | PrSharedSubscriptionAvailable

primrec property_identifier :: "property_type \<Rightarrow> u8" where
  "property_identifier PrPayloadFormatIndicator = 0x01"
| "property_identifier PrMessageExpiryInterval = 0x02"
| "property_identifier PrContentType = 0x03"
| "property_identifier PrResponseTopic = 0x08"
| "property_identifier PrCorrelationData = 0x09"
| "property_identifier PrSubscriptionIdentifier = 0x0B"
| "property_identifier PrSessionExpiryInterval = 0x11"
| "property_identifier PrAssignedClientIdentifier = 0x12"
| "property_identifier PrServerKeepAlive = 0x13"
| "property_identifier PrAuthenticationMethod = 0x15"
| "property_identifier PrAuthenticationData = 0x16"
| "property_identifier PrRequestProblemInformation = 0x17"
| "property_identifier PrWillDelayInterval = 0x18"
| "property_identifier PrRequestResponseInformation = 0x19"
| "property_identifier PrResponseInformation = 0x1A"
| "property_identifier PrServerReference = 0x1C"
| "property_identifier PrReasonString = 0x1F"
| "property_identifier PrReceiveMaximum = 0x21"
| "property_identifier PrTopicAliasMaximum = 0x22"
| "property_identifier PrTopicAlias = 0x23"
| "property_identifier PrMaximumQoS = 0x24"
| "property_identifier PrRetainAvailable = 0x25"
| "property_identifier PrUserProperty = 0x26"
| "property_identifier PrMaximumPacketSize = 0x27"
| "property_identifier PrWildcardSubscriptionAvailable = 0x28"
| "property_identifier PrSubscriptionIdentifierAvailable = 0x29"
| "property_identifier PrSharedSubscriptionAvailable = 0x2A"

definition property_from_identifier :: "u8 \<Rightarrow> property_type option" where
  "property_from_identifier i =
     (if i = 0x01 then Some PrPayloadFormatIndicator
      else if i = 0x02 then Some PrMessageExpiryInterval
      else if i = 0x03 then Some PrContentType
      else if i = 0x08 then Some PrResponseTopic
      else if i = 0x09 then Some PrCorrelationData
      else if i = 0x0B then Some PrSubscriptionIdentifier
      else if i = 0x11 then Some PrSessionExpiryInterval
      else if i = 0x12 then Some PrAssignedClientIdentifier
      else if i = 0x13 then Some PrServerKeepAlive
      else if i = 0x15 then Some PrAuthenticationMethod
      else if i = 0x16 then Some PrAuthenticationData
      else if i = 0x17 then Some PrRequestProblemInformation
      else if i = 0x18 then Some PrWillDelayInterval
      else if i = 0x19 then Some PrRequestResponseInformation
      else if i = 0x1A then Some PrResponseInformation
      else if i = 0x1C then Some PrServerReference
      else if i = 0x1F then Some PrReasonString
      else if i = 0x21 then Some PrReceiveMaximum
      else if i = 0x22 then Some PrTopicAliasMaximum
      else if i = 0x23 then Some PrTopicAlias
      else if i = 0x24 then Some PrMaximumQoS
      else if i = 0x25 then Some PrRetainAvailable
      else if i = 0x26 then Some PrUserProperty
      else if i = 0x27 then Some PrMaximumPacketSize
      else if i = 0x28 then Some PrWildcardSubscriptionAvailable
      else if i = 0x29 then Some PrSubscriptionIdentifierAvailable
      else if i = 0x2A then Some PrSharedSubscriptionAvailable
      else None)"

definition read_property_type :: "('s, 'e) reader \<Rightarrow> ('s, 'e read_error, property_type) comp" where
  "read_property_type rd = bnd (read_u8 rd) (\<lambda>i.
     ok_or ReMalformedPacket (property_from_identifier i))"

definition write_property_type ::
    "('w, 'e) writer \<Rightarrow> property_type \<Rightarrow> ('w, 'e write_error, unit) comp" where
  "write_property_type wr p = write_u8 wr (property_identifier p)"

definition property_type_written_len :: "property_type \<Rightarrow> nat" where
  "property_type_written_len p = 1"

text \<open>\<open>Writable\<close> of a property: the identifier, then the content.\<close>

definition write_prop ::
    "('w, 'e) writer \<Rightarrow> property_type \<Rightarrow> ('w, 'e write_error, unit) comp
     \<Rightarrow> ('w, 'e write_error, unit) comp" where
  "write_prop wr p content = thn (write_property_type wr p) content"

definition prop_len :: "property_type \<Rightarrow> nat \<Rightarrow> nat" where
  "prop_len p content = property_type_written_len p + content"

text \<open>\<open>AtMostOnceProperty::try_set\<close>\<close>

definition try_set ::
    "'a option \<Rightarrow> ('s, 'e read_error, 'a) comp \<Rightarrow> ('s, 'e read_error at_most_once_error, 'a option) comp"
  where
  "try_set cur rdv = (case cur of
      Some _ \<Rightarrow> fail AmAlreadySet
    | None \<Rightarrow> bnd (map_err AmRead rdv) (\<lambda>v. ret (Some v)))"

section \<open>Property values with their own encoding\<close>

datatype keep_alive = KaInfinite | KaSeconds u16

definition keep_alive_as_u16 :: "keep_alive \<Rightarrow> u16" where
  "keep_alive_as_u16 k = (case k of KaInfinite \<Rightarrow> 0 | KaSeconds s \<Rightarrow> s)"

definition read_server_keep_alive :: "('s, 'e) reader \<Rightarrow> ('s, 'e read_error, keep_alive) comp" where
  "read_server_keep_alive rd = bnd (read_u16 rd) (\<lambda>v.
     ret (case nonzero v of None \<Rightarrow> KaInfinite | Some s \<Rightarrow> KaSeconds s))"

datatype session_expiry_interval = EndOnDisconnect | NeverEnd | SeiSeconds u32

definition read_session_expiry_interval ::
    "('s, 'e) reader \<Rightarrow> ('s, 'e read_error, session_expiry_interval) comp" where
  "read_session_expiry_interval rd = bnd (read_u32 rd) (\<lambda>v.
     ret (if v = 0 then EndOnDisconnect else if v < u32_MAX then SeiSeconds v else NeverEnd))"

definition session_expiry_interval_value :: "session_expiry_interval \<Rightarrow> u32" where
  "session_expiry_interval_value i =
     (case i of EndOnDisconnect \<Rightarrow> 0 | NeverEnd \<Rightarrow> u32_MAX | SeiSeconds s \<Rightarrow> s)"

definition write_session_expiry_interval ::
    "('w, 'e) writer \<Rightarrow> session_expiry_interval \<Rightarrow> ('w, 'e write_error, unit) comp" where
  "write_session_expiry_interval wr i =
     thn (write_property_type wr PrSessionExpiryInterval)
       (write_u32 wr (session_expiry_interval_value i))"

definition session_expiry_interval_written_len :: "session_expiry_interval \<Rightarrow> nat" where
  "session_expiry_interval_written_len i = property_type_written_len PrSessionExpiryInterval + 4"

definition read_maximum_qos :: "('s, 'e) reader \<Rightarrow> ('s, 'e read_error, qos) comp" where
  "read_maximum_qos rd = bnd (read_u8 rd) (\<lambda>b. ok_or ReMalformedPacket (qos_try_from_bits b))"

datatype maximum_packet_size = MpsUnlimited | MpsLimit u32

definition maximum_packet_size_as_u32 :: "maximum_packet_size \<Rightarrow> u32" where
  "maximum_packet_size_as_u32 m = (case m of MpsUnlimited \<Rightarrow> u32_MAX | MpsLimit l \<Rightarrow> l)"

definition read_maximum_packet_size ::
    "('s, 'e) reader \<Rightarrow> ('s, 'e read_error, maximum_packet_size) comp" where
  "read_maximum_packet_size rd = bnd (read_u32 rd) (\<lambda>m.
     ok_or ReProtocolError (map_option MpsLimit (nonzero m)))"

definition write_maximum_packet_size ::
    "('w, 'e) writer \<Rightarrow> maximum_packet_size \<Rightarrow> ('w, 'e write_error, unit) comp" where
  "write_maximum_packet_size wr m = (case m of
      MpsLimit l \<Rightarrow> thn (write_property_type wr PrMaximumPacketSize) (write_u32 wr l)
    | MpsUnlimited \<Rightarrow> ret ())"

definition maximum_packet_size_written_len :: "maximum_packet_size \<Rightarrow> nat" where
  "maximum_packet_size_written_len m = (case m of
      MpsUnlimited \<Rightarrow> 0
    | MpsLimit _ \<Rightarrow> property_type_written_len PrMaximumPacketSize + 4)"

text \<open>\<open>ReceiveMaximum\<close> of type \<open>NonZero<u16>\<close>; its default 65535 is not written.\<close>

definition read_receive_maximum :: "('s, 'e) reader \<Rightarrow> ('s, 'e read_error, u16) comp" where
  "read_receive_maximum rd = bnd (read_u16 rd) (\<lambda>m. ok_or ReProtocolError (nonzero m))"

definition write_receive_maximum ::
    "('w, 'e) writer \<Rightarrow> u16 \<Rightarrow> ('w, 'e write_error, unit) comp" where
  "write_receive_maximum wr m =
     (if m < u16_MAX then thn (write_property_type wr PrReceiveMaximum) (write_u16 wr m) else ret ())"

definition receive_maximum_written_len :: "u16 \<Rightarrow> nat" where
  "receive_maximum_written_len m =
     (if m = u16_MAX then 0 else property_type_written_len PrReceiveMaximum + 2)"

text \<open>\<open>UserProperty::skip\<close>\<close>

definition user_property_skip ::
    "('s, 'e) reader \<Rightarrow> (('s, 'b) body_reader, ('e, 'p) rx_error, nat) comp" where
  "user_property_skip rd =
     bnd (map_err rx_of_body_read (read_u16 (body_read rd))) (\<lambda>name_len.
     bnd (map_err rx_of_body (body_skip rd (unat name_len))) (\<lambda>_.
     bnd (map_err rx_of_body_read (read_u16 (body_read rd))) (\<lambda>value_len.
     bnd (map_err rx_of_body (body_skip rd (unat value_len))) (\<lambda>_.
     ret (2 + unat name_len + 2 + unat value_len)))))"

section \<open>Fixed header and packet length\<close>

definition write_fixed_header ::
    "('w, 'e) writer \<Rightarrow> fixed_header \<Rightarrow> ('w, 'e write_error, unit) comp" where
  "write_fixed_header wr h = thn (write_u8 wr (type_and_flags h)) (write_vbi wr (remaining_len h))"

definition fixed_header_written_len :: "fixed_header \<Rightarrow> nat option" where
  "fixed_header_written_len h = map_option (\<lambda>l. 1 + l) (vbi_written_len (remaining_len h))"

text \<open>\<open>TxPacket::encoded_len\<close>, for the remaining length that the packet reports.\<close>

definition encoded_len :: "var_byte_int option \<Rightarrow> nat option" where
  "encoded_len l = Option.bind l (\<lambda>l. map_option (\<lambda>w. 1 + w + vbi_size l) (vbi_written_len l))"

text \<open>A value whose computation may have panicked.\<close>

definition unwrap :: "'a option \<Rightarrow> ('a \<Rightarrow> ('s, 'e, 'b) comp) \<Rightarrow> ('s, 'e, 'b) comp" where
  "unwrap x f = (case x of None \<Rightarrow> crash | Some v \<Rightarrow> f v)"

text \<open>The \<open>for\<close> loops that write the user properties of a packet.\<close>

fun write_user_properties ::
    "('w, 'e) writer \<Rightarrow> mqtt_string_pair list \<Rightarrow> ('w, 'e write_error, unit) comp" where
  "write_user_properties wr [] = ret ()"
| "write_user_properties wr (u # us) =
     thn (write_prop wr PrUserProperty (write_string_pair wr u)) (write_user_properties wr us)"

definition user_properties_written_len :: "mqtt_string_pair list \<Rightarrow> nat" where
  "user_properties_written_len us =
     sum_list (map (\<lambda>u. prop_len PrUserProperty (string_pair_written_len u)) us)"

section \<open>Loops over the properties of a body\<close>

text \<open>
  \<open>while cond { step }\<close> over a body. Every successful iteration of the loops of the source reads the
  type of a property, at least one byte; so one unit of fuel more than the remaining length at the
  start is enough: \<open>body_while_unfold\<close> below is the equation of the loop, without fuel.
\<close>

fun body_loop ::
    "nat \<Rightarrow> ('acc \<Rightarrow> ('s, 'b) body_reader \<Rightarrow> bool)
     \<Rightarrow> ('acc \<Rightarrow> (('s, 'b) body_reader, 'e, 'acc) comp)
     \<Rightarrow> 'acc \<Rightarrow> (('s, 'b) body_reader, 'e, 'acc) comp" where
  "body_loop 0 cond step acc r = (if cond acc r then (Panic, r) else (Ok acc, r))"
| "body_loop (Suc fuel) cond step acc r =
     (if cond acc r then bnd (step acc) (body_loop fuel cond step) r else (Ok acc, r))"

definition body_while ::
    "('acc \<Rightarrow> ('s, 'b) body_reader \<Rightarrow> bool) \<Rightarrow> ('acc \<Rightarrow> (('s, 'b) body_reader, 'e, 'acc) comp)
     \<Rightarrow> 'acc \<Rightarrow> (('s, 'b) body_reader, 'e, 'acc) comp" where
  "body_while cond step acc r = body_loop (Suc (br_remaining_len r)) cond step acc r"

definition shrinks :: "('acc \<Rightarrow> (('s, 'b) body_reader, 'e, 'acc) comp) \<Rightarrow> bool" where
  "shrinks step \<longleftrightarrow> (\<forall>acc r acc' r'. step acc r = (Ok acc', r') \<longrightarrow> br_remaining_len r' < br_remaining_len r)"

lemma body_loop_fuel:
  assumes "shrinks step"
  shows "br_remaining_len r < n \<Longrightarrow> br_remaining_len r < m \<Longrightarrow>
    body_loop n cond step acc r = body_loop m cond step acc r"
proof (induction n arbitrary: m acc r)
  case (Suc n)
  then obtain m' where m: "m = Suc m'" by (cases m) simp_all
  have "body_loop n cond step acc' r' = body_loop m' cond step acc' r'"
    if "step acc r = (Ok acc', r')" for acc' r'
  proof -
    have "br_remaining_len r' < br_remaining_len r" using assms that unfolding shrinks_def by blast
    then show ?thesis using Suc.prems m by (intro Suc.IH) linarith+
  qed
  then have "bnd (step acc) (body_loop n cond step) r = bnd (step acc) (body_loop m' cond step) r"
    unfolding bnd_def by (cases "step acc r") (auto split: res.split)
  then show ?case by (simp add: m)
qed simp

lemma body_while_unfold:
  assumes "shrinks step"
  shows "body_while cond step acc r =
    (if cond acc r then bnd (step acc) (body_while cond step) r else (Ok acc, r))"
proof -
  have "body_loop (br_remaining_len r) cond step acc' r' = body_while cond step acc' r'"
    if "step acc r = (Ok acc', r')" for acc' r'
  proof -
    have "br_remaining_len r' < br_remaining_len r" using assms that unfolding shrinks_def by blast
    then show ?thesis unfolding body_while_def by (intro body_loop_fuel [OF assms]) simp_all
  qed
  then have "bnd (step acc) (body_loop (br_remaining_len r) cond step) r
      = bnd (step acc) (body_while cond step) r"
    unfolding bnd_def by (cases "step acc r") (auto split: res.split)
  then show ?thesis by (simp add: body_while_def [of cond step acc r])
qed

context frame
begin

lemma keeps_unwrap [intro]: "(\<And>v. keeps (f v)) \<Longrightarrow> keeps (unwrap x f)"
  unfolding unwrap_def by auto

lemma keeps_try_set [intro]: "keeps m \<Longrightarrow> keeps (try_set x m)"
  unfolding try_set_def by auto

end

text \<open>No read raises the remaining length, and reading a byte lowers it, whatever the transport does.\<close>

lemma body_read_shrinks: "body_read rd n r = (x, r') \<Longrightarrow> br_remaining_len r' \<le> br_remaining_len r"
  by (auto simp: body_read_def split: if_splits prod.splits res.splits)

interpretation shrink: frame "\<lambda>r r' :: ('s, 'b) body_reader. br_remaining_len r' \<le> br_remaining_len r"
  by unfold_locales simp_all

lemma body_store_shrinks: "body_store rd pb n r = (x, r') \<Longrightarrow> br_remaining_len r' \<le> br_remaining_len r"
proof -
  have "shrink.keeps (fill read_error_of_body (body_read rd) n)"
    by (intro shrink.keeps_fill shrink.keepsI) (rule body_read_shrinks)
  then show "body_store rd pb n r = (x, r') \<Longrightarrow> br_remaining_len r' \<le> br_remaining_len r"
    unfolding shrink.keeps_def body_store_def
    by (fastforce split: if_splits prod.splits res.splits)
qed

interpretation shrink: reader_frame
  "\<lambda>r r' :: ('s, 'b) body_reader. br_remaining_len r' \<le> br_remaining_len r"
  "body_read rd" "body_store rd pb" for rd pb
proof unfold_locales
  show "shrink.keeps (body_read rd n)" for n
    by (rule shrink.keepsI) (rule body_read_shrinks)
  show "shrink.keeps (body_store rd pb n)" for n
    by (rule shrink.keepsI) (rule body_store_shrinks)
qed

lemma body_skip_shrinks: "shrink.keeps (body_skip rd n)"
  by (rule shrink.keepsI) (auto simp: body_skip_def split: if_splits prod.splits)

lemma user_property_skip_shrinks: "shrink.keeps (user_property_skip rd)"
  unfolding user_property_skip_def
  by (intro shrink.keeps_bnd shrink.keeps_map_err body_skip_shrinks shrink.keeps_ret shrink.keeps_read_u16)

lemmas keeps_intros = shrink.keeps_bnd shrink.keeps_map_err shrink.keeps_if shrink.keeps_unwrap
  shrink.keeps_try_set shrink.keeps_ret shrink.keeps_fail shrink.keeps_ok_or
  shrink.keeps_case_option user_property_skip_shrinks body_skip_shrinks shrink.keeps_read_u8
  shrink.keeps_read_u16 shrink.keeps_read_u32 shrink.keeps_read_nonzero shrink.keeps_read_pid
  shrink.keeps_read_bool shrink.keeps_read_reason_code shrink.keeps_read_vbi
  shrink.keeps_read_binary shrink.keeps_read_string shrink.keeps_read_string_pair
  shrink.keeps_read_topic_name shrink.st_keeps

lemma read_u8_strict:
  fixes rd :: "('s, 'e) reader" and r :: "('s, 'b) body_reader"
  defines "brd \<equiv> body_read rd :: (('s, 'b) body_reader, ('e, 'p) body_read_error) reader"
  assumes "read_u8 brd r = (Ok b, r')"
  shows "br_remaining_len r' < br_remaining_len r"
proof -
  from assms obtain bs where f: "fill ReRead brd 1 r = (Ok bs, r')"
    unfolding read_u8_def read_array_def by (auto elim!: bnd_OkE simp: run_simps)
  obtain x r1 where x: "brd 1 r = (x, r1)" by fastforce
  from f x obtain cs where cs: "x = Ok cs" "cs \<noteq> []" "length cs \<le> 1"
    and more: "bnd (fill ReRead brd (1 - length cs)) (\<lambda>more. ret (cs @ more)) r1 = (Ok bs, r')"
    by (subst (asm) fill.simps) (auto split: res.splits if_splits)
  have "length cs = 1" using cs by (cases cs) auto
  then have "r' = r1" using more by (simp add: fill.simps run_simps)
  moreover have "br_remaining_len r1 < br_remaining_len r"
    using x cs by (auto simp: brd_def body_read_def split: if_splits prod.splits res.splits)
  ultimately show ?thesis by simp
qed

lemma read_property_type_strict:
  "read_property_type (body_read rd) r = (Ok p, r') \<Longrightarrow> br_remaining_len r' < br_remaining_len r"
  unfolding read_property_type_def
  by (auto elim!: bnd_OkE dest!: read_u8_strict simp: ok_or_def run_simps split: option.splits)

text \<open>A loop body that reads a property type and then only reads, shrinks the body.\<close>

lemma shrinksI:
  fixes rd :: "('s, 'e) reader"
    and g :: "('e, 'p) body_read_error read_error \<Rightarrow> 'f"
    and f :: "'acc \<Rightarrow> property_type \<Rightarrow> (('s, 'b) body_reader, 'f, 'acc) comp"
  assumes "\<And>acc p. shrink.keeps (f acc p)"
  shows "shrinks (\<lambda>acc. bnd (map_err g (read_property_type (body_read rd))) (f acc))"
  unfolding shrinks_def
proof (intro allI impI)
  fix acc acc' and r r' :: "('s, 'b) body_reader"
  assume "bnd (map_err g (read_property_type (body_read rd))) (f acc) r = (Ok acc', r')"
  then show "br_remaining_len r' < br_remaining_len r"
  proof (rule bnd_OkE)
    fix p r1
    assume 1: "map_err g (read_property_type (body_read rd)) r = (Ok p, r1)"
      and 2: "f acc p r1 = (Ok acc', r')"
    have "br_remaining_len r' \<le> br_remaining_len r1" using shrink.keepsD [OF assms 2] .
    moreover have "br_remaining_len r1 < br_remaining_len r"
      using 1 read_property_type_strict by simp
    ultimately show ?thesis by simp
  qed
qed

lemma unwrap_Some [simp]: "unwrap (Some v) f = f v"
  by (simp add: unwrap_def)

lemma read_property_type_shrinks: "shrink.keeps (read_property_type (body_read rd))"
  unfolding read_property_type_def by (intro keeps_intros)

section \<open>Encodings of properties\<close>

definition prop_bytes :: "property_type \<Rightarrow> u8 list \<Rightarrow> u8 list" where
  "prop_bytes p content = property_identifier p # content"

definition opt_bytes :: "('a \<Rightarrow> u8 list) \<Rightarrow> 'a option \<Rightarrow> u8 list" where
  "opt_bytes f x = (case x of None \<Rightarrow> [] | Some v \<Rightarrow> f v)"

definition user_properties_bytes :: "mqtt_string_pair list \<Rightarrow> u8 list" where
  "user_properties_bytes us = concat (map (\<lambda>u. prop_bytes PrUserProperty (string_pair_bytes u)) us)"

definition fixed_header_bytes :: "fixed_header \<Rightarrow> u8 list" where
  "fixed_header_bytes h = type_and_flags h # vbi_bytes (vbi_value (remaining_len h))"

lemma property_from_identifier [simp]: "property_from_identifier (property_identifier p) = Some p"
  by (cases p) (simp_all add: property_from_identifier_def)

lemma option_written_len_0 [simp]: "option_written_len (\<lambda>_. 0) x = 0"
  by (cases x) (simp_all add: option_written_len_def)

lemma length_opt_bytes: "length (opt_bytes f x) = option_written_len (\<lambda>v. length (f v)) x"
  by (simp add: opt_bytes_def option_written_len_def split: option.split)

lemma length_prop_bytes [simp]: "length (prop_bytes p c) = prop_len p (length c)"
  by (simp add: prop_bytes_def prop_len_def property_type_written_len_def)

lemma length_string_pair_bytes [simp]: "length (string_pair_bytes u) = string_pair_written_len u"
  by (simp add: string_pair_bytes_def string_pair_written_len_def string_written_len_def)

lemma length_user_properties_bytes [simp]:
  "length (user_properties_bytes us) = user_properties_written_len us"
  by (simp add: user_properties_bytes_def user_properties_written_len_def length_concat comp_def)

lemma string_pair_written_len_bound:
  "string_pair_ok u \<Longrightarrow> prop_len PrUserProperty (string_pair_written_len u) \<le> 131077"
  by (auto simp: string_pair_ok_def string_ok_def prop_len_def property_type_written_len_def
      string_pair_written_len_def string_written_len_def binary_written_len_def MAX_LENGTH_def)

lemma user_properties_bound:
  "(\<forall>u \<in> set us. string_pair_ok u) \<Longrightarrow> user_properties_written_len us \<le> length us * 131077"
proof (induction us)
  case (Cons u us)
  then show ?case
    using string_pair_written_len_bound [of u]
    by (simp add: user_properties_written_len_def)
qed (simp add: user_properties_written_len_def)

lemma unat_small: "n < 4294967296 \<Longrightarrow> unat (word_of_nat n :: u32) = n"
  by (simp add: unat_of_nat)

lemma vbi_small: "n \<le> 268435455 \<Longrightarrow> word_of_nat n \<le> MAX_ENCODABLE"
  by (simp add: MAX_ENCODABLE_def word_le_nat_alt unat_small)

lemma encoded_len_bytes:
  assumes "n \<le> 268435455"
  shows "encoded_len (Some (VarByteInt (word_of_nat n))) =
    Some (length (fixed_header_bytes (fixed_header_new t f (VarByteInt (word_of_nat n)))) + n)"
  using assms by (simp add: encoded_len_def vbi_written_len_bytes vbi_small vbi_size_def unat_small
      fixed_header_bytes_def fixed_header_new_def)

context byte_sink
begin

lemma writes_prop: "writes c bs \<Longrightarrow> writes (write_prop wr p c) (prop_bytes p bs)"
  using writes_thn [OF writes_slice [of "[property_identifier p]"]]
  by (simp add: write_prop_def prop_bytes_def write_property_type_def write_u8_def)

lemma writes_option: "(\<And>v. writes (f v) (g v)) \<Longrightarrow> writes (write_option f x) (opt_bytes g x)"
  by (auto simp: write_option_def opt_bytes_def writes_ret split: option.split)

lemma writes_user_properties: "writes (write_user_properties wr us) (user_properties_bytes us)"
proof (induction us)
  case (Cons u us)
  then have "writes (write_user_properties wr (u # us))
      (prop_bytes PrUserProperty (string_pair_bytes u) @ user_properties_bytes us)"
    unfolding write_user_properties.simps by (intro writes_thn writes_prop writes_string_pair)
  then show ?case by (simp add: user_properties_bytes_def)
qed (simp add: writes_ret user_properties_bytes_def)

lemma writes_fixed_header: "writes (write_fixed_header wr h) (fixed_header_bytes h)"
  using writes_thn [OF writes_slice [of "[type_and_flags h]"] writes_vbi [of "remaining_len h"]]
  by (simp add: write_fixed_header_def fixed_header_bytes_def write_u8_def)

text \<open>The sending of a packet, whose errors are of another type.\<close>

lemma writes_run:
  assumes "writes m bs" and "room w (length bs + k)"
  shows "\<exists>w'. map_err f m w = (Ok (), w') \<and> out w' = out w @ bs \<and> room w' k"
  using writesD [OF assms] by (metis map_err_Ok)

lemma sends_packet:
  assumes "writes m (fixed_header_bytes (fixed_header_new t f (VarByteInt (word_of_nat (length bs)))) @ bs)"
    and "length bs \<le> 268435455" and "l = Some (VarByteInt (word_of_nat (length bs)))"
    and "encoded_len l = Some n" and "room w n"
    and "P (fixed_header_new t f (VarByteInt (word_of_nat (length bs)))) bs"
  shows "\<exists>w' h body. map_err g m w = (Ok (), w')
     \<and> out w' = out w @ fixed_header_bytes h @ body
     \<and> n = length (fixed_header_bytes h) + length body
     \<and> l = Some (remaining_len h) \<and> vbi_size (remaining_len h) = length body \<and> P h body"
proof -
  let ?h = "fixed_header_new t f (VarByteInt (word_of_nat (length bs)))"
  have n: "n = length (fixed_header_bytes ?h) + length bs"
    using assms(3,4) encoded_len_bytes [OF assms(2)] by simp
  then have "room w (length (fixed_header_bytes ?h @ bs) + 0)" using assms(5) by simp
  from writes_run [OF assms(1) this] obtain w' where
    "map_err g m w = (Ok (), w')" "out w' = out w @ fixed_header_bytes ?h @ bs" by blast
  moreover have "remaining_len ?h = VarByteInt (word_of_nat (length bs))"
    by (simp add: fixed_header_new_def)
  ultimately show ?thesis
    using assms(2,3,6) n
    by (intro exI [of _ w'] exI [of _ ?h] exI [of _ bs]) (simp add: vbi_size_def unat_small)
qed

lemma writes_bool: "writes (write_bool wr v) [bool_byte v]"
  unfolding write_bool_def write_u8_def by (rule writes_slice)

end

context packet_body
begin

abbreviation brd :: "(('s, 'b) body_reader, ('e, 'p) body_read_error) reader" where
  "brd \<equiv> body_read rd"

abbreviation bst :: "(('s, 'b) body_reader, ('e, 'p) body_read_error) store" where
  "bst \<equiv> body_store rd pb"

lemma reads_property_type: "body.reads (read_property_type brd) [property_identifier p] 0 p"
  unfolding read_property_type_def by (rule body.reads_bnd_ret [OF body.reads_u8]) simp

lemma reads_typed:
  assumes "body.reads (f p) c k v"
  shows "body.reads (bnd (map_err g (read_property_type brd)) f) (prop_bytes p c) k v"
  using body.reads_bnd [where f = f, OF body.reads_map_err [OF reads_property_type [of p], of g] assms]
  by (simp add: prop_bytes_def)

text \<open>The check of the property length against what is left, and the payload that is all the rest.\<close>

lemma parses_checked:
  "body.parses m bs k v
   \<Longrightarrow> body.parses (\<lambda>r. if br_remaining_len r \<noteq> length bs then (Err e, r) else m r) bs k v"
  unfolding body.parses_def by (auto dest: body_remaining)

lemma parses_rest:
  "body.parses (\<lambda>r. map_err f (bst (br_remaining_len r)) r) bs (length bs) bs"
proof (rule body.parsesI)
  fix r j
  assume b: "body_bytes bytes r = bs" and f: "body_fits bytes free tail r (length bs + j)"
  have "br_remaining_len r = length bs" using body_remaining [OF f] b by simp
  then show "\<exists>r'. map_err f (bst (br_remaining_len r)) r = (Ok bs, r')
      \<and> body_bytes bytes r' = [] \<and> body_fits bytes free tail r' j"
    using body.reads_parses [OF body.reads_map_err [OF body.reads_store [of bs], of f]] b f
    unfolding body.parses_def by simp
qed

text \<open>Running a receiver on a fresh body reader: it takes the body and leaves what comes behind.\<close>

lemma parses_run:
  assumes "body.parses m bs k v" and "bytes s = bs @ tail" and "free b k"
  shows "\<exists>r'. m (body_reader_new s b (length bs)) = (Ok v, r')
    \<and> br_remaining_len r' = 0 \<and> bytes (br_r r') = tail"
proof -
  let ?r = "body_reader_new s b (length bs)"
  have "body_bytes bytes ?r = bs" "body_fits bytes free tail ?r (k + 0)"
    using assms(2,3) by (simp_all add: body_bytes_def body_fits_def body_reader_new_def)
  then obtain r' where r': "m ?r = (Ok v, r')" "body_bytes bytes r' = []" "body_fits bytes free tail r' 0"
    using assms(1) unfolding body.parses_def by blast
  have "br_remaining_len r' = 0" using body_remaining [OF r'(3)] r'(2) by simp
  moreover from this have "bytes (br_r r') = tail" using r'(3) by (simp add: body_fits_def)
  ultimately show ?thesis using r'(1) by blast
qed

lemma parses_bnd_ret:
  "body.parses m bs k v \<Longrightarrow> f v = ret x \<Longrightarrow> body.parses (bnd m f) bs k x"
  unfolding body.parses_def by (fastforce simp: run_simps)

abbreviation some_left :: "'acc \<Rightarrow> ('s, 'b) body_reader \<Rightarrow> bool" where
  "some_left acc r \<equiv> 0 < br_remaining_len r"

lemma parses_while_nil:
  "shrinks step \<Longrightarrow> body.parses (body_while some_left step acc) [] 0 acc"
  unfolding body.parses_def by (auto dest: body_remaining simp: body_while_unfold)

lemma parses_while_step:
  assumes "shrinks step" and "body.reads (step acc) a k acc'" and "a \<noteq> []"
    and "body.parses (body_while some_left step acc') b l x"
  shows "body.parses (body_while some_left step acc) (a @ b) (k + l) x"
proof -
  have "body.parses (bnd (step acc) (body_while some_left step)) (a @ b) (k + l) x"
    by (rule body.parses_bnd) (fact assms(2), fact assms(4))
  moreover have "body_while some_left step acc r = bnd (step acc) (body_while some_left step) r"
    if "body_bytes bytes r = a @ b" and "body_fits bytes free tail r j" for r j
    using body_remaining [OF that(2)] that(1) assms(3) by (simp add: body_while_unfold [OF assms(1)])
  ultimately show ?thesis unfolding body.parses_def by metis
qed

text \<open>Loops that count down on their own and leave the rest of the body alone.\<close>

lemma reads_while_done:
  assumes "shrinks step" and "\<And>r. \<not> cond acc r"
  shows "body.reads (body_while cond step acc) [] 0 acc"
proof -
  have "body_while cond step acc r = (Ok acc, r)" for r
    using assms(2) by (simp add: body_while_unfold [OF assms(1)])
  then show ?thesis by (simp add: body.reads_def)
qed

lemma reads_while_step:
  assumes "shrinks step" and "\<And>r. cond acc r" and "body.reads (step acc) a k acc'"
    and "body.reads (body_while cond step acc') b l x"
  shows "body.reads (body_while cond step acc) (a @ b) (k + l) x"
proof -
  have "body_while cond step acc = bnd (step acc) (body_while cond step)"
    using assms(2) by (intro ext) (simp add: body_while_unfold [OF assms(1)])
  moreover have "body.reads (bnd (step acc) (body_while cond step)) (a @ b) (k + l) x"
    by (rule body.reads_bnd) (fact assms(3), fact assms(4))
  ultimately show ?thesis by simp
qed

lemma reads_try_set:
  "body.reads m bs k v \<Longrightarrow> body.reads (map_err f (try_set None m)) bs k (Some v)"
  unfolding try_set_def option.case
  by (intro body.reads_map_err body.reads_bnd_ret [where v = v]) simp_all

end

end
