(* ===== verification/Mqtt_Pubacks.thy ===== *)
theory Mqtt_Pubacks
  imports Mqtt_Property
begin

text \<open>
  The acknowledgements of publications and the pings: \<open>src/v5/packet/pubacks\<close> and
  \<open>src/v5/packet/pings\<close>. The type parameter of \<open>GenericPubackPacket\<close> is \<open>puback_kind\<close>, the const
  generic \<open>MAX_USER_PROPERTIES\<close> is the argument \<open>maxu\<close> of the receiver. Sending and receiving are
  inverse to each other.
\<close>

section \<open>Packets\<close>

datatype puback_kind = Ack | Rec | Rel | Comp

definition pk_packet_type :: "puback_kind \<Rightarrow> packet_type" where
  "pk_packet_type k =
     (case k of Ack \<Rightarrow> PtPuback | Rec \<Rightarrow> PtPubrec | Rel \<Rightarrow> PtPubrel | Comp \<Rightarrow> PtPubcomp)"

definition pk_flags :: "puback_kind \<Rightarrow> u8" where
  "pk_flags k = (case k of Ack \<Rightarrow> 0x00 | Rec \<Rightarrow> 0x00 | Rel \<Rightarrow> 0x02 | Comp \<Rightarrow> 0x00)"

definition is_ack_rec_reason_code :: "reason_code \<Rightarrow> bool" where
  "is_ack_rec_reason_code c \<longleftrightarrow>
     c \<in> {RcSuccess, RcNoMatchingSubscribers, RcUnspecifiedError, RcImplementationSpecificError,
          RcNotAuthorized, RcTopicNameInvalid, RcPacketIdentifierInUse, RcQuotaExceeded,
          RcPayloadFormatInvalid}"

definition is_rel_comp_reason_code :: "reason_code \<Rightarrow> bool" where
  "is_rel_comp_reason_code c \<longleftrightarrow> c \<in> {RcSuccess, RcPacketIdentifierNotFound}"

definition pk_reason_code_allowed :: "puback_kind \<Rightarrow> reason_code \<Rightarrow> bool" where
  "pk_reason_code_allowed k c = (case k of
      Ack \<Rightarrow> is_ack_rec_reason_code c
    | Rec \<Rightarrow> is_ack_rec_reason_code c
    | Rel \<Rightarrow> is_rel_comp_reason_code c
    | Comp \<Rightarrow> is_rel_comp_reason_code c)"

record puback_packet =
  pa_packet_identifier :: pid
  pa_reason_code :: reason_code
  pa_reason_string :: "mqtt_string option"
  pa_user_properties :: "mqtt_string_pair list"

section \<open>Receiving\<close>

definition puback_property ::
    "nat \<Rightarrow> ('s, 'e) reader \<Rightarrow> (nat \<Rightarrow> ('b, 'p, 'm) comp)
     \<Rightarrow> mqtt_string option \<times> mqtt_string_pair list
     \<Rightarrow> (('s, 'b) body_reader, ('e, 'p) rx_error,
          mqtt_string option \<times> mqtt_string_pair list) comp" where
  "puback_property maxu rd pb acc =
     bnd (map_err rx_of_body_read (read_property_type (body_read rd))) (\<lambda>p.
       let (reason_string, user_properties) = acc in
       if p = PrReasonString then
         bnd (map_err rx_of_at_most_once
                (try_set reason_string (read_string (body_read rd) (body_store rd pb))))
           (\<lambda>v. ret (v, user_properties))
       else if p = PrUserProperty \<and> length user_properties < maxu then
         bnd (map_err rx_of_body_read (read_string_pair (body_read rd) (body_store rd pb)))
           (\<lambda>u. ret (reason_string, user_properties @ [u]))
       else if p = PrUserProperty then
         bnd (user_property_skip rd) (\<lambda>_. ret (reason_string, user_properties))
       else fail RxMalformedPacket)"

definition puback_receive ::
    "puback_kind \<Rightarrow> nat \<Rightarrow> ('s, 'e) reader \<Rightarrow> (nat \<Rightarrow> ('b, 'p, 'm) comp) \<Rightarrow> fixed_header
     \<Rightarrow> (('s, 'b) body_reader, ('e, 'p) rx_error, puback_packet) comp" where
  "puback_receive k maxu rd pb header =
     (if header_flags header \<noteq> pk_flags k then fail RxMalformedPacket
      else
        bnd (map_err rx_of_body_read (read_pid (body_read rd))) (\<lambda>packet_identifier.
        bnd (if vbi_size (remaining_len header) = 2 then ret RcSuccess
             else bnd (map_err rx_of_body_read (read_reason_code (body_read rd))) (\<lambda>c.
               if \<not> pk_reason_code_allowed k c then fail RxProtocolError else ret c))
        (\<lambda>reason_code.
        bnd (if vbi_value (remaining_len header) < 4 then ret 0
             else bnd (map_err rx_of_body_read (read_vbi (body_read rd))) (\<lambda>v. ret (vbi_size v)))
        (\<lambda>properties_length r.
          if br_remaining_len r \<noteq> properties_length then (Err RxMalformedPacket, r)
          else bnd (body_while (\<lambda>_ r. 0 < br_remaining_len r) (puback_property maxu rd pb) (None, []))
            (\<lambda>(reason_string, user_properties).
              ret \<lparr>pa_packet_identifier = packet_identifier, pa_reason_code = reason_code,
                   pa_reason_string = reason_string, pa_user_properties = user_properties\<rparr>) r))))"

section \<open>Sending\<close>

definition puback_properties_length :: "puback_packet \<Rightarrow> var_byte_int option" where
  "puback_properties_length p =
     (let len = option_written_len (\<lambda>s. prop_len PrReasonString (string_written_len s))
                  (pa_reason_string p)
              + user_properties_written_len (pa_user_properties p)
      in vbi_new_unchecked (word_of_nat len))"

definition puback_remaining_len :: "puback_packet \<Rightarrow> var_byte_int option" where
  "puback_remaining_len p =
     Option.bind (puback_properties_length p) (\<lambda>properties_length.
     Option.bind (vbi_written_len properties_length) (\<lambda>l.
       let variable_header_length = 2 + 1;
           total_properties_length = vbi_size properties_length + l;
           total_length = variable_header_length + total_properties_length
       in vbi_new_unchecked (word_of_nat total_length)))"

text \<open>The body of \<open>send\<close>, and \<open>send\<close> with the errors that \<open>?\<close> converts.\<close>

definition puback_write ::
    "('w, 'e) writer \<Rightarrow> puback_kind \<Rightarrow> puback_packet \<Rightarrow> ('w, 'e write_error, unit) comp" where
  "puback_write wr k p =
     unwrap (puback_remaining_len p) (\<lambda>len.
       thn (write_fixed_header wr (fixed_header_new (pk_packet_type k) (pk_flags k) len))
       (thn (write_pid wr (pa_packet_identifier p))
       (thn (write_reason_code wr (pa_reason_code p))
       (unwrap (puback_properties_length p) (\<lambda>properties_length.
         thn (write_vbi wr properties_length)
         (thn (write_option (\<lambda>s. write_prop wr PrReasonString (write_string wr s)) (pa_reason_string p))
           (write_user_properties wr (pa_user_properties p))))))))"

definition puback_send ::
    "('w, 'e) writer \<Rightarrow> puback_kind \<Rightarrow> puback_packet \<Rightarrow> ('w, 'e tx_error, unit) comp" where
  "puback_send wr k p = map_err tx_of_write (puback_write wr k p)"

definition puback_minimal :: "pid \<Rightarrow> reason_code \<Rightarrow> puback_packet" where
  "puback_minimal p c =
     \<lparr>pa_packet_identifier = p, pa_reason_code = c, pa_reason_string = None, pa_user_properties = []\<rparr>"

section \<open>Pings\<close>

datatype ping_kind = Req | Resp

definition ping_packet_type :: "ping_kind \<Rightarrow> packet_type" where
  "ping_packet_type k = (case k of Req \<Rightarrow> PtPingreq | Resp \<Rightarrow> PtPingresp)"

definition ping_flags :: "ping_kind \<Rightarrow> u8" where
  "ping_flags k = (case k of Req \<Rightarrow> 0x00 | Resp \<Rightarrow> 0x00)"

definition ping_receive ::
    "ping_kind \<Rightarrow> fixed_header \<Rightarrow> (('s, 'b) body_reader, ('e, 'p) rx_error, unit) comp" where
  "ping_receive k header =
     (if header_flags header = ping_flags k then ret () else fail RxMalformedPacket)"

definition ping_remaining_len :: "var_byte_int option" where
  "ping_remaining_len = vbi_new_unchecked 0"

definition ping_send :: "('w, 'e) writer \<Rightarrow> ping_kind \<Rightarrow> ('w, 'e tx_error, unit) comp" where
  "ping_send wr k = map_err tx_of_write (unwrap ping_remaining_len (\<lambda>len.
     write_fixed_header wr (fixed_header_new (ping_packet_type k) (ping_flags k) len)))"

section \<open>The encoding\<close>

definition puback_ok :: "puback_kind \<Rightarrow> puback_packet \<Rightarrow> bool" where
  "puback_ok k p \<longleftrightarrow> pid_valid (pa_packet_identifier p)
     \<and> pk_reason_code_allowed k (pa_reason_code p)
     \<and> (\<forall>s. pa_reason_string p = Some s \<longrightarrow> string_ok s)
     \<and> (\<forall>u \<in> set (pa_user_properties p). string_pair_ok u)
     \<and> length (pa_user_properties p) \<le> 2047"

definition puback_props_bytes :: "puback_packet \<Rightarrow> u8 list" where
  "puback_props_bytes p =
     opt_bytes (\<lambda>s. prop_bytes PrReasonString (binary_bytes s)) (pa_reason_string p)
     @ user_properties_bytes (pa_user_properties p)"

definition puback_body_bytes :: "puback_packet \<Rightarrow> u8 list" where
  "puback_body_bytes p = u16_to_be_bytes (pa_packet_identifier p) @ [rc_value (pa_reason_code p)]
     @ vbi_bytes (word_of_nat (length (puback_props_bytes p))) @ puback_props_bytes p"

lemma length_puback_props:
  "length (puback_props_bytes p) =
     option_written_len (\<lambda>s. prop_len PrReasonString (string_written_len s)) (pa_reason_string p)
     + user_properties_written_len (pa_user_properties p)"
  by (simp add: puback_props_bytes_def length_opt_bytes string_written_len_def)

lemma puback_props_bound:
  assumes "puback_ok k p"
  shows "length (puback_props_bytes p) \<le> 268380157"
proof -
  have "option_written_len (\<lambda>s. prop_len PrReasonString (string_written_len s)) (pa_reason_string p) \<le> 65538"
    using assms by (auto simp: puback_ok_def option_written_len_def prop_len_def string_ok_def
        property_type_written_len_def string_written_len_def binary_written_len_def MAX_LENGTH_def
        split: option.split)
  moreover have "user_properties_written_len (pa_user_properties p) \<le> 2047 * 131077"
    using user_properties_bound [of "pa_user_properties p"] assms
    by (force simp: puback_ok_def)
  ultimately show ?thesis by (simp add: length_puback_props)
qed

lemma puback_lengths:
  assumes "puback_ok k p"
  shows "puback_properties_length p = Some (VarByteInt (word_of_nat (length (puback_props_bytes p))))"
    and "puback_remaining_len p = Some (VarByteInt (word_of_nat (length (puback_body_bytes p))))"
    and "length (puback_body_bytes p) \<le> 268435455" and "4 \<le> length (puback_body_bytes p)"
proof -
  let ?n = "length (puback_props_bytes p)"
  have n: "?n \<le> 268380157" using assms by (rule puback_props_bound)
  have l: "length (vbi_bytes (word_of_nat ?n)) \<le> 4" "1 \<le> length (vbi_bytes (word_of_nat ?n))"
    using n by (simp_all add: length_vbi_bytes unat_small Suc_leI)
  show pl: "puback_properties_length p = Some (VarByteInt (word_of_nat ?n))"
    using n by (simp add: puback_properties_length_def vbi_new_unchecked_def vbi_small
        flip: length_puback_props)
  show b: "length (puback_body_bytes p) \<le> 268435455" "4 \<le> length (puback_body_bytes p)"
    using n l by (simp_all add: puback_body_bytes_def)
  have "3 + (?n + length (vbi_bytes (word_of_nat ?n))) = length (puback_body_bytes p)"
    by (simp add: puback_body_bytes_def)
  then show "puback_remaining_len p = Some (VarByteInt (word_of_nat (length (puback_body_bytes p))))"
    using n b by (simp add: puback_remaining_len_def pl vbi_written_len_bytes vbi_small vbi_size_def
        unat_small vbi_new_unchecked_def del: of_nat_add)
qed

definition puback_header :: "puback_kind \<Rightarrow> puback_packet \<Rightarrow> fixed_header" where
  "puback_header k p = fixed_header_new (pk_packet_type k) (pk_flags k)
     (VarByteInt (word_of_nat (length (puback_body_bytes p))))"

lemma header_flags_puback [simp]: "header_flags (puback_header k p) = pk_flags k"
  by (cases k) (simp_all add: header_flags_def puback_header_def fixed_header_new_def
      pk_packet_type_def pk_flags_def)

lemma header_type_puback: "header_packet_type (puback_header k p) = Some (pk_packet_type k)"
  by (cases k) (simp_all add: header_packet_type_def puback_header_def fixed_header_new_def
      pk_packet_type_def pk_flags_def from_type_and_flags_def Let_def)

context byte_sink
begin

lemma writes_puback:
  assumes "puback_ok k p"
  shows "writes (puback_write wr k p) (fixed_header_bytes (puback_header k p) @ puback_body_bytes p)"
proof -
  note vbi = writes_vbi [of "VarByteInt _", unfolded vbi_value.simps]
  have "writes (puback_write wr k p)
      (fixed_header_bytes (puback_header k p) @ u16_to_be_bytes (pa_packet_identifier p)
       @ [rc_value (pa_reason_code p)] @ vbi_bytes (word_of_nat (length (puback_props_bytes p)))
       @ opt_bytes (\<lambda>s. prop_bytes PrReasonString (binary_bytes s)) (pa_reason_string p)
       @ user_properties_bytes (pa_user_properties p))"
    unfolding puback_write_def puback_lengths(1,2) [OF assms] unwrap_Some puback_header_def
      write_pid_def write_u16_def write_reason_code_def write_u8_def write_string_def
    by (intro writes_thn writes_fixed_header writes_slice writes_option writes_prop writes_binary
        writes_user_properties vbi)
  then show ?thesis by (simp add: puback_body_bytes_def puback_props_bytes_def)
qed

end

definition puback_memory :: "puback_packet \<Rightarrow> nat" where
  "puback_memory p = (case pa_reason_string p of None \<Rightarrow> 0 | Some s \<Rightarrow> length s)
     + sum_list (map (\<lambda>u. length (pair_name u) + length (pair_value u)) (pa_user_properties p))"

lemma puback_property_shrinks: "shrinks (puback_property maxu rd pb)"
  unfolding puback_property_def Let_def split_def by (rule shrinksI) (intro keeps_intros)

context packet_body
begin

lemma parses_user_properties:
  assumes "length ups + length us \<le> maxu" and "\<forall>u \<in> set us. string_pair_ok u"
  shows "body.parses (body_while some_left (puback_property maxu rd pb) (rs, ups))
    (user_properties_bytes us) (sum_list (map (\<lambda>u. length (pair_name u) + length (pair_value u)) us))
    (rs, ups @ us)"
  using assms
proof (induction us arbitrary: ups)
  case Nil
  then show ?case
    using parses_while_nil [OF puback_property_shrinks] by (simp add: user_properties_bytes_def)
next
  case (Cons u us)
  have step: "body.reads (puback_property maxu rd pb (rs, ups))
      ([property_identifier PrUserProperty] @ string_pair_bytes u)
      (0 + (length (pair_name u) + length (pair_value u))) (rs, ups @ [u])"
    unfolding puback_property_def
    using Cons.prems
    by (intro body.reads_bnd [OF body.reads_map_err [OF reads_property_type [of PrUserProperty]]])
       (auto intro!: body.reads_bnd_ret body.reads_map_err body.reads_string_pair)
  have rest: "body.parses (body_while some_left (puback_property maxu rd pb) (rs, ups @ [u]))
      (user_properties_bytes us) (sum_list (map (\<lambda>u. length (pair_name u) + length (pair_value u)) us))
      (rs, (ups @ [u]) @ us)"
    using Cons.prems by (intro Cons.IH) auto
  show ?case
    using parses_while_step [OF puback_property_shrinks step _ rest]
    by (simp add: user_properties_bytes_def prop_bytes_def)
qed

lemma parses_puback_properties:
  assumes "puback_ok k p" and "length (pa_user_properties p) \<le> maxu"
  shows "body.parses (body_while some_left (puback_property maxu rd pb) (None, []))
    (puback_props_bytes p) (puback_memory p) (pa_reason_string p, pa_user_properties p)"
proof -
  have us: "body.parses (body_while some_left (puback_property maxu rd pb) (rs, []))
      (user_properties_bytes (pa_user_properties p))
      (sum_list (map (\<lambda>u. length (pair_name u) + length (pair_value u)) (pa_user_properties p)))
      (rs, pa_user_properties p)" for rs
    using parses_user_properties [of "[]" "pa_user_properties p" maxu rs] assms
    by (simp add: puback_ok_def)
  show ?thesis
  proof (cases "pa_reason_string p")
    case None
    then show ?thesis
      using us [of None] by (simp add: puback_props_bytes_def puback_memory_def opt_bytes_def)
  next
    case (Some s)
    then have s: "string_ok s" using assms(1) by (simp add: puback_ok_def)
    have step: "body.reads (puback_property maxu rd pb (None, []))
        ([property_identifier PrReasonString] @ binary_bytes s) (0 + length s) (Some s, [])"
      unfolding puback_property_def
      by (intro body.reads_bnd [OF body.reads_map_err [OF reads_property_type [of PrReasonString]]])
         (auto intro!: body.reads_bnd_ret reads_try_set body.reads_string [OF s])
    show ?thesis
      using parses_while_step [OF puback_property_shrinks step _ us [of "Some s"]] Some
      by (simp add: puback_props_bytes_def puback_memory_def opt_bytes_def prop_bytes_def)
  qed
qed

lemma parses_puback:
  assumes "puback_ok k p" and "length (pa_user_properties p) \<le> maxu"
  shows "body.parses (puback_receive k maxu rd pb (puback_header k p)) (puback_body_bytes p)
    (puback_memory p) p"
proof -
  let ?n = "length (puback_body_bytes p)" and ?m = "length (puback_props_bytes p)"
  let ?loop = "bnd (body_while some_left (puback_property maxu rd pb) (None, []))
      (\<lambda>(reason_string, user_properties).
        ret \<lparr>pa_packet_identifier = pa_packet_identifier p, pa_reason_code = pa_reason_code p,
             pa_reason_string = reason_string, pa_user_properties = user_properties\<rparr>)"
  have b: "?n \<le> 268435455" "4 \<le> ?n" using puback_lengths [OF assms(1)] by auto
  then have h: "(vbi_size (remaining_len (puback_header k p)) = 2) = False"
    "(vbi_value (remaining_len (puback_header k p)) < 4) = False"
    by (simp_all add: puback_header_def fixed_header_new_def vbi_size_def unat_small word_less_nat_alt)
  have m: "?m \<le> 268435455" using puback_props_bound [OF assms(1)] by simp
  have "body.parses ?loop (puback_props_bytes p) (puback_memory p) p"
    by (rule parses_bnd_ret [OF parses_puback_properties [OF assms]]) (cases p; simp)
  then have loop: "body.parses (\<lambda>r. if br_remaining_len r \<noteq> ?m then (Err RxMalformedPacket, r) else ?loop r)
      (puback_props_bytes p) (puback_memory p) p"
    by (rule parses_checked)
  have vbi: "body.reads (bnd (map_err rx_of_body_read (read_vbi brd)) (\<lambda>v. ret (vbi_size v)))
      (vbi_bytes (word_of_nat ?m)) 0 ?m"
    by (rule body.reads_bnd_ret [OF body.reads_map_err [OF body.reads_vbi [OF vbi_small [OF m]]]])
       (use m in \<open>simp add: vbi_size_def unat_small\<close>)
  have rc: "body.reads (bnd (map_err rx_of_body_read (read_reason_code brd)) (\<lambda>c.
      if \<not> pk_reason_code_allowed k c then fail RxProtocolError else ret c))
      [rc_value (pa_reason_code p)] 0 (pa_reason_code p)"
    by (rule body.reads_bnd_ret [OF body.reads_map_err [OF body.reads_reason_code]])
       (use assms(1) in \<open>simp add: puback_ok_def\<close>)
  have pid: "body.reads (map_err rx_of_body_read (read_pid brd))
      (u16_to_be_bytes (pa_packet_identifier p)) 0 (pa_packet_identifier p)"
    using assms(1) by (intro body.reads_map_err body.reads_pid) (simp add: puback_ok_def)
  have "body.parses (puback_receive k maxu rd pb (puback_header k p)) (puback_body_bytes p)
      (0 + (0 + (0 + puback_memory p))) p"
    unfolding puback_receive_def puback_body_bytes_def
    by (simp only: header_flags_puback refl not_True_eq_False if_False h)
       (intro body.parses_bnd [OF pid] body.parses_bnd [OF rc] body.parses_bnd [OF vbi] loop)
  then show ?thesis by simp
qed

end

section \<open>Round trips\<close>

text \<open>C21: For every transport and memory provider that keep their contracts, a PUBACK, PUBREC, PUBREL or
  PUBCOMP packet with an allowed reason code, a reason string and up to 2047 user properties is
  written completely, in \<open>encoded_len\<close> bytes, behind a fixed header of its type; and a receiver
  that has read that header reads exactly the packet back from the body, consuming all of it and
  nothing beyond.\<close>

theorem puback_roundtrip:
  assumes "byte_sink wr out room" and "packet_body rd bytes pb free"
    and "puback_ok k p" and "length (pa_user_properties p) \<le> maxu"
    and "encoded_len (puback_remaining_len p) = Some n" and "room w n"
  shows "\<exists>w' h body. puback_send wr k p w = (Ok (), w')
     \<and> out w' = out w @ fixed_header_bytes h @ body
     \<and> n = length (fixed_header_bytes h) + length body
     \<and> puback_remaining_len p = Some (remaining_len h) \<and> vbi_size (remaining_len h) = length body
     \<and> header_packet_type h = Some (pk_packet_type k)
     \<and> (\<forall>s b rest. bytes s = body @ rest \<and> free b (puback_memory p) \<longrightarrow>
          (\<exists>r'. puback_receive k maxu rd pb h (body_reader_new s b (length body)) = (Ok p, r')
              \<and> br_remaining_len r' = 0 \<and> bytes (br_r r') = rest))"
proof -
  note len = puback_lengths [OF assms(3)]
  have receive: "\<exists>r'. puback_receive k maxu rd pb (puback_header k p)
        (body_reader_new s b (length (puback_body_bytes p))) = (Ok p, r')
      \<and> br_remaining_len r' = 0 \<and> bytes (br_r r') = rest"
    if "bytes s = puback_body_bytes p @ rest" and "free b (puback_memory p)" for s b rest
    by (rule packet_body.parses_run [OF assms(2) packet_body.parses_puback [OF assms(2-4)] that])
  show ?thesis
    unfolding puback_send_def
    by (rule byte_sink.sends_packet [OF assms(1) byte_sink.writes_puback [OF assms(1,3),
          unfolded puback_header_def] len(3,2) assms(5,6)])
       (use receive header_type_puback in \<open>simp add: puback_header_def\<close>)
qed

theorem puback_roundtrip_witness:
  "\<exists>w' h body. puback_send slice_write Rel (puback_minimal 7 RcSuccess)
       (slice_writer_new (replicate 8 0)) = (Ok (), w')
     \<and> slice_out w' = slice_out (slice_writer_new (replicate 8 0)) @ fixed_header_bytes h @ body
     \<and> 6 = length (fixed_header_bytes h) + length body
     \<and> puback_remaining_len (puback_minimal 7 RcSuccess) = Some (remaining_len h)
     \<and> vbi_size (remaining_len h) = length body
     \<and> header_packet_type h = Some (pk_packet_type Rel)
     \<and> (\<forall>s b rest. slice_bytes s = body @ rest
            \<and> puback_memory (puback_minimal 7 RcSuccess) \<le> bump_remaining_len b \<longrightarrow>
          (\<exists>r'. puback_receive Rel 0 slice_read bump_provide h (body_reader_new s b (length body))
                  = (Ok (puback_minimal 7 RcSuccess)
                      :: ((unit, insufficient_space) rx_error, puback_packet) res, r')
              \<and> br_remaining_len r' = 0 \<and> slice_bytes (br_r r') = rest))"
  by (rule puback_roundtrip [OF slice_out.byte_sink_axioms slice_bump.packet_body_axioms])
     (simp_all add: puback_ok_def puback_minimal_def pid_valid_def pk_reason_code_allowed_def
        is_rel_comp_reason_code_def puback_remaining_len_def puback_properties_length_def
        option_written_len_def user_properties_written_len_def vbi_new_unchecked_def
        vbi_written_len_def vbi_size_def encoded_len_def MAX_ENCODABLE_def slice_room_def
        slice_writer_new_def)

end
