(* ===== verification/Mqtt_Publish.thy ===== *)
theory Mqtt_Publish
  imports Mqtt_Pubacks
begin

unbundle bit_operations_syntax

text \<open>
  The PUBLISH packet of \<open>src/v5/packet/publish.rs\<close>, with the topic reference of
  \<open>src/client/options/publish.rs\<close>. The local variables that the property loop of \<open>receive\<close> fills are
  the record \<open>publish_props\<close>; \<open>pp_length\<close> is \<open>properties_length\<close>, the bytes of properties still to come.
\<close>

section \<open>Packets\<close>

datatype topic_reference = TrName topic_name | TrAlias u16 | TrMapping topic_name u16

primrec topic_alias :: "topic_reference \<Rightarrow> u16 option" where
  "topic_alias (TrName t) = None"
| "topic_alias (TrAlias a) = Some a"
| "topic_alias (TrMapping t a) = Some a"

primrec topic_name_of :: "topic_reference \<Rightarrow> topic_name option" where
  "topic_name_of (TrName t) = Some t"
| "topic_name_of (TrAlias a) = None"
| "topic_name_of (TrMapping t a) = Some t"

record publish_packet =
  pu_dup :: bool
  pu_identified_qos :: identified_qos
  pu_retain :: bool
  pu_topic :: topic_reference
  pu_payload_format_indicator :: "bool option"
  pu_message_expiry_interval :: "u32 option"
  pu_response_topic :: "topic_name option"
  pu_correlation_data :: "mqtt_binary option"
  pu_user_properties :: "mqtt_string_pair list"
  pu_subscription_identifiers :: "var_byte_int list"
  pu_content_type :: "mqtt_string option"
  pu_message :: "u8 list"

section \<open>Receiving\<close>

record publish_props =
  pp_length :: nat
  pp_payload_format_indicator :: "bool option"
  pp_message_expiry_interval :: "u32 option"
  pp_topic_alias :: "u16 option"
  pp_response_topic :: "topic_name option"
  pp_correlation_data :: "mqtt_binary option"
  pp_user_properties :: "mqtt_string_pair list"
  pp_subscription_identifiers :: "var_byte_int list"
  pp_content_type :: "mqtt_string option"

text \<open>\<open>properties_length.checked_sub(len).ok_or(RxError::MalformedPacket)?\<close>\<close>

definition consume :: "nat \<Rightarrow> publish_props \<Rightarrow> ('s, ('e, 'p) rx_error, publish_props) comp" where
  "consume len acc =
     (if len \<le> pp_length acc then ret (acc\<lparr>pp_length := pp_length acc - len\<rparr>)
      else fail RxMalformedPacket)"

text \<open>One iteration; the subtraction of the identifier cannot underflow, as the loop runs while \<open>pp_length > 0\<close>.\<close>

definition publish_property ::
    "nat \<Rightarrow> nat \<Rightarrow> ('s, 'e) reader \<Rightarrow> (nat \<Rightarrow> ('b, 'p, 'm) comp) \<Rightarrow> publish_props
     \<Rightarrow> (('s, 'b) body_reader, ('e, 'p) rx_error, publish_props) comp" where
  "publish_property maxs maxu rd pb acc0 =
     bnd (map_err rx_of_body_read (read_property_type (body_read rd))) (\<lambda>p.
       let acc = acc0\<lparr>pp_length := pp_length acc0 - property_type_written_len p\<rparr> in
       if p = PrPayloadFormatIndicator then
         bnd (map_err rx_of_at_most_once
           (try_set (pp_payload_format_indicator acc) (read_bool (body_read rd))))
         (\<lambda>v. consume 1 (acc\<lparr>pp_payload_format_indicator := v\<rparr>))
       else if p = PrMessageExpiryInterval then
         bnd (map_err rx_of_at_most_once
           (try_set (pp_message_expiry_interval acc) (read_u32 (body_read rd))))
         (\<lambda>v. consume 4 (acc\<lparr>pp_message_expiry_interval := v\<rparr>))
       else if p = PrTopicAlias then
         bnd (map_err rx_of_at_most_once
           (try_set (pp_topic_alias acc) (read_nonzero_u16 (body_read rd))))
         (\<lambda>v. consume 2 (acc\<lparr>pp_topic_alias := v\<rparr>))
       else if p = PrResponseTopic then
         bnd (map_err rx_of_at_most_once
           (try_set (pp_response_topic acc) (read_topic_name (body_read rd) (body_store rd pb))))
         (\<lambda>v. unwrap v (\<lambda>t. consume (string_written_len t) (acc\<lparr>pp_response_topic := Some t\<rparr>)))
       else if p = PrCorrelationData then
         bnd (map_err rx_of_at_most_once
           (try_set (pp_correlation_data acc) (read_binary (body_read rd) (body_store rd pb))))
         (\<lambda>v. unwrap v (\<lambda>d. consume (binary_written_len d) (acc\<lparr>pp_correlation_data := Some d\<rparr>)))
       else if p = PrUserProperty \<and> length (pp_user_properties acc) < maxu then
         bnd (map_err rx_of_body_read (read_string_pair (body_read rd) (body_store rd pb)))
         (\<lambda>u. bnd (consume (string_pair_written_len u) acc)
           (\<lambda>acc. ret (acc\<lparr>pp_user_properties := pp_user_properties acc @ [u]\<rparr>)))
       else if p = PrUserProperty then
         bnd (user_property_skip rd) (\<lambda>len. consume len acc)
       else if p = PrSubscriptionIdentifier then
         bnd (map_err rx_of_body_read (read_vbi (body_read rd))) (\<lambda>i.
           unwrap (vbi_written_len i) (\<lambda>len. consume len
             (if length (pp_subscription_identifiers acc) < maxs
              then acc\<lparr>pp_subscription_identifiers := pp_subscription_identifiers acc @ [i]\<rparr>
              else acc)))
       else if p = PrContentType then
         bnd (map_err rx_of_at_most_once
           (try_set (pp_content_type acc) (read_string (body_read rd) (body_store rd pb))))
         (\<lambda>v. unwrap v (\<lambda>c. consume (string_written_len c) (acc\<lparr>pp_content_type := Some c\<rparr>)))
       else fail RxMalformedPacket)"

definition publish_props_init :: "nat \<Rightarrow> publish_props" where
  "publish_props_init n =
     \<lparr>pp_length = n, pp_payload_format_indicator = None, pp_message_expiry_interval = None,
      pp_topic_alias = None, pp_response_topic = None, pp_correlation_data = None,
      pp_user_properties = [], pp_subscription_identifiers = [], pp_content_type = None\<rparr>"

definition publish_receive ::
    "nat \<Rightarrow> nat \<Rightarrow> ('s, 'e) reader \<Rightarrow> (nat \<Rightarrow> ('b, 'p, 'm) comp) \<Rightarrow> fixed_header
     \<Rightarrow> (('s, 'b) body_reader, ('e, 'p) rx_error, publish_packet) comp" where
  "publish_receive maxs maxu rd pb header =
     (let flags = header_flags header;
          dup = (drop_bit 3 flags = 1);
          retain = (flags AND 0x01 = 1)
      in
      bnd (ok_or RxMalformedPacket (qos_try_from_bits (drop_bit 1 flags AND 0x03))) (\<lambda>qos.
      bnd (map_err rx_of_body_read (read_string (body_read rd) (body_store rd pb))) (\<lambda>topic_name.
      bnd (if topic_name = [] then ret None
           else bnd (ok_or RxInvalidTopicName (topic_name_new topic_name)) (\<lambda>t. ret (Some t)))
      (\<lambda>topic_name.
      bnd (case qos of
             AtMostOnce \<Rightarrow> ret IdAtMostOnce
           | AtLeastOnce \<Rightarrow> bnd (map_err rx_of_body_read (read_pid (body_read rd)))
                              (\<lambda>p. ret (IdAtLeastOnce p))
           | ExactlyOnce \<Rightarrow> bnd (map_err rx_of_body_read (read_pid (body_read rd)))
                              (\<lambda>p. ret (IdExactlyOnce p)))
      (\<lambda>identified_qos.
      bnd (map_err rx_of_body_read (read_vbi (body_read rd))) (\<lambda>properties_length.
      bnd (body_while (\<lambda>acc r. 0 < pp_length acc) (publish_property maxs maxu rd pb)
             (publish_props_init (vbi_size properties_length))) (\<lambda>acc.
      bnd (case (topic_name, pp_topic_alias acc) of
             (None, None) \<Rightarrow> fail RxProtocolError
           | (None, Some alias) \<Rightarrow> ret (TrAlias alias)
           | (Some name, None) \<Rightarrow> ret (TrName name)
           | (Some name, Some alias) \<Rightarrow> ret (TrMapping name alias))
      (\<lambda>topic.
      bnd (\<lambda>r. map_err rx_of_body_read (body_store rd pb (br_remaining_len r)) r) (\<lambda>message.
      ret \<lparr>pu_dup = dup, pu_identified_qos = identified_qos, pu_retain = retain, pu_topic = topic,
           pu_payload_format_indicator = pp_payload_format_indicator acc,
           pu_message_expiry_interval = pp_message_expiry_interval acc,
           pu_response_topic = pp_response_topic acc,
           pu_correlation_data = pp_correlation_data acc,
           pu_user_properties = pp_user_properties acc,
           pu_subscription_identifiers = pp_subscription_identifiers acc,
           pu_content_type = pp_content_type acc,
           pu_message = message\<rparr>)))))))))"

section \<open>Sending\<close>

text \<open>\<open>None\<close> is the absent value of the source.\<close>

definition publish_properties_len :: "publish_packet \<Rightarrow> nat" where
  "publish_properties_len p =
     option_written_len (\<lambda>_. prop_len PrPayloadFormatIndicator 1) (pu_payload_format_indicator p)
     + option_written_len (\<lambda>_. prop_len PrMessageExpiryInterval 4) (pu_message_expiry_interval p)
     + option_written_len (\<lambda>_. prop_len PrTopicAlias 2) (topic_alias (pu_topic p))
     + option_written_len (\<lambda>t. prop_len PrResponseTopic (string_written_len t)) (pu_response_topic p)
     + option_written_len (\<lambda>d. prop_len PrCorrelationData (binary_written_len d)) (pu_correlation_data p)
     + user_properties_written_len (pu_user_properties p)
     + option_written_len (\<lambda>c. prop_len PrContentType (string_written_len c)) (pu_content_type p)"

definition publish_properties_length :: "publish_packet \<Rightarrow> var_byte_int option" where
  "publish_properties_length p = vbi_new (word_of_nat (publish_properties_len p))"

definition publish_topic_string :: "publish_packet \<Rightarrow> mqtt_string" where
  "publish_topic_string p = (case topic_name_of (pu_topic p) of None \<Rightarrow> [] | Some t \<Rightarrow> t)"

text \<open>\<open>remaining_len_raw\<close>: \<open>None\<close> is \<open>Err(TooLargeToEncode)\<close>.\<close>

definition publish_remaining_len_raw :: "publish_packet \<Rightarrow> var_byte_int option" where
  "publish_remaining_len_raw p =
     Option.bind (publish_properties_length p) (\<lambda>properties_length.
     Option.bind (vbi_written_len properties_length) (\<lambda>l.
       let topic_name_length = string_written_len (publish_topic_string p);
           variable_header_length = topic_name_length
             + option_written_len (\<lambda>_. 2) (packet_identifier (pu_identified_qos p));
           total_properties_length = vbi_size properties_length + l;
           body_length = length (pu_message p);
           total_length = variable_header_length + total_properties_length + body_length
       in vbi_new (word_of_nat total_length)))"

definition publish_new ::
    "bool \<Rightarrow> identified_qos \<Rightarrow> bool \<Rightarrow> topic_reference \<Rightarrow> bool option \<Rightarrow> u32 option \<Rightarrow> topic_name option
     \<Rightarrow> mqtt_binary option \<Rightarrow> mqtt_string_pair list \<Rightarrow> mqtt_string option \<Rightarrow> u8 list
     \<Rightarrow> publish_packet option" where
  "publish_new dup identified_qos retain topic pfi mei response_topic correlation_data
     user_properties content_type message =
     (let p = \<lparr>pu_dup = dup, pu_identified_qos = identified_qos, pu_retain = retain, pu_topic = topic,
               pu_payload_format_indicator = pfi, pu_message_expiry_interval = mei,
               pu_response_topic = response_topic, pu_correlation_data = correlation_data,
               pu_user_properties = user_properties, pu_subscription_identifiers = [],
               pu_content_type = content_type, pu_message = message\<rparr>
      in map_option (\<lambda>_. p) (publish_remaining_len_raw p))"

definition publish_flags :: "publish_packet \<Rightarrow> u8" where
  "publish_flags p = push_bit 3 (if pu_dup p then 1 else 0)
     OR qos_into_bits (qos_of (pu_identified_qos p)) 1 OR (if pu_retain p then 1 else 0)"

text \<open>
  The body of \<open>send\<close>. \<open>unwrap_unchecked\<close> on a packet that is too long would be undefined behaviour;
  the model panics there, and \<open>publish_new\<close> returns no such packet.
\<close>

definition publish_write ::
    "('w, 'e) writer \<Rightarrow> publish_packet \<Rightarrow> ('w, 'e write_error, unit) comp" where
  "publish_write wr p =
     unwrap (publish_remaining_len_raw p) (\<lambda>len.
       thn (write_fixed_header wr (fixed_header_new PtPublish (publish_flags p) len))
       (thn (write_string wr (publish_topic_string p))
       (thn (write_option (write_pid wr) (packet_identifier (pu_identified_qos p)))
       (thn (write_option (write_vbi wr) (publish_properties_length p))
       (thn (write_option (\<lambda>v. write_prop wr PrPayloadFormatIndicator (write_bool wr v))
               (pu_payload_format_indicator p))
       (thn (write_option (\<lambda>v. write_prop wr PrMessageExpiryInterval (write_u32 wr v))
               (pu_message_expiry_interval p))
       (thn (write_option (\<lambda>v. write_prop wr PrTopicAlias (write_u16 wr v)) (topic_alias (pu_topic p)))
       (thn (write_option (\<lambda>v. write_prop wr PrResponseTopic (write_string wr v)) (pu_response_topic p))
       (thn (write_option (\<lambda>v. write_prop wr PrCorrelationData (write_binary wr v))
               (pu_correlation_data p))
       (thn (write_user_properties wr (pu_user_properties p))
       (thn (write_option (\<lambda>v. write_prop wr PrContentType (write_string wr v)) (pu_content_type p))
         (write_slice wr (pu_message p)))))))))))))"

definition publish_send ::
    "('w, 'e) writer \<Rightarrow> publish_packet \<Rightarrow> ('w, 'e tx_error, unit) comp" where
  "publish_send wr p = map_err tx_of_write (publish_write wr p)"

section \<open>The encoding\<close>

definition publish_props_bytes :: "publish_packet \<Rightarrow> u8 list" where
  "publish_props_bytes p =
     opt_bytes (\<lambda>v. prop_bytes PrPayloadFormatIndicator [bool_byte v]) (pu_payload_format_indicator p)
     @ opt_bytes (\<lambda>v. prop_bytes PrMessageExpiryInterval (u32_to_be_bytes v)) (pu_message_expiry_interval p)
     @ opt_bytes (\<lambda>v. prop_bytes PrTopicAlias (u16_to_be_bytes v)) (topic_alias (pu_topic p))
     @ opt_bytes (\<lambda>v. prop_bytes PrResponseTopic (binary_bytes v)) (pu_response_topic p)
     @ opt_bytes (\<lambda>v. prop_bytes PrCorrelationData (binary_bytes v)) (pu_correlation_data p)
     @ user_properties_bytes (pu_user_properties p)
     @ opt_bytes (\<lambda>v. prop_bytes PrContentType (binary_bytes v)) (pu_content_type p)"

definition publish_body_bytes :: "publish_packet \<Rightarrow> u8 list" where
  "publish_body_bytes p = binary_bytes (publish_topic_string p)
     @ opt_bytes u16_to_be_bytes (packet_identifier (pu_identified_qos p))
     @ vbi_bytes (word_of_nat (length (publish_props_bytes p)))
     @ publish_props_bytes p @ pu_message p"

definition publish_ok :: "publish_packet \<Rightarrow> bool" where
  "publish_ok p \<longleftrightarrow>
     (\<forall>i. packet_identifier (pu_identified_qos p) = Some i \<longrightarrow> pid_valid i)
   \<and> (\<forall>t. topic_name_of (pu_topic p) = Some t \<longrightarrow> string_ok t \<and> topic_name_is_valid t)
   \<and> (\<forall>a. topic_alias (pu_topic p) = Some a \<longrightarrow> a \<noteq> 0)
   \<and> (\<forall>t. pu_response_topic p = Some t \<longrightarrow> string_ok t \<and> topic_name_is_valid t)
   \<and> (\<forall>d. pu_correlation_data p = Some d \<longrightarrow> length d \<le> MAX_LENGTH)
   \<and> (\<forall>u \<in> set (pu_user_properties p). string_pair_ok u)
   \<and> (\<forall>c. pu_content_type p = Some c \<longrightarrow> string_ok c)
   \<and> pu_subscription_identifiers p = []
   \<and> length (publish_body_bytes p) \<le> 268435455"

lemma length_publish_props: "length (publish_props_bytes p) = publish_properties_len p"
  by (simp add: publish_props_bytes_def publish_properties_len_def length_opt_bytes
      string_written_len_def option_written_len_def split: option.split)

text \<open>The lengths are computed in \<open>u32\<close>.\<close>

lemma publish_lengths_u32:
  assumes "length (publish_props_bytes p) \<le> 268435455"
  shows "publish_properties_length p = Some (VarByteInt (word_of_nat (length (publish_props_bytes p))))"
    and "publish_remaining_len_raw p = vbi_new (word_of_nat (length (publish_body_bytes p)))"
proof -
  let ?n = "length (publish_props_bytes p)"
  show pl: "publish_properties_length p = Some (VarByteInt (word_of_nat ?n))"
    using vbi_small [OF assms]
    by (simp add: publish_properties_length_def vbi_new_def length_publish_props not_less)
  have "binary_written_len (publish_topic_string p)
      + option_written_len (\<lambda>_. 2) (packet_identifier (pu_identified_qos p))
      + (?n + length (vbi_bytes (word_of_nat ?n))) + length (pu_message p)
      = length (publish_body_bytes p)"
    by (simp add: publish_body_bytes_def length_opt_bytes)
  then show "publish_remaining_len_raw p = vbi_new (word_of_nat (length (publish_body_bytes p)))"
    using assms
    by (simp add: publish_remaining_len_raw_def pl vbi_written_len_bytes vbi_small vbi_size_def
        unat_small string_written_len_def Let_def del: of_nat_add)
qed

lemma publish_lengths:
  assumes "length (publish_body_bytes p) \<le> 268435455"
  shows "publish_properties_length p = Some (VarByteInt (word_of_nat (length (publish_props_bytes p))))"
    and "publish_remaining_len_raw p = Some (VarByteInt (word_of_nat (length (publish_body_bytes p))))"
    and "length (publish_props_bytes p) \<le> 268435455"
proof -
  show n: "length (publish_props_bytes p) \<le> 268435455" using assms by (simp add: publish_body_bytes_def)
  note publish_lengths_u32 [OF n]
  then show "publish_properties_length p = Some (VarByteInt (word_of_nat (length (publish_props_bytes p))))"
    and "publish_remaining_len_raw p = Some (VarByteInt (word_of_nat (length (publish_body_bytes p))))"
    using vbi_small [OF assms] by (simp_all add: vbi_new_def not_less)
qed

definition publish_header :: "publish_packet \<Rightarrow> fixed_header" where
  "publish_header p = fixed_header_new PtPublish (publish_flags p)
     (VarByteInt (word_of_nat (length (publish_body_bytes p))))"

lemma publish_header_flags:
  "(drop_bit 3 (header_flags (publish_header p)) = 1) = pu_dup p"
  "qos_try_from_bits (drop_bit 1 (header_flags (publish_header p)) AND 0x03)
     = Some (qos_of (pu_identified_qos p))"
  "(header_flags (publish_header p) AND 0x01 = 1) = pu_retain p"
  "header_packet_type (publish_header p) = Some PtPublish"
  by (cases "pu_identified_qos p"; cases "pu_dup p"; cases "pu_retain p";
      simp add: publish_header_def publish_flags_def header_flags_def fixed_header_new_def
        qos_into_bits_def qos_try_from_bits_def header_packet_type_def from_type_and_flags_def Let_def)+

context byte_sink
begin

lemma writes_publish_u32:
  assumes "length (publish_props_bytes p) \<le> 268435455"
    and "publish_remaining_len_raw p = Some (VarByteInt (word_of_nat (length (publish_body_bytes p))))"
  shows "writes (publish_write wr p) (fixed_header_bytes (publish_header p) @ publish_body_bytes p)"
proof -
  note vbi = writes_vbi [of "VarByteInt _", unfolded vbi_value.simps]
  have "writes (publish_write wr p)
      (fixed_header_bytes (publish_header p) @ binary_bytes (publish_topic_string p)
       @ opt_bytes u16_to_be_bytes (packet_identifier (pu_identified_qos p))
       @ opt_bytes (\<lambda>v. vbi_bytes (vbi_value v)) (Some (VarByteInt (word_of_nat (length (publish_props_bytes p)))))
       @ opt_bytes (\<lambda>v. prop_bytes PrPayloadFormatIndicator [bool_byte v]) (pu_payload_format_indicator p)
       @ opt_bytes (\<lambda>v. prop_bytes PrMessageExpiryInterval (u32_to_be_bytes v)) (pu_message_expiry_interval p)
       @ opt_bytes (\<lambda>v. prop_bytes PrTopicAlias (u16_to_be_bytes v)) (topic_alias (pu_topic p))
       @ opt_bytes (\<lambda>v. prop_bytes PrResponseTopic (binary_bytes v)) (pu_response_topic p)
       @ opt_bytes (\<lambda>v. prop_bytes PrCorrelationData (binary_bytes v)) (pu_correlation_data p)
       @ user_properties_bytes (pu_user_properties p)
       @ opt_bytes (\<lambda>v. prop_bytes PrContentType (binary_bytes v)) (pu_content_type p)
       @ pu_message p)"
    unfolding publish_write_def publish_lengths_u32(1) [OF assms(1)] assms(2) unwrap_Some publish_header_def
      write_pid_def write_u16_def write_u32_def write_string_def
    by (intro writes_thn writes_fixed_header writes_slice writes_option writes_prop writes_binary
        writes_user_properties writes_vbi writes_bool)
  then show ?thesis
    by (simp add: publish_body_bytes_def publish_props_bytes_def opt_bytes_def [of _ "Some _"])
qed

lemma writes_publish:
  assumes "publish_ok p"
  shows "writes (publish_write wr p) (fixed_header_bytes (publish_header p) @ publish_body_bytes p)"
proof -
  have "length (publish_body_bytes p) \<le> 268435455" using assms by (simp add: publish_ok_def)
  then show ?thesis by (intro writes_publish_u32 publish_lengths)
qed

end

lemma publish_property_shrinks: "shrinks (publish_property maxs maxu rd pb)"
  unfolding publish_property_def Let_def consume_def by (rule shrinksI) (intro keeps_intros)

definition publish_memory :: "publish_packet \<Rightarrow> nat" where
  "publish_memory p = length (publish_topic_string p)
     + (option_written_len length (pu_response_topic p)
     + (option_written_len length (pu_correlation_data p)
     + (sum_list (map (\<lambda>u. length (pair_name u) + length (pair_value u)) (pu_user_properties p))
     + (option_written_len length (pu_content_type p) + length (pu_message p)))))"

context packet_body
begin

abbreviation pstep :: "nat \<Rightarrow> nat \<Rightarrow> publish_props
    \<Rightarrow> (('s, 'b) body_reader, ('e, 'p) rx_error, publish_props) comp" where
  "pstep maxs maxu \<equiv> publish_property maxs maxu rd pb"

abbreviation ploop :: "nat \<Rightarrow> nat \<Rightarrow> publish_props
    \<Rightarrow> (('s, 'b) body_reader, ('e, 'p) rx_error, publish_props) comp" where
  "ploop maxs maxu \<equiv> body_while (\<lambda>acc r. 0 < pp_length acc) (pstep maxs maxu)"

text \<open>One iteration, for the property that the type announces.\<close>

lemma pstep_payload_format_indicator:
  assumes "pp_payload_format_indicator acc = None" and "pp_length acc = 2 + n"
  shows "body.reads (pstep maxs maxu acc) (prop_bytes PrPayloadFormatIndicator [bool_byte v]) 0
    (acc\<lparr>pp_payload_format_indicator := Some v, pp_length := n\<rparr>)"
  unfolding publish_property_def
  by (rule reads_typed)
     (simp add: assms consume_def property_type_written_len_def string_written_len_def prop_len_def
        Let_def,
      rule body.reads_bnd_ret [OF reads_try_set [OF body.reads_bool]],
      simp_all add: assms consume_def string_written_len_def)

lemma pstep_message_expiry_interval:
  assumes "pp_message_expiry_interval acc = None" and "pp_length acc = 5 + n"
  shows "body.reads (pstep maxs maxu acc) (prop_bytes PrMessageExpiryInterval (u32_to_be_bytes v)) 0
    (acc\<lparr>pp_message_expiry_interval := Some v, pp_length := n\<rparr>)"
  unfolding publish_property_def
  by (rule reads_typed)
     (simp add: assms consume_def property_type_written_len_def string_written_len_def prop_len_def
        Let_def,
      rule body.reads_bnd_ret [OF reads_try_set [OF body.reads_u32]],
      simp_all add: assms consume_def string_written_len_def)

lemma pstep_topic_alias:
  assumes "pp_topic_alias acc = None" and "pp_length acc = 3 + n" and "v \<noteq> 0"
  shows "body.reads (pstep maxs maxu acc) (prop_bytes PrTopicAlias (u16_to_be_bytes v)) 0
    (acc\<lparr>pp_topic_alias := Some v, pp_length := n\<rparr>)"
  unfolding publish_property_def
  by (rule reads_typed)
     (simp add: assms consume_def property_type_written_len_def string_written_len_def prop_len_def
        Let_def,
      rule body.reads_bnd_ret [OF reads_try_set [OF body.reads_nonzero_u16]],
      simp_all add: assms consume_def string_written_len_def)

lemma pstep_response_topic:
  assumes "pp_response_topic acc = None" and "pp_length acc = prop_len PrResponseTopic (binary_written_len v) + n"
    and "string_ok v" and "topic_name_is_valid v"
  shows "body.reads (pstep maxs maxu acc) (prop_bytes PrResponseTopic (binary_bytes v)) (length v)
    (acc\<lparr>pp_response_topic := Some v, pp_length := n\<rparr>)"
  unfolding publish_property_def
  by (rule reads_typed)
     (simp add: assms consume_def property_type_written_len_def string_written_len_def prop_len_def
        Let_def,
      rule body.reads_bnd_ret [OF reads_try_set [OF body.reads_topic_name]],
      simp_all add: assms consume_def string_written_len_def)

lemma pstep_correlation_data:
  assumes "pp_correlation_data acc = None" and "pp_length acc = prop_len PrCorrelationData (binary_written_len v) + n"
    and "length v \<le> MAX_LENGTH"
  shows "body.reads (pstep maxs maxu acc) (prop_bytes PrCorrelationData (binary_bytes v)) (length v)
    (acc\<lparr>pp_correlation_data := Some v, pp_length := n\<rparr>)"
  unfolding publish_property_def
  by (rule reads_typed)
     (simp add: assms consume_def property_type_written_len_def string_written_len_def prop_len_def
        Let_def,
      rule body.reads_bnd_ret [OF reads_try_set [OF body.reads_binary]],
      simp_all add: assms consume_def string_written_len_def)

lemma pstep_content_type:
  assumes "pp_content_type acc = None" and "pp_length acc = prop_len PrContentType (binary_written_len v) + n"
    and "string_ok v"
  shows "body.reads (pstep maxs maxu acc) (prop_bytes PrContentType (binary_bytes v)) (length v)
    (acc\<lparr>pp_content_type := Some v, pp_length := n\<rparr>)"
  unfolding publish_property_def
  by (rule reads_typed)
     (simp add: assms consume_def property_type_written_len_def string_written_len_def prop_len_def
        Let_def,
      rule body.reads_bnd_ret [OF reads_try_set [OF body.reads_string]],
      simp_all add: assms consume_def string_written_len_def)

lemma pstep_user_property:
  assumes "length (pp_user_properties acc) < maxu" and "string_pair_ok u"
    and "pp_length acc = prop_len PrUserProperty (string_pair_written_len u) + n"
  shows "body.reads (pstep maxs maxu acc) (prop_bytes PrUserProperty (string_pair_bytes u))
    (length (pair_name u) + length (pair_value u))
    (acc\<lparr>pp_user_properties := pp_user_properties acc @ [u], pp_length := n\<rparr>)"
  unfolding publish_property_def
  by (rule reads_typed)
     (simp add: assms consume_def property_type_written_len_def prop_len_def Let_def,
      rule body.reads_bnd_ret [OF body.reads_map_err [OF body.reads_string_pair]],
      (cases acc; simp add: assms consume_def)+)

lemma ploop_done:
  "pp_length acc = 0 \<Longrightarrow> acc = res \<Longrightarrow> body.reads (ploop maxs maxu acc) [] 0 res"
  by (simp, rule reads_while_done [OF publish_property_shrinks]) simp

lemma ploop_step:
  assumes "body.reads (pstep maxs maxu acc) a k acc'" and "0 < pp_length acc"
    and "body.reads (ploop maxs maxu acc') b l x"
  shows "body.reads (ploop maxs maxu acc) (a @ b) (k + l) x"
  by (rule reads_while_step [OF publish_property_shrinks _ assms(1,3)]) (rule assms(2))

text \<open>A property that may be absent.\<close>

lemma ploop_option:
  assumes "\<And>v. x = Some v \<Longrightarrow> body.reads (pstep maxs maxu acc) (g v) (m v) acc'"
    and "x = None \<Longrightarrow> acc' = acc" and "x \<noteq> None \<Longrightarrow> 0 < pp_length acc"
    and "body.reads (ploop maxs maxu acc') b l res"
  shows "body.reads (ploop maxs maxu acc) (opt_bytes g x @ b) (option_written_len m x + l) res"
  using assms ploop_step [of maxs maxu acc _ _ acc' b l res]
  by (cases x) (auto simp: opt_bytes_def option_written_len_def)

lemma ploop_user_properties:
  assumes "length (pp_user_properties acc) + length us \<le> maxu" and "\<forall>u \<in> set us. string_pair_ok u"
    and "pp_length acc = user_properties_written_len us + n"
    and "body.reads (ploop maxs maxu
           (acc\<lparr>pp_user_properties := pp_user_properties acc @ us, pp_length := n\<rparr>)) b l res"
  shows "body.reads (ploop maxs maxu acc) (user_properties_bytes us @ b)
    (sum_list (map (\<lambda>u. length (pair_name u) + length (pair_value u)) us) + l) res"
  using assms
proof (induction us arbitrary: acc)
  case Nil
  then show ?case
    by (cases acc) (simp add: user_properties_bytes_def user_properties_written_len_def)
next
  case (Cons u us)
  let ?acc = "acc\<lparr>pp_user_properties := pp_user_properties acc @ [u],
      pp_length := user_properties_written_len us + n\<rparr>"
  have step: "body.reads (pstep maxs maxu acc) (prop_bytes PrUserProperty (string_pair_bytes u))
      (length (pair_name u) + length (pair_value u)) ?acc"
    using Cons.prems by (intro pstep_user_property) (simp_all add: user_properties_written_len_def)
  have "body.reads (ploop maxs maxu ?acc) (user_properties_bytes us @ b)
      (sum_list (map (\<lambda>u. length (pair_name u) + length (pair_value u)) us) + l) res"
    using Cons.prems by (intro Cons.IH) simp_all
  from ploop_step [OF step _ this] show ?case
    using Cons.prems(3)
    by (simp add: user_properties_bytes_def user_properties_written_len_def prop_len_def
        property_type_written_len_def add.assoc)
qed

lemma ploop_payload_format_indicator:
  assumes "pp_payload_format_indicator acc = None" and "pp_length acc = option_written_len (\<lambda>v. 2) x + n"
    and "body.reads (ploop maxs maxu (acc\<lparr>pp_payload_format_indicator := x, pp_length := n\<rparr>)) b l res"
  shows "body.reads (ploop maxs maxu acc) (opt_bytes (\<lambda>v. prop_bytes PrPayloadFormatIndicator [bool_byte v]) x @ b)
    (option_written_len (\<lambda>v. 0) x + l) res"
proof (rule ploop_option [OF _ _ _ assms(3)])
  show "acc\<lparr>pp_payload_format_indicator := x, pp_length := n\<rparr> = acc" if "x = None"
    using that assms by (cases acc) (simp add: option_written_len_def)
  show "0 < pp_length acc" if "x \<noteq> None"
    using that assms by (auto simp: option_written_len_def prop_len_def property_type_written_len_def)
  show "body.reads (pstep maxs maxu acc) (prop_bytes PrPayloadFormatIndicator [bool_byte v]) (0) (acc\<lparr>pp_payload_format_indicator := x, pp_length := n\<rparr>)"
    if "x = Some v" for v
    unfolding that by (rule pstep_payload_format_indicator) (use that assms in \<open>simp_all add: option_written_len_def\<close>)
qed

lemma ploop_message_expiry_interval:
  assumes "pp_message_expiry_interval acc = None" and "pp_length acc = option_written_len (\<lambda>v. 5) x + n"
    and "body.reads (ploop maxs maxu (acc\<lparr>pp_message_expiry_interval := x, pp_length := n\<rparr>)) b l res"
  shows "body.reads (ploop maxs maxu acc) (opt_bytes (\<lambda>v. prop_bytes PrMessageExpiryInterval (u32_to_be_bytes v)) x @ b)
    (option_written_len (\<lambda>v. 0) x + l) res"
proof (rule ploop_option [OF _ _ _ assms(3)])
  show "acc\<lparr>pp_message_expiry_interval := x, pp_length := n\<rparr> = acc" if "x = None"
    using that assms by (cases acc) (simp add: option_written_len_def)
  show "0 < pp_length acc" if "x \<noteq> None"
    using that assms by (auto simp: option_written_len_def prop_len_def property_type_written_len_def)
  show "body.reads (pstep maxs maxu acc) (prop_bytes PrMessageExpiryInterval (u32_to_be_bytes v)) (0) (acc\<lparr>pp_message_expiry_interval := x, pp_length := n\<rparr>)"
    if "x = Some v" for v
    unfolding that by (rule pstep_message_expiry_interval) (use that assms in \<open>simp_all add: option_written_len_def\<close>)
qed

lemma ploop_topic_alias:
  assumes "pp_topic_alias acc = None" and "pp_length acc = option_written_len (\<lambda>v. 3) x + n"
    and "\<And>v. x = Some v \<Longrightarrow> v \<noteq> 0"
    and "body.reads (ploop maxs maxu (acc\<lparr>pp_topic_alias := x, pp_length := n\<rparr>)) b l res"
  shows "body.reads (ploop maxs maxu acc) (opt_bytes (\<lambda>v. prop_bytes PrTopicAlias (u16_to_be_bytes v)) x @ b)
    (option_written_len (\<lambda>v. 0) x + l) res"
proof (rule ploop_option [OF _ _ _ assms(4)])
  show "acc\<lparr>pp_topic_alias := x, pp_length := n\<rparr> = acc" if "x = None"
    using that assms by (cases acc) (simp add: option_written_len_def)
  show "0 < pp_length acc" if "x \<noteq> None"
    using that assms by (auto simp: option_written_len_def prop_len_def property_type_written_len_def)
  show "body.reads (pstep maxs maxu acc) (prop_bytes PrTopicAlias (u16_to_be_bytes v)) (0) (acc\<lparr>pp_topic_alias := x, pp_length := n\<rparr>)"
    if "x = Some v" for v
    unfolding that by (rule pstep_topic_alias) (use that assms in \<open>simp_all add: option_written_len_def\<close>)
qed

lemma ploop_response_topic:
  assumes "pp_response_topic acc = None" and "pp_length acc = option_written_len (\<lambda>v. prop_len PrResponseTopic (binary_written_len v)) x + n"
    and "\<And>v. x = Some v \<Longrightarrow> string_ok v \<and> topic_name_is_valid v"
    and "body.reads (ploop maxs maxu (acc\<lparr>pp_response_topic := x, pp_length := n\<rparr>)) b l res"
  shows "body.reads (ploop maxs maxu acc) (opt_bytes (\<lambda>v. prop_bytes PrResponseTopic (binary_bytes v)) x @ b)
    (option_written_len (\<lambda>v. length v) x + l) res"
proof (rule ploop_option [OF _ _ _ assms(4)])
  show "acc\<lparr>pp_response_topic := x, pp_length := n\<rparr> = acc" if "x = None"
    using that assms by (cases acc) (simp add: option_written_len_def)
  show "0 < pp_length acc" if "x \<noteq> None"
    using that assms by (auto simp: option_written_len_def prop_len_def property_type_written_len_def)
  show "body.reads (pstep maxs maxu acc) (prop_bytes PrResponseTopic (binary_bytes v)) (length v) (acc\<lparr>pp_response_topic := x, pp_length := n\<rparr>)"
    if "x = Some v" for v
    unfolding that by (rule pstep_response_topic) (use that assms in \<open>simp_all add: option_written_len_def\<close>)
qed

lemma ploop_correlation_data:
  assumes "pp_correlation_data acc = None" and "pp_length acc = option_written_len (\<lambda>v. prop_len PrCorrelationData (binary_written_len v)) x + n"
    and "\<And>v. x = Some v \<Longrightarrow> length v \<le> MAX_LENGTH"
    and "body.reads (ploop maxs maxu (acc\<lparr>pp_correlation_data := x, pp_length := n\<rparr>)) b l res"
  shows "body.reads (ploop maxs maxu acc) (opt_bytes (\<lambda>v. prop_bytes PrCorrelationData (binary_bytes v)) x @ b)
    (option_written_len (\<lambda>v. length v) x + l) res"
proof (rule ploop_option [OF _ _ _ assms(4)])
  show "acc\<lparr>pp_correlation_data := x, pp_length := n\<rparr> = acc" if "x = None"
    using that assms by (cases acc) (simp add: option_written_len_def)
  show "0 < pp_length acc" if "x \<noteq> None"
    using that assms by (auto simp: option_written_len_def prop_len_def property_type_written_len_def)
  show "body.reads (pstep maxs maxu acc) (prop_bytes PrCorrelationData (binary_bytes v)) (length v) (acc\<lparr>pp_correlation_data := x, pp_length := n\<rparr>)"
    if "x = Some v" for v
    unfolding that by (rule pstep_correlation_data) (use that assms in \<open>simp_all add: option_written_len_def\<close>)
qed

lemma ploop_content_type:
  assumes "pp_content_type acc = None" and "pp_length acc = option_written_len (\<lambda>v. prop_len PrContentType (binary_written_len v)) x + n"
    and "\<And>v. x = Some v \<Longrightarrow> string_ok v"
    and "body.reads (ploop maxs maxu (acc\<lparr>pp_content_type := x, pp_length := n\<rparr>)) b l res"
  shows "body.reads (ploop maxs maxu acc) (opt_bytes (\<lambda>v. prop_bytes PrContentType (binary_bytes v)) x @ b)
    (option_written_len (\<lambda>v. length v) x + l) res"
proof (rule ploop_option [OF _ _ _ assms(4)])
  show "acc\<lparr>pp_content_type := x, pp_length := n\<rparr> = acc" if "x = None"
    using that assms by (cases acc) (simp add: option_written_len_def)
  show "0 < pp_length acc" if "x \<noteq> None"
    using that assms by (auto simp: option_written_len_def prop_len_def property_type_written_len_def)
  show "body.reads (pstep maxs maxu acc) (prop_bytes PrContentType (binary_bytes v)) (length v) (acc\<lparr>pp_content_type := x, pp_length := n\<rparr>)"
    if "x = Some v" for v
    unfolding that by (rule pstep_content_type) (use that assms in \<open>simp_all add: option_written_len_def\<close>)
qed

text \<open>The properties of a packet, and what the loop has collected in the end.\<close>

lemma reads_publish_props:
  assumes ok: "publish_ok p" and maxu: "length (pu_user_properties p) \<le> maxu"
  shows "body.reads (ploop maxs maxu (publish_props_init (length (publish_props_bytes p))))
    (publish_props_bytes p)
    (option_written_len length (pu_response_topic p)
     + (option_written_len length (pu_correlation_data p)
     + (sum_list (map (\<lambda>u. length (pair_name u) + length (pair_value u)) (pu_user_properties p))
     + option_written_len length (pu_content_type p))))
    \<lparr>pp_length = 0, pp_payload_format_indicator = pu_payload_format_indicator p,
     pp_message_expiry_interval = pu_message_expiry_interval p,
     pp_topic_alias = topic_alias (pu_topic p), pp_response_topic = pu_response_topic p,
     pp_correlation_data = pu_correlation_data p, pp_user_properties = pu_user_properties p,
     pp_subscription_identifiers = [], pp_content_type = pu_content_type p\<rparr>"
proof -
  define n6 where "n6 = option_written_len (\<lambda>v. prop_len PrContentType (binary_written_len v)) (pu_content_type p)"
  define n5 where "n5 = user_properties_written_len (pu_user_properties p) + n6"
  define n4 where "n4 = option_written_len (\<lambda>v. prop_len PrCorrelationData (binary_written_len v)) (pu_correlation_data p) + n5"
  define n3 where "n3 = option_written_len (\<lambda>v. prop_len PrResponseTopic (binary_written_len v)) (pu_response_topic p) + n4"
  define n2 where "n2 = option_written_len (\<lambda>v. 3) (topic_alias (pu_topic p)) + n3"
  define n1 where "n1 = option_written_len (\<lambda>v. 5) (pu_message_expiry_interval p) + n2"
  define n0 where "n0 = option_written_len (\<lambda>v. 2) (pu_payload_format_indicator p) + n1"
  note lens = n0_def n1_def n2_def n3_def n4_def n5_def n6_def
  have n0: "length (publish_props_bytes p) = n0"
    by (simp add: length_publish_props publish_properties_len_def lens string_written_len_def
        prop_len_def property_type_written_len_def option_written_len_def split: option.split)
  have "body.reads (ploop maxs maxu (publish_props_init n0))
    (opt_bytes (\<lambda>v. prop_bytes PrPayloadFormatIndicator [bool_byte v]) (pu_payload_format_indicator p)
     @ opt_bytes (\<lambda>v. prop_bytes PrMessageExpiryInterval (u32_to_be_bytes v)) (pu_message_expiry_interval p)
     @ opt_bytes (\<lambda>v. prop_bytes PrTopicAlias (u16_to_be_bytes v)) (topic_alias (pu_topic p))
     @ opt_bytes (\<lambda>v. prop_bytes PrResponseTopic (binary_bytes v)) (pu_response_topic p)
     @ opt_bytes (\<lambda>v. prop_bytes PrCorrelationData (binary_bytes v)) (pu_correlation_data p)
     @ user_properties_bytes (pu_user_properties p)
     @ opt_bytes (\<lambda>v. prop_bytes PrContentType (binary_bytes v)) (pu_content_type p) @ [])
    (option_written_len (\<lambda>v. 0) (pu_payload_format_indicator p)
     + (option_written_len (\<lambda>v. 0) (pu_message_expiry_interval p)
     + (option_written_len (\<lambda>v. 0) (topic_alias (pu_topic p))
     + (option_written_len length (pu_response_topic p)
     + (option_written_len length (pu_correlation_data p)
     + (sum_list (map (\<lambda>u. length (pair_name u) + length (pair_value u)) (pu_user_properties p))
     + (option_written_len length (pu_content_type p) + 0)))))))
    \<lparr>pp_length = 0, pp_payload_format_indicator = pu_payload_format_indicator p,
     pp_message_expiry_interval = pu_message_expiry_interval p,
     pp_topic_alias = topic_alias (pu_topic p), pp_response_topic = pu_response_topic p,
     pp_correlation_data = pu_correlation_data p, pp_user_properties = pu_user_properties p,
     pp_subscription_identifiers = [], pp_content_type = pu_content_type p\<rparr>"
    using ok maxu unfolding publish_ok_def publish_props_init_def
    apply (intro ploop_payload_format_indicator [where n = n1]; (simp add: n0_def; fail)?)
    apply (intro ploop_message_expiry_interval [where n = n2]; (simp add: n1_def; fail)?)
    apply (intro ploop_topic_alias [where n = n3]; (simp add: n2_def; fail)?)
    apply (intro ploop_response_topic [where n = n4]; (simp add: n3_def; fail)?)
    apply (intro ploop_correlation_data [where n = n5]; (simp add: n4_def; fail)?)
    apply (intro ploop_user_properties [where n = n6]; (simp add: n5_def; fail)?)
    apply (intro ploop_content_type [where n = 0]; (simp add: n6_def; fail)?)
    apply (intro ploop_done; simp)
    done
  then show ?thesis unfolding n0 by (simp add: publish_props_bytes_def)
qed

lemma reads_identified_qos:
  assumes "\<forall>i. packet_identifier q = Some i \<longrightarrow> pid_valid i"
  shows "body.reads (case qos_of q of
        AtMostOnce \<Rightarrow> ret IdAtMostOnce
      | AtLeastOnce \<Rightarrow> bnd (map_err rx_of_body_read (read_pid brd)) (\<lambda>p. ret (IdAtLeastOnce p))
      | ExactlyOnce \<Rightarrow> bnd (map_err rx_of_body_read (read_pid brd)) (\<lambda>p. ret (IdExactlyOnce p)))
    (opt_bytes u16_to_be_bytes (packet_identifier q)) 0 q"
  using assms
  by (cases q) (auto simp: opt_bytes_def intro!: body.reads_ret
      body.reads_bnd_ret [OF body.reads_map_err [OF body.reads_pid]])

lemma parses_publish:
  assumes ok: "publish_ok p" and maxu: "length (pu_user_properties p) \<le> maxu"
  shows "body.parses (publish_receive maxs maxu rd pb (publish_header p)) (publish_body_bytes p)
    (publish_memory p) p"
proof -
  let ?m = "length (publish_props_bytes p)" and ?t = "publish_topic_string p"
  let ?name = "topic_name_of (pu_topic p)" and ?al = "topic_alias (pu_topic p)"
  have m: "?m \<le> 268435455" using ok by (simp add: publish_ok_def publish_lengths)
  have t: "string_ok ?t" "?name = None \<Longrightarrow> ?t = []" "?name = Some n \<Longrightarrow> n \<noteq> [] \<and> ?t = n \<and> topic_name_new n = Some n" for n
    using ok by (auto simp: publish_ok_def publish_topic_string_def topic_name_new_def
        topic_name_is_valid_def string_ok_def split: option.split)
  have vbi: "body.reads (map_err rx_of_body_read (read_vbi brd)) (vbi_bytes (word_of_nat ?m)) 0
      (VarByteInt (word_of_nat ?m))"
    by (rule body.reads_map_err [OF body.reads_vbi [OF vbi_small [OF m]]])
  have name: "(if ?t = [] then ret None
      else bnd (ok_or RxInvalidTopicName (topic_name_new ?t)) (\<lambda>t. ret (Some t))) = ret ?name"
    using t(2,3) by (cases ?name) (simp_all add: ok_or_def)
  have topic: "(case (?name, ?al) of
      (None, None) \<Rightarrow> fail RxProtocolError
    | (None, Some alias) \<Rightarrow> ret (TrAlias alias)
    | (Some name, None) \<Rightarrow> ret (TrName name)
    | (Some name, Some alias) \<Rightarrow> ret (TrMapping name alias)) = ret (pu_topic p)"
    by (cases "pu_topic p") simp_all
  have msg: "body.parses (bnd (\<lambda>r. map_err rx_of_body_read (bst (br_remaining_len r)) r) (\<lambda>message. ret (f message)))
      (pu_message p) (length (pu_message p)) p" if "f (pu_message p) = p" for f
    by (rule parses_bnd_ret [OF parses_rest]) (simp add: that)
  have str: "body.reads (map_err rx_of_body_read (read_string brd bst)) (binary_bytes ?t) (length ?t) ?t"
    by (rule body.reads_map_err [OF body.reads_string [OF t(1)]])
  have qos: "\<forall>i. packet_identifier (pu_identified_qos p) = Some i \<longrightarrow> pid_valid i"
    using ok by (simp add: publish_ok_def)
  have len: "vbi_size (VarByteInt (word_of_nat ?m)) = ?m" using m by (simp add: vbi_size_def unat_small)
  have sub: "pu_subscription_identifiers p = []" using ok by (simp add: publish_ok_def)
  have "body.parses (publish_receive maxs maxu rd pb (publish_header p)) (publish_body_bytes p)
    (length ?t + (0 + (0 + ((option_written_len length (pu_response_topic p)
     + (option_written_len length (pu_correlation_data p)
     + (sum_list (map (\<lambda>u. length (pair_name u) + length (pair_value u)) (pu_user_properties p))
     + option_written_len length (pu_content_type p)))) + length (pu_message p))))) p"
    unfolding publish_receive_def publish_body_bytes_def Let_def publish_header_flags ok_or_simps bnd_ret
    apply (rule body.parses_bnd [OF str])
    apply (simp only: name bnd_ret)
    apply (rule body.parses_bnd [OF reads_identified_qos [OF qos]])
    apply (rule body.parses_bnd [OF vbi])
    apply (simp only: len)
    apply (rule body.parses_bnd [OF reads_publish_props [OF ok maxu]])
    apply (simp only: publish_props.simps topic bnd_ret)
    apply (rule msg)
    apply (simp add: sub flip: sub)
    done
  then show ?thesis by (simp add: publish_memory_def add.assoc)
qed

end

section \<open>Round trips\<close>

text \<open>C20: For every transport and memory provider that keep their contracts, a PUBLISH packet whose body
  fits into the 268435455 bytes that the fixed header can announce is written completely, in
  \<open>encoded_len\<close> bytes, behind a PUBLISH header; and a receiver that has read that header reads the
  same packet back: flags, topic name or alias, packet identifier, every property and the message,
  consuming the body and nothing beyond.\<close>

theorem publish_roundtrip:
  assumes "byte_sink wr out room" and "packet_body rd bytes pb free"
    and "publish_ok p" and "length (pu_user_properties p) \<le> maxu"
    and "encoded_len (publish_remaining_len_raw p) = Some n" and "room w n"
  shows "\<exists>w' h body. publish_send wr p w = (Ok (), w')
     \<and> out w' = out w @ fixed_header_bytes h @ body
     \<and> n = length (fixed_header_bytes h) + length body
     \<and> publish_remaining_len_raw p = Some (remaining_len h) \<and> vbi_size (remaining_len h) = length body
     \<and> header_packet_type h = Some PtPublish
     \<and> (\<forall>s b rest. bytes s = body @ rest \<and> free b (publish_memory p) \<longrightarrow>
          (\<exists>r'. publish_receive maxs maxu rd pb h (body_reader_new s b (length body)) = (Ok p, r')
              \<and> br_remaining_len r' = 0 \<and> bytes (br_r r') = rest))"
proof -
  have b: "length (publish_body_bytes p) \<le> 268435455" using assms(3) by (simp add: publish_ok_def)
  have receive: "\<exists>r'. publish_receive maxs maxu rd pb (publish_header p)
        (body_reader_new s b (length (publish_body_bytes p))) = (Ok p, r')
      \<and> br_remaining_len r' = 0 \<and> bytes (br_r r') = rest"
    if "bytes s = publish_body_bytes p @ rest" and "free b (publish_memory p)" for s b rest
    by (rule packet_body.parses_run [OF assms(2) packet_body.parses_publish [OF assms(2-4)] that])
  show ?thesis
    unfolding publish_send_def
    by (rule byte_sink.sends_packet [OF assms(1) byte_sink.writes_publish [OF assms(1,3),
          unfolded publish_header_def] b publish_lengths(2) [OF b] assms(5,6)])
       (use receive publish_header_flags(4) in \<open>simp add: publish_header_def\<close>)
qed

definition sample_publish :: publish_packet where
  "sample_publish =
     \<lparr>pu_dup = False, pu_identified_qos = IdExactlyOnce 9, pu_retain = True,
      pu_topic = TrMapping [0x61, 0x2F, 0x62] 4, pu_payload_format_indicator = Some True,
      pu_message_expiry_interval = Some 60, pu_response_topic = None,
      pu_correlation_data = Some [1, 2], pu_user_properties = [], pu_subscription_identifiers = [],
      pu_content_type = None, pu_message = [0x68, 0x69]\<rparr>"

theorem publish_roundtrip_witness:
  "\<exists>w' h body. publish_send slice_write sample_publish (slice_writer_new (replicate 32 0)) = (Ok (), w')
     \<and> slice_out w' = slice_out (slice_writer_new (replicate 32 0)) @ fixed_header_bytes h @ body
     \<and> 27 = length (fixed_header_bytes h) + length body
     \<and> publish_remaining_len_raw sample_publish = Some (remaining_len h)
     \<and> vbi_size (remaining_len h) = length body
     \<and> header_packet_type h = Some PtPublish
     \<and> (\<forall>s b rest. slice_bytes s = body @ rest
            \<and> publish_memory sample_publish \<le> bump_remaining_len b \<longrightarrow>
          (\<exists>r'. publish_receive 2 2 slice_read bump_provide h (body_reader_new s b (length body))
                  = (Ok sample_publish :: ((unit, insufficient_space) rx_error, publish_packet) res, r')
              \<and> br_remaining_len r' = 0 \<and> slice_bytes (br_r r') = rest))"
proof (rule publish_roundtrip [OF slice_out.byte_sink_axioms slice_bump.packet_body_axioms])
  have len: "publish_properties_len sample_publish = 15"
    by (simp add: sample_publish_def publish_properties_len_def option_written_len_def prop_len_def
        property_type_written_len_def binary_written_len_def user_properties_written_len_def)
  have body: "length (publish_body_bytes sample_publish) = 25"
    by (simp add: publish_body_bytes_def length_publish_props len)
       (simp add: sample_publish_def publish_topic_string_def opt_bytes_def length_vbi_bytes
         binary_written_len_def)
  have "topic_name_is_valid [0x61, 0x2F, 0x62]" "string_ok [0x61, 0x2F, 0x62]"
    by (simp_all add: topic_name_is_valid_def string_ok_def MAX_LENGTH_def)
  then show "publish_ok sample_publish"
    by (simp add: publish_ok_def body) (simp add: sample_publish_def pid_valid_def MAX_LENGTH_def)
  show "length (pu_user_properties sample_publish) \<le> 2" by (simp add: sample_publish_def)
  show "encoded_len (publish_remaining_len_raw sample_publish) = Some 27"
    by (simp add: publish_lengths body encoded_len_def vbi_written_len_def vbi_size_def)
  show "slice_room (slice_writer_new (replicate 32 0)) 27" by (simp add: slice_room_def slice_writer_new_def)
qed

text \<open>C30: \<open>PublishPacket::new\<close> computes the remaining length in \<open>u32\<close>, and the check that it can be encoded
  comes after the truncation. On a target with 64-bit \<open>usize\<close>, whatever the arguments, a packet is
  accepted exactly when the length of its body modulo 2 to the power of 32 is at most 268435455, not
  when the length itself is. The header announces the length modulo 2 to the power of 32, \<open>send\<close>
  writes all of the body behind it and reports success, and with a body of at least 4 GiB the header
  announces less than is written, so that the server takes the rest of the message for other packets.\<close>

theorem publish_length_truncated:
  assumes "byte_sink wr out room" and "pu_subscription_identifiers p = []"
    and "length (publish_props_bytes p) \<le> 268435455" and "n = length (publish_body_bytes p)"
  shows "publish_new (pu_dup p) (pu_identified_qos p) (pu_retain p) (pu_topic p) (pu_payload_format_indicator p)
      (pu_message_expiry_interval p) (pu_response_topic p) (pu_correlation_data p) (pu_user_properties p)
      (pu_content_type p) (pu_message p) = (if n mod 2 ^ 32 \<le> 268435455 then Some p else None)
    \<and> (n mod 2 ^ 32 \<le> 268435455 \<longrightarrow>
        vbi_size (remaining_len (publish_header p)) = n mod 2 ^ 32
      \<and> (2 ^ 32 \<le> n \<longrightarrow> vbi_size (remaining_len (publish_header p)) < n)
      \<and> (\<forall>w. room w (length (fixed_header_bytes (publish_header p)) + n) \<longrightarrow>
          (\<exists>w'. publish_send wr p w = (Ok (), w')
              \<and> out w' = out w @ fixed_header_bytes (publish_header p) @ publish_body_bytes p)))"
proof -
  have m: "unat (word_of_nat n :: u32) = n mod 2 ^ 32" by (simp add: unat_of_nat)
  then have raw: "publish_remaining_len_raw p = (if n mod 2 ^ 32 \<le> 268435455 then Some (VarByteInt (word_of_nat n)) else None)"
    unfolding publish_lengths_u32(2) [OF assms(3), folded assms(4)]
    by (auto simp: vbi_new_def MAX_ENCODABLE_def word_less_nat_alt)
  have h: "vbi_size (remaining_len (publish_header p)) = n mod 2 ^ 32"
    using m by (simp add: publish_header_def fixed_header_new_def vbi_size_def assms(4))
  have "n mod 2 ^ 32 < n" if "2 ^ 32 \<le> n" using that by (simp add: order_less_le_trans [OF mod_less_divisor])
  moreover have "\<exists>w'. publish_send wr p w = (Ok (), w')
      \<and> out w' = out w @ fixed_header_bytes (publish_header p) @ publish_body_bytes p"
    if "n mod 2 ^ 32 \<le> 268435455" and "room w (length (fixed_header_bytes (publish_header p)) + n)" for w
    using byte_sink.writesD [OF assms(1) byte_sink.writes_publish_u32 [OF assms(1,3)], of w 0] raw that assms(4)
    by (auto simp: publish_send_def)
  moreover have "p = \<lparr>pu_dup = pu_dup p, pu_identified_qos = pu_identified_qos p, pu_retain = pu_retain p,
      pu_topic = pu_topic p, pu_payload_format_indicator = pu_payload_format_indicator p,
      pu_message_expiry_interval = pu_message_expiry_interval p, pu_response_topic = pu_response_topic p,
      pu_correlation_data = pu_correlation_data p, pu_user_properties = pu_user_properties p,
      pu_subscription_identifiers = [], pu_content_type = pu_content_type p, pu_message = pu_message p\<rparr>"
    using assms(2) by (cases p) simp
  ultimately show ?thesis using raw h by (auto simp: publish_new_def Let_def)
qed

text \<open>A message of 4 GiB, behind a header that announces four bytes.\<close>

definition huge_publish :: publish_packet where
  "huge_publish =
     \<lparr>pu_dup = False, pu_identified_qos = IdAtMostOnce, pu_retain = False,
      pu_topic = TrName [0x61], pu_payload_format_indicator = None,
      pu_message_expiry_interval = None, pu_response_topic = None,
      pu_correlation_data = None, pu_user_properties = [], pu_subscription_identifiers = [],
      pu_content_type = None, pu_message = replicate (2 ^ 32) 0\<rparr>"

theorem publish_length_truncated_witness:
  "publish_new False IdAtMostOnce False (TrName [0x61]) None None None None [] None (replicate (2 ^ 32) 0)
     = Some huge_publish
   \<and> vbi_size (remaining_len (publish_header huge_publish)) = 4
   \<and> length (publish_body_bytes huge_publish) = 2 ^ 32 + 4"
proof -
  have fields: "pu_dup huge_publish = False" "pu_identified_qos huge_publish = IdAtMostOnce" "pu_retain huge_publish = False"
    "pu_topic huge_publish = TrName [0x61]" "pu_payload_format_indicator huge_publish = None"
    "pu_message_expiry_interval huge_publish = None" "pu_response_topic huge_publish = None"
    "pu_correlation_data huge_publish = None" "pu_user_properties huge_publish = []"
    "pu_content_type huge_publish = None" "pu_message huge_publish = replicate (2 ^ 32) 0"
    by (simp_all add: huge_publish_def)
  have props: "publish_props_bytes huge_publish = []"
    by (simp add: huge_publish_def publish_props_bytes_def opt_bytes_def user_properties_bytes_def)
  then have n: "2 ^ 32 + 4 = length (publish_body_bytes huge_publish)"
    by (simp add: publish_body_bytes_def length_vbi_bytes)
       (simp add: huge_publish_def publish_topic_string_def opt_bytes_def binary_written_len_def)
  have "pu_subscription_identifiers huge_publish = []" "length (publish_props_bytes huge_publish) \<le> 268435455"
    by (simp_all add: props) (simp add: huge_publish_def)
  from publish_length_truncated [OF slice_out.byte_sink_axioms this n] n show ?thesis
    by (simp add: fields) blast
qed

end
