(* ===== verification/Mqtt_Requests.thy ===== *)
theory Mqtt_Requests
  imports Mqtt_Property
begin

unbundle bit_operations_syntax

text \<open>
  The packets that only the client sends: CONNECT with its will (\<open>src/v5/packet/connect.rs\<close>,
  \<open>src/types/will.rs\<close>, \<open>src/client/options/will.rs\<close>), SUBSCRIBE (\<open>src/v5/packet/subscribe.rs\<close>) and
  UNSUBSCRIBE (\<open>src/v5/packet/unsubscribe.rs\<close>). Their lengths never exceed what the fixed header can
  announce, within the limits on the number of user properties that the source asserts, and what is
  written is the layout that MQTT 5 prescribes. \<open>None\<close> as a length is a panic of the source.
\<close>

section \<open>Will\<close>

record will_options =
  wo_will_qos :: qos
  wo_will_retain :: bool
  wo_will_topic :: topic_name
  wo_will_delay_interval :: u32
  wo_payload_format_indicator :: "bool option"
  wo_message_expiry_interval :: "u32 option"
  wo_content_type :: "mqtt_string option"
  wo_response_topic :: "topic_name option"
  wo_correlation_data :: "mqtt_binary option"
  wo_user_properties :: "mqtt_string_pair list"
  wo_will_message :: mqtt_binary

record will =
  wi_will_topic :: topic_name
  wi_will_delay_interval :: "u32 option"
  wi_payload_format_indicator :: "bool option"
  wi_message_expiry_interval :: "u32 option"
  wi_content_type :: "mqtt_string option"
  wi_response_topic :: "topic_name option"
  wi_correlation_data :: "mqtt_binary option"
  wi_user_properties :: "mqtt_string_pair list"
  wi_will_message :: mqtt_binary

text \<open>\<open>collect\<close> into a vector of capacity \<open>maxu\<close> panics when there are more elements.\<close>

definition will_from :: "nat \<Rightarrow> will_options \<Rightarrow> will option" where
  "will_from maxu options =
     (if length (wo_user_properties options) \<le> maxu then
        Some \<lparr>wi_will_topic = wo_will_topic options,
              wi_will_delay_interval =
                (if wo_will_delay_interval options = 0 then None
                 else Some (wo_will_delay_interval options)),
              wi_payload_format_indicator = wo_payload_format_indicator options,
              wi_message_expiry_interval = wo_message_expiry_interval options,
              wi_content_type = wo_content_type options,
              wi_response_topic = wo_response_topic options,
              wi_correlation_data = wo_correlation_data options,
              wi_user_properties = wo_user_properties options,
              wi_will_message = wo_will_message options\<rparr>
      else None)"

definition will_properties_length :: "will \<Rightarrow> var_byte_int option" where
  "will_properties_length wi =
     (let len =
        option_written_len (\<lambda>_. prop_len PrWillDelayInterval 4) (wi_will_delay_interval wi)
        + option_written_len (\<lambda>_. prop_len PrPayloadFormatIndicator 1) (wi_payload_format_indicator wi)
        + option_written_len (\<lambda>_. prop_len PrMessageExpiryInterval 4) (wi_message_expiry_interval wi)
        + option_written_len (\<lambda>s. prop_len PrContentType (string_written_len s)) (wi_content_type wi)
        + option_written_len (\<lambda>s. prop_len PrResponseTopic (string_written_len s)) (wi_response_topic wi)
        + option_written_len (\<lambda>b. prop_len PrCorrelationData (binary_written_len b)) (wi_correlation_data wi)
        + user_properties_written_len (wi_user_properties wi)
      in vbi_new_unchecked (word_of_nat len))"

definition will_written_len :: "will \<Rightarrow> nat option" where
  "will_written_len wi =
     Option.bind (will_properties_length wi) (\<lambda>n.
     Option.bind (vbi_written_len n) (\<lambda>l.
       Some (l + vbi_size n + string_written_len (wi_will_topic wi)
               + binary_written_len (wi_will_message wi))))"

definition write_will :: "('w, 'e) writer \<Rightarrow> will \<Rightarrow> ('w, 'e write_error, unit) comp" where
  "write_will wr wi =
     unwrap (will_properties_length wi) (\<lambda>will_properties_length.
       thn (write_vbi wr will_properties_length)
       (thn (write_option (\<lambda>v. write_prop wr PrWillDelayInterval (write_u32 wr v)) (wi_will_delay_interval wi))
       (thn (write_option (\<lambda>v. write_prop wr PrPayloadFormatIndicator (write_bool wr v))
               (wi_payload_format_indicator wi))
       (thn (write_option (\<lambda>v. write_prop wr PrMessageExpiryInterval (write_u32 wr v))
               (wi_message_expiry_interval wi))
       (thn (write_option (\<lambda>v. write_prop wr PrContentType (write_string wr v)) (wi_content_type wi))
       (thn (write_option (\<lambda>v. write_prop wr PrResponseTopic (write_string wr v)) (wi_response_topic wi))
       (thn (write_option (\<lambda>v. write_prop wr PrCorrelationData (write_binary wr v)) (wi_correlation_data wi))
       (thn (write_user_properties wr (wi_user_properties wi))
       (thn (write_string wr (wi_will_topic wi))
            (write_binary wr (wi_will_message wi)))))))))))"

section \<open>CONNECT\<close>

record connect_packet =
  cp_will_retain :: bool
  cp_will_qos :: qos
  cp_clean_start :: bool
  cp_keep_alive :: keep_alive
  cp_session_expiry_interval :: session_expiry_interval
  cp_receive_maximum :: u16
  cp_maximum_packet_size :: maximum_packet_size
  cp_topic_alias_maximum :: "u16 option"
  cp_request_response_information :: "bool option"
  cp_request_problem_information :: "bool option"
  cp_user_properties :: "mqtt_string_pair list"
  cp_authentication_method :: "mqtt_string option"
  cp_authentication_data :: "mqtt_binary option"
  cp_client_identifier :: mqtt_string
  cp_will :: "will option"
  cp_user_name :: "mqtt_string option"
  cp_password :: "mqtt_binary option"

definition connect_new ::
    "mqtt_string \<Rightarrow> bool \<Rightarrow> keep_alive \<Rightarrow> maximum_packet_size \<Rightarrow> session_expiry_interval \<Rightarrow> u16
     \<Rightarrow> bool \<Rightarrow> bool \<Rightarrow> mqtt_string_pair list \<Rightarrow> connect_packet" where
  "connect_new client_identifier clean_start keep_alive maximum_packet_size session_expiry_interval
     receive_maximum request_response_information request_problem_information user_properties =
     \<lparr>cp_will_retain = False, cp_will_qos = AtMostOnce, cp_clean_start = clean_start,
      cp_keep_alive = keep_alive, cp_session_expiry_interval = session_expiry_interval,
      cp_receive_maximum = receive_maximum, cp_maximum_packet_size = maximum_packet_size,
      cp_topic_alias_maximum = None,
      cp_request_response_information = (if request_response_information then Some True else None),
      cp_request_problem_information = (if \<not> request_problem_information then Some False else None),
      cp_user_properties = user_properties, cp_authentication_method = None,
      cp_authentication_data = None, cp_client_identifier = client_identifier, cp_will = None,
      cp_user_name = None, cp_password = None\<rparr>"

definition add_user_name :: "mqtt_string \<Rightarrow> connect_packet \<Rightarrow> connect_packet" where
  "add_user_name user_name p = p\<lparr>cp_user_name := Some user_name\<rparr>"

definition add_password :: "mqtt_binary \<Rightarrow> connect_packet \<Rightarrow> connect_packet" where
  "add_password password p = p\<lparr>cp_password := Some password\<rparr>"

definition add_will :: "will \<Rightarrow> qos \<Rightarrow> bool \<Rightarrow> connect_packet \<Rightarrow> connect_packet" where
  "add_will wi will_qos will_retain p =
     p\<lparr>cp_will_retain := will_retain, cp_will_qos := will_qos, cp_will := Some wi\<rparr>"

definition connect_properties_length :: "connect_packet \<Rightarrow> var_byte_int option" where
  "connect_properties_length p =
     (let session_expiry_interval_len =
            (if cp_session_expiry_interval p = EndOnDisconnect then 0
             else session_expiry_interval_written_len (cp_session_expiry_interval p));
          len = session_expiry_interval_len
            + receive_maximum_written_len (cp_receive_maximum p)
            + maximum_packet_size_written_len (cp_maximum_packet_size p)
            + option_written_len (\<lambda>_. prop_len PrTopicAliasMaximum 2) (cp_topic_alias_maximum p)
            + option_written_len (\<lambda>_. prop_len PrRequestResponseInformation 1)
                (cp_request_response_information p)
            + option_written_len (\<lambda>_. prop_len PrRequestProblemInformation 1)
                (cp_request_problem_information p)
            + user_properties_written_len (cp_user_properties p)
            + option_written_len (\<lambda>s. prop_len PrAuthenticationMethod (string_written_len s))
                (cp_authentication_method p)
            + option_written_len (\<lambda>b. prop_len PrAuthenticationData (binary_written_len b))
                (cp_authentication_data p)
      in vbi_new_unchecked (word_of_nat len))"

definition connect_remaining_len :: "connect_packet \<Rightarrow> var_byte_int option" where
  "connect_remaining_len p =
     Option.bind (connect_properties_length p) (\<lambda>properties_length.
     Option.bind (vbi_written_len properties_length) (\<lambda>l.
     Option.bind (case cp_will p of None \<Rightarrow> Some 0 | Some wi \<Rightarrow> will_written_len wi) (\<lambda>will_len.
       let variable_header_length = 7 + 1 + 2;
           total_properties_length = vbi_size properties_length + l;
           body_length = string_written_len (cp_client_identifier p) + will_len
             + option_written_len string_written_len (cp_user_name p)
             + option_written_len binary_written_len (cp_password p);
           total_length = variable_header_length + total_properties_length + body_length
       in vbi_new_unchecked (word_of_nat total_length))))"

definition protocol_name :: "u8 list" where
  "protocol_name = [0, 4, 0x4D, 0x51, 0x54, 0x54, 5]"

definition connect_flags :: "connect_packet \<Rightarrow> u8" where
  "connect_flags p =
     push_bit 7 (bool_byte (cp_user_name p \<noteq> None))
     OR push_bit 6 (bool_byte (cp_password p \<noteq> None))
     OR push_bit 5 (bool_byte (cp_will_retain p))
     OR qos_into_bits (cp_will_qos p) 3
     OR push_bit 2 (bool_byte (cp_will p \<noteq> None))
     OR push_bit 1 (bool_byte (cp_clean_start p))"

definition connect_write ::
    "('w, 'e) writer \<Rightarrow> connect_packet \<Rightarrow> ('w, 'e write_error, unit) comp" where
  "connect_write wr p =
     unwrap (connect_remaining_len p) (\<lambda>len.
       thn (write_fixed_header wr (fixed_header_new PtConnect 0x00 len))
       (thn (write_slice wr protocol_name)
       (thn (write_u8 wr (connect_flags p))
       (thn (write_u16 wr (keep_alive_as_u16 (cp_keep_alive p)))
       (unwrap (connect_properties_length p) (\<lambda>properties_length.
         thn (write_vbi wr properties_length)
         (thn (if cp_session_expiry_interval p \<noteq> EndOnDisconnect
               then write_session_expiry_interval wr (cp_session_expiry_interval p) else ret ())
         (thn (write_receive_maximum wr (cp_receive_maximum p))
         (thn (write_maximum_packet_size wr (cp_maximum_packet_size p))
         (thn (write_option (\<lambda>v. write_prop wr PrTopicAliasMaximum (write_u16 wr v))
                 (cp_topic_alias_maximum p))
         (thn (write_option (\<lambda>v. write_prop wr PrRequestResponseInformation (write_bool wr v))
                 (cp_request_response_information p))
         (thn (write_option (\<lambda>v. write_prop wr PrRequestProblemInformation (write_bool wr v))
                 (cp_request_problem_information p))
         (thn (write_user_properties wr (cp_user_properties p))
         (thn (write_option (\<lambda>v. write_prop wr PrAuthenticationMethod (write_string wr v))
                 (cp_authentication_method p))
         (thn (write_option (\<lambda>v. write_prop wr PrAuthenticationData (write_binary wr v))
                 (cp_authentication_data p))
         (thn (write_string wr (cp_client_identifier p))
         (thn (write_option (write_will wr) (cp_will p))
         (thn (write_option (write_string wr) (cp_user_name p))
              (write_option (write_binary wr) (cp_password p))))))))))))))))))))"

definition connect_send ::
    "('w, 'e) writer \<Rightarrow> connect_packet \<Rightarrow> ('w, 'e tx_error, unit) comp" where
  "connect_send wr p = map_err tx_of_write (connect_write wr p)"

section \<open>SUBSCRIBE\<close>

record subscribe_packet =
  su_packet_identifier :: pid
  su_subscription_identifier :: "var_byte_int option"
  su_user_properties :: "mqtt_string_pair list"
  su_subscribe_filters :: "subscription_filter list"

definition subscribe_properties_length :: "subscribe_packet \<Rightarrow> var_byte_int option" where
  "subscribe_properties_length p =
     Option.bind (case su_subscription_identifier p of
         None \<Rightarrow> Some 0
       | Some i \<Rightarrow> map_option (prop_len PrSubscriptionIdentifier) (vbi_written_len i)) (\<lambda>n.
       let len = n + user_properties_written_len (su_user_properties p)
       in vbi_new_unchecked (word_of_nat len))"

text \<open>\<open>remaining_len_raw\<close>: the inner \<open>None\<close> is \<open>Err(TooLargeToEncode)\<close>.\<close>

definition subscribe_remaining_len_raw :: "subscribe_packet \<Rightarrow> var_byte_int option option" where
  "subscribe_remaining_len_raw p =
     Option.bind (subscribe_properties_length p) (\<lambda>properties_length.
     Option.bind (vbi_written_len properties_length) (\<lambda>l.
       let variable_header_length = 2;
           total_properties_length = vbi_size properties_length + l;
           body_length = subscription_filters_written_len (su_subscribe_filters p);
           total_length = variable_header_length + total_properties_length + body_length
       in Some (vbi_new (word_of_nat total_length))))"

text \<open>\<open>None\<close> is a panic, \<open>Some None\<close> is \<open>Err(TooLargeToEncode)\<close>.\<close>

definition subscribe_new ::
    "nat \<Rightarrow> nat \<Rightarrow> pid \<Rightarrow> var_byte_int option \<Rightarrow> mqtt_string_pair list \<Rightarrow> subscription_filter list
     \<Rightarrow> subscribe_packet option option" where
  "subscribe_new maxf maxu identifier subscription_identifier user_properties subscribe_filters =
     (let p = \<lparr>su_packet_identifier = identifier,
               su_subscription_identifier = subscription_identifier,
               su_user_properties = user_properties, su_subscribe_filters = subscribe_filters\<rparr>
      in if maxu \<le> 1021 \<and> maxf \<le> 2053 then Some (Some p)
         else map_option (map_option (\<lambda>_. p)) (subscribe_remaining_len_raw p))"

text \<open>\<open>remaining_len\<close>: \<open>unwrap_unchecked\<close> on \<open>Err\<close> would be undefined behaviour; the model panics there.\<close>

definition subscribe_remaining_len :: "subscribe_packet \<Rightarrow> var_byte_int option" where
  "subscribe_remaining_len p = Option.bind (subscribe_remaining_len_raw p) (\<lambda>r. r)"

definition subscribe_write ::
    "('w, 'e) writer \<Rightarrow> subscribe_packet \<Rightarrow> ('w, 'e write_error, unit) comp" where
  "subscribe_write wr p =
     unwrap (subscribe_remaining_len p) (\<lambda>len.
       thn (write_fixed_header wr (fixed_header_new PtSubscribe 0x02 len))
       (thn (write_pid wr (su_packet_identifier p))
       (unwrap (subscribe_properties_length p) (\<lambda>properties_length.
         thn (write_vbi wr properties_length)
         (thn (write_option (\<lambda>v. write_prop wr PrSubscriptionIdentifier (write_vbi wr v))
                 (su_subscription_identifier p))
         (thn (write_user_properties wr (su_user_properties p))
              (write_subscription_filters wr (su_subscribe_filters p))))))))"

definition subscribe_send ::
    "('w, 'e) writer \<Rightarrow> subscribe_packet \<Rightarrow> ('w, 'e tx_error, unit) comp" where
  "subscribe_send wr p = map_err tx_of_write (subscribe_write wr p)"

section \<open>UNSUBSCRIBE\<close>

record unsubscribe_packet =
  un_packet_identifier :: pid
  un_user_properties :: "mqtt_string_pair list"
  un_topic_filters :: "topic_filter list"

definition unsubscribe_properties_length :: "unsubscribe_packet \<Rightarrow> var_byte_int option" where
  "unsubscribe_properties_length p =
     (let len = user_properties_written_len (un_user_properties p)
      in vbi_new_unchecked (word_of_nat len))"

definition unsubscribe_remaining_len_raw :: "unsubscribe_packet \<Rightarrow> var_byte_int option option" where
  "unsubscribe_remaining_len_raw p =
     Option.bind (unsubscribe_properties_length p) (\<lambda>properties_length.
     Option.bind (vbi_written_len properties_length) (\<lambda>l.
       let variable_header_length = 2;
           total_properties_length = vbi_size properties_length + l;
           body_length = sum_list (map string_written_len (un_topic_filters p));
           total_length = variable_header_length + total_properties_length + body_length
       in Some (vbi_new (word_of_nat total_length))))"

definition unsubscribe_new ::
    "nat \<Rightarrow> nat \<Rightarrow> pid \<Rightarrow> mqtt_string_pair list \<Rightarrow> topic_filter list
     \<Rightarrow> unsubscribe_packet option option" where
  "unsubscribe_new maxf maxu identifier user_properties topic_filters =
     (let p = \<lparr>un_packet_identifier = identifier, un_user_properties = user_properties,
               un_topic_filters = topic_filters\<rparr>
      in if maxu \<le> 1021 \<and> maxf \<le> 2053 then Some (Some p)
         else map_option (map_option (\<lambda>_. p)) (unsubscribe_remaining_len_raw p))"

definition unsubscribe_remaining_len :: "unsubscribe_packet \<Rightarrow> var_byte_int option" where
  "unsubscribe_remaining_len p = Option.bind (unsubscribe_remaining_len_raw p) (\<lambda>r. r)"

fun write_topic_filters ::
    "('w, 'e) writer \<Rightarrow> topic_filter list \<Rightarrow> ('w, 'e write_error, unit) comp" where
  "write_topic_filters wr [] = ret ()"
| "write_topic_filters wr (t # ts) = thn (write_string wr t) (write_topic_filters wr ts)"

definition unsubscribe_write ::
    "('w, 'e) writer \<Rightarrow> unsubscribe_packet \<Rightarrow> ('w, 'e write_error, unit) comp" where
  "unsubscribe_write wr p =
     unwrap (unsubscribe_remaining_len p) (\<lambda>len.
       thn (write_fixed_header wr (fixed_header_new PtUnsubscribe 0x02 len))
       (thn (write_pid wr (un_packet_identifier p))
       (unwrap (unsubscribe_properties_length p) (\<lambda>properties_length.
         thn (write_vbi wr properties_length)
         (thn (write_user_properties wr (un_user_properties p))
              (write_topic_filters wr (un_topic_filters p)))))))"

definition unsubscribe_send ::
    "('w, 'e) writer \<Rightarrow> unsubscribe_packet \<Rightarrow> ('w, 'e tx_error, unit) comp" where
  "unsubscribe_send wr p = map_err tx_of_write (unsubscribe_write wr p)"

section \<open>The layout of the packets\<close>

definition small_binary :: "mqtt_binary \<Rightarrow> bool" where
  "small_binary b \<longleftrightarrow> length b \<le> MAX_LENGTH"

definition will_props_bytes :: "will \<Rightarrow> u8 list" where
  "will_props_bytes wi =
     opt_bytes (\<lambda>v. prop_bytes PrWillDelayInterval (u32_to_be_bytes v)) (wi_will_delay_interval wi)
     @ opt_bytes (\<lambda>v. prop_bytes PrPayloadFormatIndicator [bool_byte v]) (wi_payload_format_indicator wi)
     @ opt_bytes (\<lambda>v. prop_bytes PrMessageExpiryInterval (u32_to_be_bytes v)) (wi_message_expiry_interval wi)
     @ opt_bytes (\<lambda>v. prop_bytes PrContentType (binary_bytes v)) (wi_content_type wi)
     @ opt_bytes (\<lambda>v. prop_bytes PrResponseTopic (binary_bytes v)) (wi_response_topic wi)
     @ opt_bytes (\<lambda>v. prop_bytes PrCorrelationData (binary_bytes v)) (wi_correlation_data wi)
     @ user_properties_bytes (wi_user_properties wi)"

definition will_bytes :: "will \<Rightarrow> u8 list" where
  "will_bytes wi = vbi_bytes (word_of_nat (length (will_props_bytes wi))) @ will_props_bytes wi
     @ binary_bytes (wi_will_topic wi) @ binary_bytes (wi_will_message wi)"

definition will_ok :: "will \<Rightarrow> bool" where
  "will_ok wi \<longleftrightarrow> string_ok (wi_will_topic wi) \<and> small_binary (wi_will_message wi)
     \<and> pred_option string_ok (wi_content_type wi) \<and> pred_option string_ok (wi_response_topic wi)
     \<and> pred_option small_binary (wi_correlation_data wi)
     \<and> (\<forall>u \<in> set (wi_user_properties wi). string_pair_ok u)
     \<and> length (wi_user_properties wi) \<le> 1021"

definition connect_props_bytes :: "connect_packet \<Rightarrow> u8 list" where
  "connect_props_bytes p =
     (case cp_session_expiry_interval p of EndOnDisconnect \<Rightarrow> []
      | i \<Rightarrow> prop_bytes PrSessionExpiryInterval (u32_to_be_bytes (session_expiry_interval_value i)))
     @ (if cp_receive_maximum p = u16_MAX then []
        else prop_bytes PrReceiveMaximum (u16_to_be_bytes (cp_receive_maximum p)))
     @ (case cp_maximum_packet_size p of MpsUnlimited \<Rightarrow> []
        | MpsLimit l \<Rightarrow> prop_bytes PrMaximumPacketSize (u32_to_be_bytes l))
     @ opt_bytes (\<lambda>v. prop_bytes PrTopicAliasMaximum (u16_to_be_bytes v)) (cp_topic_alias_maximum p)
     @ opt_bytes (\<lambda>v. prop_bytes PrRequestResponseInformation [bool_byte v])
         (cp_request_response_information p)
     @ opt_bytes (\<lambda>v. prop_bytes PrRequestProblemInformation [bool_byte v])
         (cp_request_problem_information p)
     @ user_properties_bytes (cp_user_properties p)
     @ opt_bytes (\<lambda>v. prop_bytes PrAuthenticationMethod (binary_bytes v)) (cp_authentication_method p)
     @ opt_bytes (\<lambda>v. prop_bytes PrAuthenticationData (binary_bytes v)) (cp_authentication_data p)"

definition connect_body_bytes :: "connect_packet \<Rightarrow> u8 list" where
  "connect_body_bytes p =
     protocol_name @ [connect_flags p] @ u16_to_be_bytes (keep_alive_as_u16 (cp_keep_alive p))
     @ vbi_bytes (word_of_nat (length (connect_props_bytes p))) @ connect_props_bytes p
     @ binary_bytes (cp_client_identifier p) @ opt_bytes will_bytes (cp_will p)
     @ opt_bytes binary_bytes (cp_user_name p) @ opt_bytes binary_bytes (cp_password p)"

definition connect_ok :: "connect_packet \<Rightarrow> bool" where
  "connect_ok p \<longleftrightarrow> string_ok (cp_client_identifier p) \<and> pred_option will_ok (cp_will p)
     \<and> pred_option string_ok (cp_user_name p) \<and> pred_option small_binary (cp_password p)
     \<and> pred_option string_ok (cp_authentication_method p)
     \<and> pred_option small_binary (cp_authentication_data p)
     \<and> (\<forall>u \<in> set (cp_user_properties p). string_pair_ok u)
     \<and> length (cp_user_properties p) \<le> 1021"

text \<open>The sizes that the comments of the source give for the parts.\<close>

lemma opt_string_bound:
  "pred_option string_ok x \<Longrightarrow> option_written_len (\<lambda>s. prop_len t (string_written_len s)) x \<le> 65538"
  "pred_option string_ok x \<Longrightarrow> option_written_len string_written_len x \<le> 65537"
  by (cases x; simp add: option_written_len_def prop_len_def property_type_written_len_def
      string_written_len_def binary_written_len_def string_ok_def MAX_LENGTH_def)+

lemma opt_binary_bound:
  "pred_option small_binary x \<Longrightarrow> option_written_len (\<lambda>s. prop_len t (binary_written_len s)) x \<le> 65538"
  "pred_option small_binary x \<Longrightarrow> option_written_len binary_written_len x \<le> 65537"
  by (cases x; simp add: option_written_len_def prop_len_def property_type_written_len_def
      binary_written_len_def small_binary_def MAX_LENGTH_def)+

lemma opt_scalar_bound: "option_written_len (\<lambda>_. n) x \<le> n"
  by (cases x) (simp_all add: option_written_len_def)

lemma string_bound: "string_ok s \<Longrightarrow> string_written_len s \<le> 65537"
  by (simp add: string_ok_def string_written_len_def binary_written_len_def MAX_LENGTH_def)

lemma binary_bound: "small_binary b \<Longrightarrow> binary_written_len b \<le> 65537"
  by (simp add: small_binary_def binary_written_len_def MAX_LENGTH_def)

lemma user_properties_limit:
  "(\<forall>u \<in> set us. string_pair_ok u) \<Longrightarrow> length us \<le> 1021 \<Longrightarrow> user_properties_written_len us \<le> 133829617"
  using user_properties_bound [of us] mult_le_mono1 [of "length us" 1021 131077] by simp

lemma length_vbi_bound: "n \<le> 268435455 \<Longrightarrow> length (vbi_bytes (word_of_nat n)) \<le> 4"
  by (simp add: length_vbi_bytes unat_small)

subsection \<open>Will\<close>

lemma length_will_props:
  "length (will_props_bytes wi) =
     option_written_len (\<lambda>_. prop_len PrWillDelayInterval 4) (wi_will_delay_interval wi)
     + option_written_len (\<lambda>_. prop_len PrPayloadFormatIndicator 1) (wi_payload_format_indicator wi)
     + option_written_len (\<lambda>_. prop_len PrMessageExpiryInterval 4) (wi_message_expiry_interval wi)
     + option_written_len (\<lambda>s. prop_len PrContentType (string_written_len s)) (wi_content_type wi)
     + option_written_len (\<lambda>s. prop_len PrResponseTopic (string_written_len s)) (wi_response_topic wi)
     + option_written_len (\<lambda>b. prop_len PrCorrelationData (binary_written_len b)) (wi_correlation_data wi)
     + user_properties_written_len (wi_user_properties wi)"
  by (simp add: will_props_bytes_def length_opt_bytes string_written_len_def)

lemma will_props_bound: "will_ok wi \<Longrightarrow> length (will_props_bytes wi) \<le> 134026243"
  using opt_scalar_bound [of "prop_len PrWillDelayInterval 4" "wi_will_delay_interval wi"]
    opt_scalar_bound [of "prop_len PrPayloadFormatIndicator 1" "wi_payload_format_indicator wi"]
    opt_scalar_bound [of "prop_len PrMessageExpiryInterval 4" "wi_message_expiry_interval wi"]
    opt_string_bound(1) [of "wi_content_type wi" PrContentType]
    opt_string_bound(1) [of "wi_response_topic wi" PrResponseTopic]
    opt_binary_bound(1) [of "wi_correlation_data wi" PrCorrelationData]
    user_properties_limit [of "wi_user_properties wi"]
  unfolding length_will_props will_ok_def prop_len_def property_type_written_len_def by linarith

lemma will_properties_length_bytes:
  "will_ok wi \<Longrightarrow>
   will_properties_length wi = Some (VarByteInt (word_of_nat (length (will_props_bytes wi))))"
  using vbi_small [of "length (will_props_bytes wi)"] will_props_bound [of wi]
  unfolding will_properties_length_def Let_def length_will_props [symmetric]
  by (simp add: vbi_new_unchecked_def)

lemma will_written_len_bytes: "will_ok wi \<Longrightarrow> will_written_len wi = Some (length (will_bytes wi))"
  using will_props_bound [of wi]
  by (simp add: will_written_len_def will_properties_length_bytes vbi_written_len_bytes vbi_small
      vbi_size_def unat_small will_bytes_def string_written_len_def)

lemma will_bytes_bound: "will_ok wi \<Longrightarrow> length (will_bytes wi) \<le> 134157321"
  using will_props_bound [of wi] length_vbi_bound [of "length (will_props_bytes wi)"]
    string_bound [of "wi_will_topic wi"] binary_bound [of "wi_will_message wi"]
  by (simp add: will_bytes_def will_ok_def string_written_len_def)

subsection \<open>CONNECT\<close>

lemma less_u16_MAX: "m < u16_MAX \<longleftrightarrow> m \<noteq> u16_MAX" for m :: u16
proof -
  have "(- 1 :: u16) = u16_MAX" by simp
  from word_order.not_eq_extremum [of m, unfolded this] show ?thesis by blast
qed

lemma connect_properties_length_bytes:
  assumes "connect_ok p"
  shows "length (connect_props_bytes p) \<le> 133960713"
    and "connect_properties_length p = Some (VarByteInt (word_of_nat (length (connect_props_bytes p))))"
proof -
  have len: "(if cp_session_expiry_interval p = EndOnDisconnect then 0
             else session_expiry_interval_written_len (cp_session_expiry_interval p))
            + receive_maximum_written_len (cp_receive_maximum p)
            + maximum_packet_size_written_len (cp_maximum_packet_size p)
            + option_written_len (\<lambda>_. prop_len PrTopicAliasMaximum 2) (cp_topic_alias_maximum p)
            + option_written_len (\<lambda>_. prop_len PrRequestResponseInformation 1)
                (cp_request_response_information p)
            + option_written_len (\<lambda>_. prop_len PrRequestProblemInformation 1)
                (cp_request_problem_information p)
            + user_properties_written_len (cp_user_properties p)
            + option_written_len (\<lambda>s. prop_len PrAuthenticationMethod (string_written_len s))
                (cp_authentication_method p)
            + option_written_len (\<lambda>b. prop_len PrAuthenticationData (binary_written_len b))
                (cp_authentication_data p) = length (connect_props_bytes p)"
    by (simp add: connect_props_bytes_def length_opt_bytes string_written_len_def
        session_expiry_interval_written_len_def receive_maximum_written_len_def prop_len_def
        maximum_packet_size_written_len_def property_type_written_len_def
        split: session_expiry_interval.split maximum_packet_size.split)
  show b: "length (connect_props_bytes p) \<le> 133960713"
    using opt_scalar_bound [of "prop_len PrTopicAliasMaximum 2" "cp_topic_alias_maximum p"]
      opt_scalar_bound [of "prop_len PrRequestResponseInformation 1" "cp_request_response_information p"]
      opt_scalar_bound [of "prop_len PrRequestProblemInformation 1" "cp_request_problem_information p"]
      opt_string_bound(1) [of "cp_authentication_method p" PrAuthenticationMethod]
      opt_binary_bound(1) [of "cp_authentication_data p" PrAuthenticationData]
      user_properties_limit [of "cp_user_properties p"] assms
    unfolding len [symmetric] connect_ok_def
    by (simp add: prop_len_def property_type_written_len_def session_expiry_interval_written_len_def
        receive_maximum_written_len_def maximum_packet_size_written_len_def
        split: maximum_packet_size.split)
  show "connect_properties_length p = Some (VarByteInt (word_of_nat (length (connect_props_bytes p))))"
    using vbi_small [of "length (connect_props_bytes p)"] b
    unfolding connect_properties_length_def Let_def len by (simp add: vbi_new_unchecked_def)
qed

lemma connect_lengths:
  assumes "connect_ok p"
  shows "length (connect_body_bytes p) \<le> 268435455"
    and "connect_remaining_len p = Some (VarByteInt (word_of_nat (length (connect_body_bytes p))))"
proof -
  let ?n = "length (connect_props_bytes p)"
  note props = connect_properties_length_bytes [OF assms]
  have will: "(case cp_will p of None \<Rightarrow> Some 0 | Some wi \<Rightarrow> will_written_len wi)
      = Some (length (opt_bytes will_bytes (cp_will p)))"
    using assms by (auto simp: connect_ok_def opt_bytes_def will_written_len_bytes split: option.split)
  have "length (opt_bytes will_bytes (cp_will p)) \<le> 134157321"
    using assms by (auto simp: connect_ok_def opt_bytes_def will_bytes_bound split: option.split)
  then show b: "length (connect_body_bytes p) \<le> 268435455"
    using props(1) length_vbi_bound [of ?n] string_bound [of "cp_client_identifier p"]
      opt_string_bound(2) [of "cp_user_name p"] opt_binary_bound(2) [of "cp_password p"] assms
    by (simp add: connect_body_bytes_def connect_ok_def protocol_name_def length_opt_bytes [of binary_bytes]
        string_written_len_def [abs_def])
  have "10 + (?n + length (vbi_bytes (word_of_nat ?n)))
      + (string_written_len (cp_client_identifier p) + length (opt_bytes will_bytes (cp_will p))
         + option_written_len string_written_len (cp_user_name p)
         + option_written_len binary_written_len (cp_password p)) = length (connect_body_bytes p)"
    by (simp add: connect_body_bytes_def protocol_name_def length_opt_bytes [of binary_bytes]
        string_written_len_def [abs_def])
  then show "connect_remaining_len p = Some (VarByteInt (word_of_nat (length (connect_body_bytes p))))"
    using props b vbi_small [OF b] by (simp add: connect_remaining_len_def will vbi_written_len_bytes vbi_small vbi_size_def
        unat_small vbi_new_unchecked_def Let_def del: of_nat_add)
qed

text \<open>The bits of the CONNECT flags, from the most significant one.\<close>

lemma connect_flags_bits:
  "bit (connect_flags p) 7 = (cp_user_name p \<noteq> None)"
  "bit (connect_flags p) 6 = (cp_password p \<noteq> None)"
  "bit (connect_flags p) 5 = cp_will_retain p"
  "drop_bit 3 (connect_flags p) AND 3 = qos_into_bits (cp_will_qos p) 0"
  "bit (connect_flags p) 2 = (cp_will p \<noteq> None)"
  "bit (connect_flags p) 1 = cp_clean_start p"
  "\<not> bit (connect_flags p) 0"
  by (cases "cp_user_name p = None"; cases "cp_password p = None"; cases "cp_will p = None";
      cases "cp_will_retain p"; cases "cp_clean_start p"; cases "cp_will_qos p";
      simp add: connect_flags_def bool_byte_def qos_into_bits_def bit_simps)+

subsection \<open>SUBSCRIBE and UNSUBSCRIBE\<close>

definition subscribe_props_bytes :: "subscribe_packet \<Rightarrow> u8 list" where
  "subscribe_props_bytes p =
     opt_bytes (\<lambda>v. prop_bytes PrSubscriptionIdentifier (vbi_bytes (vbi_value v)))
       (su_subscription_identifier p)
     @ user_properties_bytes (su_user_properties p)"

definition filters_bytes :: "subscription_filter list \<Rightarrow> u8 list" where
  "filters_bytes fs = concat (map (\<lambda>t. binary_bytes (sf_topic t) @ [sf_subscription_options t]) fs)"

definition subscribe_body_bytes :: "subscribe_packet \<Rightarrow> u8 list" where
  "subscribe_body_bytes p = u16_to_be_bytes (su_packet_identifier p)
     @ vbi_bytes (word_of_nat (length (subscribe_props_bytes p))) @ subscribe_props_bytes p
     @ filters_bytes (su_subscribe_filters p)"

definition subscribe_ok :: "subscribe_packet \<Rightarrow> bool" where
  "subscribe_ok p \<longleftrightarrow> pred_option (\<lambda>v. vbi_value v \<le> MAX_ENCODABLE) (su_subscription_identifier p)
     \<and> (\<forall>u \<in> set (su_user_properties p). string_pair_ok u)
     \<and> (\<forall>t \<in> set (su_subscribe_filters p). string_ok (sf_topic t))"

definition unsubscribe_body_bytes :: "unsubscribe_packet \<Rightarrow> u8 list" where
  "unsubscribe_body_bytes p = u16_to_be_bytes (un_packet_identifier p)
     @ vbi_bytes (word_of_nat (length (user_properties_bytes (un_user_properties p))))
     @ user_properties_bytes (un_user_properties p)
     @ concat (map binary_bytes (un_topic_filters p))"

definition unsubscribe_ok :: "unsubscribe_packet \<Rightarrow> bool" where
  "unsubscribe_ok p \<longleftrightarrow> (\<forall>u \<in> set (un_user_properties p). string_pair_ok u)
     \<and> (\<forall>t \<in> set (un_topic_filters p). string_ok t)"

lemma length_filters_bytes: "length (filters_bytes fs) = subscription_filters_written_len fs"
  by (simp add: filters_bytes_def subscription_filters_written_len_def length_concat comp_def
      string_written_len_def)

lemma filters_bound:
  "\<forall>t \<in> set fs. string_ok (sf_topic t) \<Longrightarrow> length (filters_bytes fs) \<le> length fs * 65538"
proof (induction fs)
  case (Cons t fs)
  then show ?case using string_bound [of "sf_topic t"]
    by (simp add: filters_bytes_def string_written_len_def)
qed (simp add: filters_bytes_def)

lemma topics_bound:
  "\<forall>t \<in> set ts. string_ok t \<Longrightarrow> length (concat (map binary_bytes ts)) \<le> length ts * 65537"
proof (induction ts)
  case (Cons t ts)
  then show ?case using string_bound [of t] by (simp add: string_written_len_def)
qed simp

lemma subscribe_properties_length_bytes:
  assumes "subscribe_ok p" and "length (su_user_properties p) \<le> 1021"
  shows "length (subscribe_props_bytes p) \<le> 133829622"
    and "subscribe_properties_length p = Some (VarByteInt (word_of_nat (length (subscribe_props_bytes p))))"
proof -
  let ?i = "su_subscription_identifier p"
  let ?l = "option_written_len (\<lambda>v. prop_len PrSubscriptionIdentifier (length (vbi_bytes (vbi_value v)))) ?i"
  have l: "?l \<le> 5"
    using assms(1) by (cases ?i) (auto simp: option_written_len_def prop_len_def subscribe_ok_def
        property_type_written_len_def length_vbi_bytes MAX_ENCODABLE_def word_le_nat_alt)
  have i: "(case ?i of None \<Rightarrow> Some 0
       | Some i \<Rightarrow> map_option (prop_len PrSubscriptionIdentifier) (vbi_written_len i)) = Some ?l"
    using assms(1) vbi_written_len_bytes
    by (auto simp: option_written_len_def subscribe_ok_def split: option.split)
      (metis var_byte_int.exhaust vbi_value.simps)
  have len: "length (subscribe_props_bytes p) = ?l + user_properties_written_len (su_user_properties p)"
    by (simp add: subscribe_props_bytes_def length_opt_bytes)
  show b: "length (subscribe_props_bytes p) \<le> 133829622"
    using l user_properties_limit [of "su_user_properties p"] assms by (simp add: len subscribe_ok_def)
  show "subscribe_properties_length p = Some (VarByteInt (word_of_nat (length (subscribe_props_bytes p))))"
    using vbi_small [of "length (subscribe_props_bytes p)"] b
    unfolding subscribe_properties_length_def Let_def i
    by (simp add: vbi_new_unchecked_def len del: of_nat_add)
qed

lemma subscribe_lengths:
  assumes "subscribe_ok p" and "length (su_user_properties p) \<le> 1021"
    and "length (su_subscribe_filters p) \<le> 2053"
  shows "length (subscribe_body_bytes p) \<le> 268435455"
    and "subscribe_remaining_len p = Some (VarByteInt (word_of_nat (length (subscribe_body_bytes p))))"
proof -
  let ?n = "length (subscribe_props_bytes p)"
  note props = subscribe_properties_length_bytes [OF assms(1,2)]
  have "length (filters_bytes (su_subscribe_filters p)) \<le> 2053 * 65538"
    using filters_bound [of "su_subscribe_filters p"] assms(1,3) by (force simp: subscribe_ok_def)
  then show b: "length (subscribe_body_bytes p) \<le> 268435455"
    using props(1) length_vbi_bound [of ?n] by (simp add: subscribe_body_bytes_def)
  have "2 + (?n + length (vbi_bytes (word_of_nat ?n)))
      + subscription_filters_written_len (su_subscribe_filters p) = length (subscribe_body_bytes p)"
    by (simp add: subscribe_body_bytes_def length_filters_bytes)
  moreover have "subscribe_remaining_len p = vbi_new (word_of_nat
      (2 + (?n + length (vbi_bytes (word_of_nat ?n)))
       + subscription_filters_written_len (su_subscribe_filters p)))"
    using props by (simp add: subscribe_remaining_len_def subscribe_remaining_len_raw_def
        vbi_written_len_bytes vbi_small vbi_size_def unat_small Let_def del: of_nat_add)
  ultimately show "subscribe_remaining_len p
      = Some (VarByteInt (word_of_nat (length (subscribe_body_bytes p))))"
    using b by (simp add: vbi_new_def vbi_small not_less)
qed

lemma unsubscribe_lengths:
  assumes "unsubscribe_ok p" and "length (un_user_properties p) \<le> 1021"
    and "length (un_topic_filters p) \<le> 2053"
  shows "length (unsubscribe_body_bytes p) \<le> 268435455"
    and "unsubscribe_properties_length p
      = Some (VarByteInt (word_of_nat (length (user_properties_bytes (un_user_properties p)))))"
    and "unsubscribe_remaining_len p = Some (VarByteInt (word_of_nat (length (unsubscribe_body_bytes p))))"
proof -
  let ?n = "length (user_properties_bytes (un_user_properties p))"
  have n: "?n \<le> 133829617"
    using user_properties_limit [of "un_user_properties p"] assms by (simp add: unsubscribe_ok_def)
  show pl: "unsubscribe_properties_length p = Some (VarByteInt (word_of_nat ?n))"
    using n vbi_small [of ?n] by (simp add: unsubscribe_properties_length_def vbi_new_unchecked_def)
  have "length (concat (map binary_bytes (un_topic_filters p))) \<le> 2053 * 65537"
    using topics_bound [of "un_topic_filters p"] assms(1,3) by (force simp: unsubscribe_ok_def)
  then show b: "length (unsubscribe_body_bytes p) \<le> 268435455"
    using n length_vbi_bound [of ?n] by (simp add: unsubscribe_body_bytes_def)
  have "2 + (?n + length (vbi_bytes (word_of_nat ?n)))
      + sum_list (map string_written_len (un_topic_filters p)) = length (unsubscribe_body_bytes p)"
    by (simp add: unsubscribe_body_bytes_def length_concat comp_def string_written_len_def [abs_def])
  moreover have "unsubscribe_remaining_len p = vbi_new (word_of_nat
      (2 + (?n + length (vbi_bytes (word_of_nat ?n)))
       + sum_list (map string_written_len (un_topic_filters p))))"
    using n unfolding unsubscribe_remaining_len_def unsubscribe_remaining_len_raw_def pl
    by (simp add: vbi_written_len_bytes vbi_small vbi_size_def unat_small Let_def
        del: of_nat_add length_user_properties_bytes)
  ultimately show "unsubscribe_remaining_len p
      = Some (VarByteInt (word_of_nat (length (unsubscribe_body_bytes p))))"
    using b by (simp add: vbi_new_def vbi_small not_less)
qed

section \<open>Sending\<close>

context byte_sink
begin

lemma writes_will: "will_ok wi \<Longrightarrow> writes (write_will wr wi) (will_bytes wi)"
  unfolding write_will_def will_bytes_def will_props_bytes_def will_properties_length_bytes unwrap_Some
    write_string_def write_u32_def append_assoc
  by (intro writes_thn writes_vbi [of "VarByteInt _", unfolded vbi_value.simps] writes_option
      writes_prop writes_slice writes_bool writes_binary writes_user_properties)

lemma writes_session_expiry_interval:
  "writes (if i \<noteq> EndOnDisconnect then write_session_expiry_interval wr i else ret ())
    (case i of EndOnDisconnect \<Rightarrow> []
     | i \<Rightarrow> prop_bytes PrSessionExpiryInterval (u32_to_be_bytes (session_expiry_interval_value i)))"
proof -
  have "writes (write_session_expiry_interval wr i)
      (prop_bytes PrSessionExpiryInterval (u32_to_be_bytes (session_expiry_interval_value i)))"
    using writes_prop [OF writes_slice] unfolding write_prop_def
    by (simp add: write_session_expiry_interval_def write_u32_def)
  then show ?thesis by (cases i) (simp_all add: writes_ret)
qed

lemma writes_receive_maximum:
  "writes (write_receive_maximum wr m)
    (if m = u16_MAX then [] else prop_bytes PrReceiveMaximum (u16_to_be_bytes m))"
  using writes_prop [OF writes_slice [of "u16_to_be_bytes m"]] unfolding write_prop_def
  by (simp add: write_receive_maximum_def write_u16_def less_u16_MAX writes_ret)

lemma writes_maximum_packet_size:
  "writes (write_maximum_packet_size wr m)
    (case m of MpsUnlimited \<Rightarrow> [] | MpsLimit l \<Rightarrow> prop_bytes PrMaximumPacketSize (u32_to_be_bytes l))"
  using writes_prop [OF writes_slice] unfolding write_prop_def
  by (cases m) (simp_all add: write_maximum_packet_size_def write_u32_def writes_ret)

lemma writes_option_ok:
  "pred_option P x \<Longrightarrow> (\<And>v. P v \<Longrightarrow> writes (f v) (g v)) \<Longrightarrow> writes (write_option f x) (opt_bytes g x)"
  by (cases x) (simp_all add: write_option_def opt_bytes_def writes_ret)

lemma writes_connect:
  assumes "connect_ok p"
  shows "writes (connect_write wr p) (fixed_header_bytes (fixed_header_new PtConnect 0
      (VarByteInt (word_of_nat (length (connect_body_bytes p))))) @ connect_body_bytes p)"
proof -
  have will: "writes (write_option (write_will wr) (cp_will p)) (opt_bytes will_bytes (cp_will p))"
    using assms by (intro writes_option_ok [OF _ writes_will]) (simp_all add: connect_ok_def)
  show ?thesis
    unfolding connect_write_def connect_lengths(2) [OF assms]
      connect_properties_length_bytes(2) [OF assms] unwrap_Some
      connect_body_bytes_def [of p, unfolded connect_props_bytes_def [of p] append_assoc]
      connect_props_bytes_def [symmetric] write_string_def [abs_def] write_u8_def write_u16_def
    by (intro writes_thn writes_fixed_header writes_slice writes_option writes_prop writes_binary
        writes_user_properties writes_vbi [of "VarByteInt _", unfolded vbi_value.simps] writes_bool
        writes_session_expiry_interval writes_receive_maximum writes_maximum_packet_size will)
qed

lemma writes_subscribe:
  assumes "subscribe_ok p" and "length (su_user_properties p) \<le> 1021"
    and "length (su_subscribe_filters p) \<le> 2053"
  shows "writes (subscribe_write wr p) (fixed_header_bytes (fixed_header_new PtSubscribe 2
      (VarByteInt (word_of_nat (length (subscribe_body_bytes p))))) @ subscribe_body_bytes p)"
  unfolding subscribe_write_def subscribe_lengths(2) [OF assms]
    subscribe_properties_length_bytes(2) [OF assms(1,2)] unwrap_Some
    subscribe_body_bytes_def [of p, unfolded subscribe_props_bytes_def [of p] append_assoc]
    subscribe_props_bytes_def [symmetric] write_pid_def write_u16_def filters_bytes_def
  by (intro writes_thn writes_fixed_header writes_slice writes_option writes_prop
      writes_user_properties writes_vbi [of "VarByteInt _", unfolded vbi_value.simps] writes_vbi
      writes_subscription_filters)

lemma writes_topic_filters: "writes (write_topic_filters wr ts) (concat (map binary_bytes ts))"
proof (induction ts)
  case (Cons t ts)
  have "writes (thn (write_string wr t) (write_topic_filters wr ts))
      (binary_bytes t @ concat (map binary_bytes ts))"
    unfolding write_string_def by (rule writes_thn [OF writes_binary Cons.IH])
  then show ?case by simp
qed (simp add: writes_ret)

lemma writes_unsubscribe:
  assumes "unsubscribe_ok p" and "length (un_user_properties p) \<le> 1021"
    and "length (un_topic_filters p) \<le> 2053"
  shows "writes (unsubscribe_write wr p) (fixed_header_bytes (fixed_header_new PtUnsubscribe 2
      (VarByteInt (word_of_nat (length (unsubscribe_body_bytes p))))) @ unsubscribe_body_bytes p)"
  unfolding unsubscribe_write_def unsubscribe_lengths(2,3) [OF assms] unwrap_Some
    unsubscribe_body_bytes_def write_pid_def write_u16_def
  by (intro writes_thn writes_fixed_header writes_slice writes_user_properties
      writes_vbi [of "VarByteInt _", unfolded vbi_value.simps] writes_topic_filters)

end

text \<open>C25: Over every transport that takes at least one byte per call, a CONNECT packet with at most 1021
  user properties in itself and in its will (the limit that the source asserts) is written
  completely, in \<open>encoded_len\<close> bytes, with no panic in the computation of a length: the fixed header,
  whose remaining length is the number of bytes that follow, and the fields in the order of MQTT 5.
  The flags announce exactly the optional fields that are written.\<close>

theorem connect_sent:
  assumes "byte_sink wr out room" and "connect_ok p"
    and "encoded_len (connect_remaining_len p) = Some n" and "room w n"
  shows "\<exists>w' h body. connect_send wr p w = (Ok (), w')
     \<and> out w' = out w @ fixed_header_bytes h @ body
     \<and> n = length (fixed_header_bytes h) + length body
     \<and> connect_remaining_len p = Some (remaining_len h) \<and> vbi_size (remaining_len h) = length body
     \<and> header_packet_type h = Some PtConnect \<and> header_flags h = 0
     \<and> body = protocol_name @ [connect_flags p] @ u16_to_be_bytes (keep_alive_as_u16 (cp_keep_alive p))
         @ vbi_bytes (word_of_nat (length (connect_props_bytes p))) @ connect_props_bytes p
         @ binary_bytes (cp_client_identifier p) @ opt_bytes will_bytes (cp_will p)
         @ opt_bytes binary_bytes (cp_user_name p) @ opt_bytes binary_bytes (cp_password p)
     \<and> bit (connect_flags p) 7 = (cp_user_name p \<noteq> None)
     \<and> bit (connect_flags p) 6 = (cp_password p \<noteq> None)
     \<and> bit (connect_flags p) 5 = cp_will_retain p
     \<and> drop_bit 3 (connect_flags p) AND 3 = qos_into_bits (cp_will_qos p) 0
     \<and> bit (connect_flags p) 2 = (cp_will p \<noteq> None)
     \<and> bit (connect_flags p) 1 = cp_clean_start p \<and> \<not> bit (connect_flags p) 0"
  unfolding connect_send_def
  by (rule byte_sink.sends_packet [OF assms(1) byte_sink.writes_connect [OF assms(1,2)]
        connect_lengths [OF assms(2)] assms(3,4)])
     (intro conjI connect_flags_bits connect_body_bytes_def;
      simp add: fixed_header_new_def header_flags_def header_packet_type_def from_type_and_flags_def
        Let_def)

definition sample_connect :: connect_packet where
  "sample_connect = add_user_name [0x75] (add_will
     \<lparr>wi_will_topic = [0x74], wi_will_delay_interval = Some 5, wi_payload_format_indicator = None,
      wi_message_expiry_interval = None, wi_content_type = None, wi_response_topic = None,
      wi_correlation_data = None, wi_user_properties = [], wi_will_message = [1]\<rparr> AtLeastOnce True
     (connect_new [0x63] True (KaSeconds 60) (MpsLimit 256) NeverEnd 10 False True []))"

lemma connect_ok_sample: "connect_ok sample_connect"
  by (simp add: sample_connect_def connect_ok_def connect_new_def add_user_name_def add_will_def
      will_ok_def string_ok_def small_binary_def MAX_LENGTH_def)

lemma encoded_len_sample: "encoded_len (connect_remaining_len sample_connect) = Some 44"
proof -
  have p: "length (connect_props_bytes sample_connect) = 13"
    by (simp add: connect_props_bytes_def sample_connect_def connect_new_def add_user_name_def
        add_will_def opt_bytes_def user_properties_bytes_def prop_len_def property_type_written_len_def)
  have "length (connect_body_bytes sample_connect) = 42"
    unfolding connect_body_bytes_def p
    by (simp add: p length_vbi_bytes)
       (simp add: sample_connect_def connect_new_def add_user_name_def add_will_def opt_bytes_def
        protocol_name_def will_bytes_def will_props_bytes_def user_properties_bytes_def prop_len_def
        property_type_written_len_def binary_written_len_def length_vbi_bytes)
  then show ?thesis
    by (simp add: connect_lengths [OF connect_ok_sample] encoded_len_def vbi_written_len_def vbi_size_def)
qed

theorem connect_sent_witness:
  "\<exists>w' h body. connect_send slice_write sample_connect (slice_writer_new (replicate 64 0)) = (Ok (), w')
     \<and> slice_out w' = fixed_header_bytes h @ body
     \<and> length (slice_out w') = 44 \<and> header_packet_type h = Some PtConnect
     \<and> bit (connect_flags sample_connect) 7 \<and> \<not> bit (connect_flags sample_connect) 6
     \<and> bit (connect_flags sample_connect) 2"
proof -
  have "slice_room (slice_writer_new (replicate 64 0)) 44" "slice_out (slice_writer_new (replicate 64 0)) = []"
    "cp_user_name sample_connect \<noteq> None" "cp_password sample_connect = None" "cp_will sample_connect \<noteq> None"
    by (simp_all add: slice_room_def slice_writer_new_def slice_out_def sample_connect_def connect_new_def
        add_user_name_def add_will_def)
  then show ?thesis
    using connect_sent [OF slice_out.byte_sink_axioms connect_ok_sample encoded_len_sample] by force
qed

text \<open>C26: \<open>SubscribePacket::new\<close> never reports \<open>TooLargeToEncode\<close> within the limits of 1021 user
  properties and 2053 filters, the packet can be sent, so the \<open>unwrap_unchecked\<close> of its length is
  sound, and it is written as MQTT 5 prescribes: the identifier, the property length with the
  properties, and each filter followed by its options.\<close>

theorem subscribe_sent:
  assumes "byte_sink wr out room" and "maxu \<le> 1021" and "maxf \<le> 2053"
    and "length us \<le> maxu" and "length fs \<le> maxf"
    and "\<forall>v. si = Some v \<longrightarrow> vbi_value v \<le> MAX_ENCODABLE"
    and "\<forall>u \<in> set us. string_pair_ok u" and "\<forall>t \<in> set fs. string_ok (sf_topic t)"
  shows "\<exists>p n. subscribe_new maxf maxu i si us fs = Some (Some p)
     \<and> encoded_len (subscribe_remaining_len p) = Some n
     \<and> (room w n \<longrightarrow> (\<exists>w' h body. subscribe_send wr p w = (Ok (), w')
        \<and> out w' = out w @ fixed_header_bytes h @ body
        \<and> n = length (fixed_header_bytes h) + length body
        \<and> subscribe_remaining_len p = Some (remaining_len h) \<and> vbi_size (remaining_len h) = length body
        \<and> header_packet_type h = Some PtSubscribe \<and> header_flags h = 2
        \<and> body = u16_to_be_bytes i @ vbi_bytes (word_of_nat (length (subscribe_props_bytes p)))
            @ subscribe_props_bytes p
            @ concat (map (\<lambda>t. binary_bytes (sf_topic t) @ [sf_subscription_options t]) fs)))"
proof -
  let ?p = "\<lparr>su_packet_identifier = i, su_subscription_identifier = si, su_user_properties = us,
    su_subscribe_filters = fs\<rparr>"
  have ok: "subscribe_ok ?p" using assms(6-8) by (cases si) (auto simp: subscribe_ok_def)
  have lim: "length (su_user_properties ?p) \<le> 1021" "length (su_subscribe_filters ?p) \<le> 2053"
    using assms(2-5) by simp_all
  note len = subscribe_lengths [OF ok lim]
  have new: "subscribe_new maxf maxu i si us fs = Some (Some ?p)"
    using assms(2,3) by (simp add: subscribe_new_def)
  obtain n where enc: "encoded_len (subscribe_remaining_len ?p) = Some n"
    unfolding len(2) using encoded_len_bytes [OF len(1)] by blast
  have body: "subscribe_body_bytes ?p = u16_to_be_bytes i
      @ vbi_bytes (word_of_nat (length (subscribe_props_bytes ?p))) @ subscribe_props_bytes ?p
      @ concat (map (\<lambda>t. binary_bytes (sf_topic t) @ [sf_subscription_options t]) fs)"
    by (simp add: subscribe_body_bytes_def filters_bytes_def)
  note sent = byte_sink.sends_packet [OF assms(1) byte_sink.writes_subscribe [OF assms(1) ok lim]
      len enc, where g = tx_of_write, folded subscribe_send_def]
  show ?thesis
    by (intro exI [of _ ?p] exI [of _ n] conjI impI new enc sent; (simp add: body)?)
       (simp_all add: fixed_header_new_def header_flags_def header_packet_type_def
          from_type_and_flags_def Let_def)
qed

theorem subscribe_sent_witness:
  "\<exists>p n. subscribe_new 1 2 7 (Some (VarByteInt 300)) []
       [\<lparr>sf_topic = [0x61], sf_subscription_options = 1\<rparr>] = Some (Some p)
     \<and> encoded_len (subscribe_remaining_len p) = Some n"
  using subscribe_sent [OF slice_out.byte_sink_axioms, where maxu = 2 and maxf = 1 and us = "[]"
      and fs = "[\<lparr>sf_topic = [0x61], sf_subscription_options = 1\<rparr>]" and si = "Some (VarByteInt 300)"
      and i = 7]
  by (fastforce simp: string_ok_def MAX_LENGTH_def MAX_ENCODABLE_def)

text \<open>The same for \<open>UnsubscribePacket::new\<close>, as its documentation promises.\<close>

theorem unsubscribe_sent:
  assumes "byte_sink wr out room" and "maxu \<le> 1021" and "maxf \<le> 2053"
    and "length us \<le> maxu" and "length ts \<le> maxf"
    and "\<forall>u \<in> set us. string_pair_ok u" and "\<forall>t \<in> set ts. string_ok t"
  shows "\<exists>p n. unsubscribe_new maxf maxu i us ts = Some (Some p)
     \<and> encoded_len (unsubscribe_remaining_len p) = Some n
     \<and> (room w n \<longrightarrow> (\<exists>w' h body. unsubscribe_send wr p w = (Ok (), w')
        \<and> out w' = out w @ fixed_header_bytes h @ body
        \<and> n = length (fixed_header_bytes h) + length body
        \<and> unsubscribe_remaining_len p = Some (remaining_len h) \<and> vbi_size (remaining_len h) = length body
        \<and> header_packet_type h = Some PtUnsubscribe \<and> header_flags h = 2
        \<and> body = u16_to_be_bytes i @ vbi_bytes (word_of_nat (user_properties_written_len us))
            @ user_properties_bytes us @ concat (map binary_bytes ts)))"
proof -
  let ?p = "\<lparr>un_packet_identifier = i, un_user_properties = us, un_topic_filters = ts\<rparr>"
  have ok: "unsubscribe_ok ?p" using assms(6,7) by (simp add: unsubscribe_ok_def)
  have lim: "length (un_user_properties ?p) \<le> 1021" "length (un_topic_filters ?p) \<le> 2053"
    using assms(2-5) by simp_all
  note len = unsubscribe_lengths(1,3) [OF ok lim]
  have new: "unsubscribe_new maxf maxu i us ts = Some (Some ?p)"
    using assms(2,3) by (simp add: unsubscribe_new_def)
  obtain n where enc: "encoded_len (unsubscribe_remaining_len ?p) = Some n"
    unfolding len(2) using encoded_len_bytes [OF len(1)] by blast
  have body: "unsubscribe_body_bytes ?p = u16_to_be_bytes i
      @ vbi_bytes (word_of_nat (user_properties_written_len us)) @ user_properties_bytes us
      @ concat (map binary_bytes ts)"
    by (simp add: unsubscribe_body_bytes_def)
  note sent = byte_sink.sends_packet [OF assms(1) byte_sink.writes_unsubscribe [OF assms(1) ok lim]
      len enc, where g = tx_of_write, folded unsubscribe_send_def]
  show ?thesis
    by (intro exI [of _ ?p] exI [of _ n] conjI impI new enc sent; (simp add: body)?)
       (simp_all add: fixed_header_new_def header_flags_def header_packet_type_def
          from_type_and_flags_def Let_def)
qed

theorem unsubscribe_sent_witness:
  "\<exists>p n. unsubscribe_new 1 2 7 [] [[0x61]] = Some (Some p)
     \<and> encoded_len (unsubscribe_remaining_len p) = Some n"
  using unsubscribe_sent [OF slice_out.byte_sink_axioms, where maxu = 2 and maxf = 1 and us = "[]"
      and ts = "[[0x61]]" and i = 7]
  by (fastforce simp: string_ok_def MAX_LENGTH_def)

end
