(* ===== verification/Mqtt_Header.thy ===== *)
theory Mqtt_Header
  imports Mqtt_Property
begin

text \<open>
  Reception of the fixed header, byte by byte: \<open>src/client/raw/header.rs\<close>, and the loop of
  \<open>Raw::recv_header\<close> in \<open>src/client/raw/mod.rs\<close>. The state between two bytes is kept by the client,
  so that a caller may stop between two bytes and go on later; here every call runs to its end.
\<close>

section \<open>The state between two bytes\<close>

record header_state =
  hs_buffer :: "u8 list"
  hs_read :: nat

definition header_state_new :: header_state where
  "header_state_new = \<lparr>hs_buffer = [0, 0, 0, 0, 0], hs_read = 0\<rparr>"

text \<open>
  \<open>HeaderState::update\<close>. Indexing past the buffer panics, and so does the \<open>unreachable!\<close> for a
  transport that claims two or more bytes for a buffer of one.
\<close>

definition header_update ::
    "('s, 'e) reader \<Rightarrow> (header_state \<times> 's, 'e read_error, fixed_header option) comp" where
  "header_update rd = (\<lambda>(h, s).
     let i = hs_read h in
     if length (hs_buffer h) \<le> i then (Panic, (h, s))
     else (case rd 1 s of
         (Err e, s') \<Rightarrow> (Err (ReRead e), (h, s'))
       | (Panic, s') \<Rightarrow> (Panic, (h, s'))
       | (Ok [], s') \<Rightarrow> (Err ReUnexpectedEOF, (h, s'))
       | (Ok (_ # _ # _), s') \<Rightarrow> (Panic, (h, s'))
       | (Ok [b], s') \<Rightarrow>
           (let h = h\<lparr>hs_buffer := (hs_buffer h)[i := b], hs_read := hs_read h + 1\<rparr> in
            if i = 0 then
              (if from_type_and_flags (hs_buffer h ! i) \<noteq> None then (Ok None, (h, s'))
               else (Err ReMalformedPacket, (h\<lparr>hs_read := 0\<rparr>, s')))
            else if hs_buffer h ! i \<ge> 128 then
              (if i = 4 then (Err ReMalformedPacket, (h\<lparr>hs_read := 0\<rparr>, s'))
               else (Ok None, (h, s')))
            else (case from_slice_unchecked (take i (drop 1 (hs_buffer h))) of
                None \<Rightarrow> (Panic, (h, s'))
              | Some len \<Rightarrow>
                  (Ok (Some \<lparr>type_and_flags = hs_buffer h ! 0, remaining_len = len\<rparr>),
                   (h\<lparr>hs_read := 0\<rparr>, s'))))))"

lemma header_update_None:
  assumes "header_update rd (h, s) = (Ok None, (h', s'))"
  shows "length (hs_buffer h') = length (hs_buffer h)" "hs_read h' = hs_read h + 1"
    "hs_read h < length (hs_buffer h)"
  using assms by (auto simp: header_update_def Let_def not_le
      split: if_splits prod.splits res.splits list.splits option.splits)

text \<open>The loop of \<open>recv_header\<close>: as long as \<open>update\<close> returns \<open>Ok(None)\<close>.\<close>

function header_loop :: "('s, 'e) reader \<Rightarrow> header_state \<times> 's
    \<Rightarrow> ('e read_error, fixed_header) res \<times> (header_state \<times> 's)" where
  "header_loop rd hs = (case header_update rd hs of
      (Ok None, hs') \<Rightarrow> header_loop rd hs'
    | (Ok (Some h), hs') \<Rightarrow> (Ok h, hs')
    | (Err e, hs') \<Rightarrow> (Err e, hs')
    | (Panic, hs') \<Rightarrow> (Panic, hs'))"
  by pat_completeness auto

termination
proof (relation "measure (\<lambda>(rd, h, s). length (hs_buffer h) - hs_read h)", goal_cases)
  case (2 rd hs x hs')
  obtain h s h' s' where "hs = (h, s)" "hs' = (h', s')" by fastforce
  then show ?case using 2 header_update_None [of rd h s h' s'] by simp
qed simp

declare header_loop.simps [simp del]

section \<open>What the loop computes\<close>

text \<open>
  The header in one piece: a byte, whose upper half is not reserved, and a variable byte integer.
\<close>

definition read_fixed_header :: "('s, 'e) reader \<Rightarrow> ('s, 'e read_error, fixed_header) comp" where
  "read_fixed_header rd = bnd (read_u8 rd) (\<lambda>b.
     if from_type_and_flags b = None then fail ReMalformedPacket
     else bnd (read_vbi rd) (\<lambda>len. ret \<lparr>type_and_flags = b, remaining_len = len\<rparr>))"

definition header_fresh :: "header_state \<Rightarrow> bool" where
  "header_fresh h \<longleftrightarrow> length (hs_buffer h) = 5 \<and> hs_read h = 0"

lemma header_state_new_fresh [simp]: "header_fresh header_state_new"
  by (simp add: header_fresh_def header_state_new_def)

text \<open>\<open>m\<close> behaves as \<open>n\<close> on the transport, and leaves a fresh header state when it succeeds.\<close>

definition header_agrees ::
    "('x, fixed_header) res \<times> (header_state \<times> 's) \<Rightarrow> ('x, fixed_header) res \<times> 's \<Rightarrow> bool" where
  "header_agrees m n \<longleftrightarrow> fst m = fst n \<and> snd (snd m) = snd n
     \<and> (\<forall>h. fst m = Ok h \<longrightarrow> header_fresh (fst (snd m)))"

lemma header_loop_vbi:
  assumes "length (hs_buffer h) = 5" and "hs_read h = 1 + length buf" and "length buf \<le> 3"
    and "hs_buffer h ! 0 = b" and "take (length buf) (drop 1 (hs_buffer h)) = buf"
  shows "header_agrees (header_loop rd (h, s))
    (bnd (read_vbi_loop rd buf) (\<lambda>len. ret \<lparr>type_and_flags = b, remaining_len = len\<rparr>) s)"
  using assms
proof (induction "3 - length buf" arbitrary: h buf s rule: less_induct)
  case less
  note eqs = header_loop.simps [of rd "(h, s)"] read_vbi_loop.simps [of rd buf s]
  obtain x s' where x: "rd 1 s = (x, s')" by fastforce
  let ?i = "1 + length buf"
  show ?case
  proof (cases "\<exists>c. x = Ok [c]")
    case False
    then show ?thesis
      using less.prems x by (cases x)
        (auto simp: eqs header_update_def header_agrees_def bnd_def Let_def split: list.splits)
  next
    case True
    then obtain c where c: "x = Ok [c]" by blast
    let ?h = "h\<lparr>hs_buffer := (hs_buffer h)[?i := c], hs_read := Suc ?i\<rparr>"
    have i: "hs_buffer ?h ! ?i = c" "hs_buffer ?h ! 0 = b" using less.prems by simp_all
    have "take ?i (drop 1 (hs_buffer ?h)) = take (length buf) (drop 1 (hs_buffer ?h)) @ [drop 1 (hs_buffer ?h) ! length buf]"
      using less.prems by (subst take_Suc_conv_app_nth [symmetric]) auto
    also have "\<dots> = buf @ [c]"
      using less.prems i(1) by (simp add: drop_update_swap)
    finally have t: "take ?i (drop 1 (hs_buffer ?h)) = buf @ [c]" .
    show ?thesis
    proof (cases "c \<ge> 128 \<and> length buf < 3")
      case True
      have "header_agrees (header_loop rd (?h, s'))
          (bnd (read_vbi_loop rd (buf @ [c])) (\<lambda>len. ret \<lparr>type_and_flags = b, remaining_len = len\<rparr>) s')"
        using True less.prems t i by (intro less.hyps) auto
      moreover have "header_update rd (h, s) = (Ok None, (?h, s'))"
        using True less.prems x c by (simp add: header_update_def)
      moreover have "read_vbi_loop rd buf s = read_vbi_loop rd (buf @ [c]) s'"
        using True less.prems x c by (simp add: eqs)
      ultimately show ?thesis by (simp add: eqs(1) bnd_def)
    next
      case False
      then show ?thesis
        using less.prems x c t i
        by (auto simp: eqs header_update_def header_agrees_def header_fresh_def bnd_def ret_def Let_def
            split: option.splits)
    qed
  qed
qed

lemma read_u8_step:
  "read_u8 rd s = (case rd 1 s of
      (Err e, s') \<Rightarrow> (Err (ReRead e), s')
    | (Panic, s') \<Rightarrow> (Panic, s')
    | (Ok [], s') \<Rightarrow> (Err ReUnexpectedEOF, s')
    | (Ok [b], s') \<Rightarrow> (Ok b, s')
    | (Ok (_ # _ # _), s') \<Rightarrow> (Panic, s'))"
  by (auto simp: read_u8_def read_array_def fill.simps [of _ _ "Suc 0"] fill.simps [of _ _ 0] bnd_def ret_def
      split: prod.splits res.splits list.splits)

lemma header_loop_agrees:
  assumes "header_fresh h"
  shows "header_agrees (header_loop rd (h, s)) (read_fixed_header rd s)"
proof -
  obtain x s' where x: "rd 1 s = (x, s')" by fastforce
  have h: "length (hs_buffer h) = 5" "hs_read h = 0" using assms by (auto simp: header_fresh_def)
  show ?thesis
  proof (cases "\<exists>c. x = Ok [c] \<and> from_type_and_flags c \<noteq> None")
    case False
    then show ?thesis
      using h x by (cases x)
        (auto simp: header_loop.simps [of rd "(h, s)"] header_update_def read_fixed_header_def
          read_u8_step header_agrees_def bnd_def fail_def Let_def split: list.splits)
  next
    case True
    then obtain c where c: "x = Ok [c]" "from_type_and_flags c \<noteq> None" by blast
    let ?h = "h\<lparr>hs_buffer := (hs_buffer h)[0 := c], hs_read := 1\<rparr>"
    have "header_agrees (header_loop rd (?h, s')) (bnd (read_vbi_loop rd [])
        (\<lambda>len. ret \<lparr>type_and_flags = c, remaining_len = len\<rparr>) s')"
      by (rule header_loop_vbi) (use h in auto)
    moreover have "header_loop rd (h, s) = header_loop rd (?h, s')"
      using h x c by (simp add: header_loop.simps [of rd "(h, s)"] header_update_def)
    moreover have "read_fixed_header rd s = bnd (read_vbi_loop rd [])
        (\<lambda>len. ret \<lparr>type_and_flags = c, remaining_len = len\<rparr>) s'"
      using x c by (auto simp: read_fixed_header_def read_u8_step bnd_def read_vbi_def)
    ultimately show ?thesis by simp
  qed
qed

section \<open>The header is total on every input\<close>

lemma vbi_decode_bound:
  "unat v < 2 ^ (7 * k) \<Longrightarrow> k + length bs \<le> 4
   \<Longrightarrow> unat (vbi_decode bs (2 ^ (7 * k)) v) < 2 ^ (7 * (k + length bs))"
proof (induction bs arbitrary: k v)
  case (Cons b bs)
  let ?b = "ucast (b AND 0x7F) :: u32" and ?v = "v + ucast (b AND 0x7F) * 2 ^ (7 * k)"
  have k: "(2 :: nat) ^ (7 * Suc k) \<le> 2 ^ 28" using Cons.prems(2) by (intro power_increasing) auto
  have two: "unat (2 ^ (7 * k) :: u32) = 2 ^ (7 * k)"
    using unat_small [of "2 ^ (7 * k)"] k by (simp add: power_add)
  have "unat (b AND 0x7F) \<le> 127" using word_and_le1 [of b "0x7F"] by (simp add: word_le_nat_alt)
  then have b: "unat ?b \<le> 127" by (simp add: unsigned_ucast_eq take_bit_eq_mod)
  have "unat ?b * 2 ^ (7 * k) \<le> 127 * 2 ^ (7 * k)" using b by (rule mult_right_mono) simp
  then have "unat v + unat ?b * 2 ^ (7 * k) < 128 * 2 ^ (7 * k)" using Cons.prems(1) by linarith
  then have lt: "unat v + unat ?b * 2 ^ (7 * k) < 2 ^ (7 * Suc k)" by (simp add: power_add)
  then have "unat ?v = unat v + unat ?b * 2 ^ (7 * k)"
    using k by (simp add: unat_word_ariths two)
  with lt have v: "unat ?v < 2 ^ (7 * Suc k)" by simp
  show ?case
  proof (cases "b AND 128 = 0")
    case True
    then have "unat (vbi_decode (b # bs) (2 ^ (7 * k)) v) < 2 ^ (7 * Suc k)" using v by simp
    also have "(2 :: nat) ^ (7 * Suc k) \<le> 2 ^ (7 * (k + length (b # bs)))"
      by (intro power_increasing) auto
    finally show ?thesis .
  next
    case False
    then show ?thesis
      using Cons.IH [OF v] Cons.prems(2) by (simp add: power_add mult.commute)
  qed
qed simp

lemma from_slice_Some:
  assumes "bs \<noteq> []" and "length bs \<le> 4" and "last bs AND 128 = 0"
  obtains v where "from_slice_unchecked bs = Some (VarByteInt v)" "v \<le> MAX_ENCODABLE"
proof -
  have "unat (vbi_decode bs 1 0) < 2 ^ (7 * length bs)"
    using vbi_decode_bound [of 0 0 bs] assms(2) by simp
  also have "(2 :: nat) ^ (7 * length bs) \<le> 2 ^ 28" using assms(2) by (intro power_increasing) auto
  finally have "vbi_decode bs 1 0 \<le> MAX_ENCODABLE" by (simp add: word_le_nat_alt MAX_ENCODABLE_def)
  then show ?thesis using that assms by (simp add: from_slice_unchecked_def vbi_new_unchecked_def)
qed

text \<open>
  A transport that does not panic as long as its state satisfies \<open>live\<close>, which its calls keep.
\<close>

locale live_stream = byte_stream rd bytes
  for rd :: "('s, 'e) reader" and bytes +
  fixes live :: "'s \<Rightarrow> bool"
  assumes rd_live: "live s \<Longrightarrow> fst (rd n s) \<noteq> Panic \<and> live (snd (rd n s))"
begin

definition reads_at_most :: "nat \<Rightarrow> ('a \<Rightarrow> bool) \<Rightarrow> 's \<Rightarrow> ('x, 'a) res \<times> 's \<Rightarrow> bool" where
  "reads_at_most k P s m \<longleftrightarrow> fst m \<noteq> Panic \<and> live (snd m) \<and> (\<forall>v. fst m = Ok v \<longrightarrow> P v)
     \<and> (\<exists>c. bytes s = c @ bytes (snd m) \<and> length c \<le> k)"

lemma reads_at_most_step:
  assumes "reads_at_most k P s' m" and "bytes s = b # bytes s'"
  shows "reads_at_most (Suc k) P s m"
proof -
  obtain c where "bytes s' = c @ bytes (snd m)" "length c \<le> k"
    using assms(1) by (auto simp: reads_at_most_def)
  then have "bytes s = (b # c) @ bytes (snd m)" "length (b # c) \<le> Suc k" using assms(2) by simp_all
  then show ?thesis using assms(1) unfolding reads_at_most_def by blast
qed

lemma rd_1_cases:
  assumes "live s"
  obtains (byte) b s' where "rd 1 s = (Ok [b], s')" "bytes s = b # bytes s'" "live s'"
  | (eof) s' where "rd 1 s = (Ok [], s')" "bytes s' = bytes s" "live s'"
  | (err) e s' where "rd 1 s = (Err e, s')" "bytes s' = bytes s" "live s'"
proof -
  obtain x s' where r: "rd 1 s = (x, s')" by fastforce
  have l: "x \<noteq> Panic" "live s'" using rd_live [OF assms, of 1] r by simp_all
  show thesis
  proof (cases x)
    case (Ok bs)
    then have b: "bytes s = bs @ bytes s'" "length bs \<le> 1" using rd_Ok r by fastforce+
    show thesis
    proof (cases bs)
      case Nil
      then show thesis using eof [of s'] r Ok b l by simp
    next
      case (Cons a as)
      then show thesis using byte [of a s'] r Ok b l by simp
    qed
  next
    case (Err e)
    then show thesis using err [of e s'] r rd_Err [of 1 s e s'] l by simp
  qed (use l in simp)
qed

lemma read_vbi_loop_at_most:
  "length buf \<le> 3 \<Longrightarrow> live s \<Longrightarrow>
   reads_at_most (4 - length buf) (\<lambda>v. vbi_value v \<le> MAX_ENCODABLE) s (read_vbi_loop rd buf s)"
proof (induction "3 - length buf" arbitrary: buf s rule: less_induct)
  case less
  note step = read_vbi_loop.simps [of rd buf s] reads_at_most_def
  show ?case
  proof (cases rule: rd_1_cases [OF less.prems(2)])
    case (1 b s')
    show ?thesis
    proof (cases "b \<ge> 128 \<and> length buf < 3")
      case True
      then have r: "read_vbi_loop rd buf s = read_vbi_loop rd (buf @ [b]) s'"
        using 1 less.prems by (simp add: step)
      have "reads_at_most (4 - length (buf @ [b])) (\<lambda>v. vbi_value v \<le> MAX_ENCODABLE) s'
          (read_vbi_loop rd (buf @ [b]) s')"
        using True less.prems 1 by (intro less.hyps) auto
      moreover have "4 - length buf = Suc (4 - length (buf @ [b]))" using True by auto
      ultimately show ?thesis using reads_at_most_step [OF _ 1(2)] r by simp
    next
      case False
      show ?thesis
      proof (cases "b \<ge> 128")
        case True
        then show ?thesis
          using False 1 less.prems by (auto simp: step intro!: exI [of _ "[b]"])
      next
        case nc: False
        then have "last (buf @ [b]) AND 128 = 0" by (simp add: continuation_iff)
        then obtain v where "from_slice_unchecked (buf @ [b]) = Some (VarByteInt v)" "v \<le> MAX_ENCODABLE"
          using from_slice_Some [of "buf @ [b]"] less.prems by auto
        then show ?thesis
          using nc 1 less.prems by (auto simp: step intro!: exI [of _ "[b]"])
      qed
    qed
  qed (use less.prems in \<open>auto simp: step\<close>)
qed

lemma read_fixed_header_at_most:
  assumes "live s"
  shows "reads_at_most 5 (\<lambda>f. header_packet_type f \<noteq> None \<and> vbi_value (remaining_len f) \<le> MAX_ENCODABLE) s
     (read_fixed_header rd s)"
proof (cases rule: rd_1_cases [OF assms])
  case (1 b s')
  then have u: "read_u8 rd s = (Ok b, s')" by (simp add: read_u8_step)
  show ?thesis
  proof (cases "from_type_and_flags b = None")
    case True
    then show ?thesis using u 1
      by (auto simp: read_fixed_header_def reads_at_most_def run_simps intro!: exI [of _ "[b]"])
  next
    case False
    have "reads_at_most 4 (\<lambda>v. vbi_value v \<le> MAX_ENCODABLE) s' (read_vbi rd s')"
      using read_vbi_loop_at_most [of "[]" s'] 1 by (simp add: read_vbi_def)
    then have "reads_at_most 4
        (\<lambda>f. header_packet_type f \<noteq> None \<and> vbi_value (remaining_len f) \<le> MAX_ENCODABLE) s'
        (bnd (read_vbi rd) (\<lambda>len. ret \<lparr>type_and_flags = b, remaining_len = len\<rparr>) s')"
      using False by (auto simp: reads_at_most_def bnd_def ret_def header_packet_type_def
          split: prod.splits res.splits)
    from reads_at_most_step [OF this 1(2)] show ?thesis
      using u False by (auto simp: read_fixed_header_def)
  qed
qed (auto simp: read_fixed_header_def read_u8_step reads_at_most_def bnd_def)

end

definition slice_live :: "slice_reader \<Rightarrow> bool" where
  "slice_live s \<longleftrightarrow> sr_index s \<le> length (sr_slice s)"

interpretation live_slice: live_stream slice_read slice_bytes slice_live
  by unfold_locales (auto simp: slice_live_def slice_read_def Let_def)

text \<open>C33: Receiving the fixed header byte by byte is the same as reading it in one piece. For every
  transport, whatever it delivers, the loop of \<open>recv_header\<close>, started between two packets, ends with
  the header, error or panic of reading one byte with a packet type that is not reserved and then
  \<open>VarByteInt::read\<close>, leaves the transport in the same state, and after a header is ready for the
  next packet.\<close>

theorem header_received_as_read:
  assumes "header_fresh h"
  shows "\<exists>x h' s'. header_loop rd (h, s) = (x, (h', s')) \<and> read_fixed_header rd s = (x, s')
     \<and> (\<forall>f. x = Ok f \<longrightarrow> header_fresh h')"
  using header_loop_agrees [OF assms, of rd s] by (auto simp: header_agrees_def prod_eq_iff)

theorem header_received_as_read_witness:
  "\<exists>x h' s'. header_loop slice_read (header_state_new, slice_reader_new [0x30, 0x80, 0x01, 7])
       = (x :: (unit read_error, _) res, (h', s'))
     \<and> read_fixed_header slice_read (slice_reader_new [0x30, 0x80, 0x01, 7]) = (x, s')
     \<and> (\<forall>f. x = Ok f \<longrightarrow> header_fresh h')"
  by (rule header_received_as_read) simp

text \<open>C34: Receiving the fixed header is total. On every input of a transport that does not itself
  panic it ends without a panic, after at most five bytes taken from the front of the input, and
  a header it returns has a packet type that is not reserved and a remaining length of at most
  268435455.\<close>

theorem header_received_total:
  assumes "live_stream rd bytes live" and "live s" and "header_fresh h"
    and "header_loop rd (h, s) = (x, (h', s'))"
  shows "x \<noteq> Panic \<and> (\<exists>c. bytes s = c @ bytes s' \<and> length c \<le> 5)
     \<and> (\<forall>f. x = Ok f \<longrightarrow> header_packet_type f \<noteq> None \<and> vbi_value (remaining_len f) \<le> MAX_ENCODABLE)"
proof -
  have "read_fixed_header rd s = (x, s')"
    using header_loop_agrees [OF assms(3), of rd s] assms(4) by (auto simp: header_agrees_def prod_eq_iff)
  then show ?thesis
    using live_stream.read_fixed_header_at_most [OF assms(1,2)]
    by (auto simp: live_stream.reads_at_most_def [OF assms(1)])
qed

theorem header_received_total_witness:
  "\<exists>x h' s'. header_loop slice_read (header_state_new, slice_reader_new [0xFF, 0xFF])
       = (x :: (unit read_error, _) res, (h', s'))
     \<and> (x \<noteq> Panic \<and> (\<exists>c. slice_bytes (slice_reader_new [0xFF, 0xFF]) = c @ slice_bytes s' \<and> length c \<le> 5)
     \<and> (\<forall>f. x = Ok f \<longrightarrow> header_packet_type f \<noteq> None \<and> vbi_value (remaining_len f) \<le> MAX_ENCODABLE))"
proof -
  obtain x :: "(unit read_error, _) res" and h' s'
    where "header_loop slice_read (header_state_new, slice_reader_new [0xFF, 0xFF]) = (x, (h', s'))"
    by (cases "header_loop slice_read (header_state_new, slice_reader_new [0xFF, 0xFF])
          :: (unit read_error, _) res \<times> _") fastforce
  from header_received_total [OF live_slice.live_stream_axioms _ header_state_new_fresh this] this
  show ?thesis by (auto simp: slice_live_def slice_reader_new_def)
qed

end
