(* ===== verification/Mqtt_Outcomes.thy ===== *)
theory Mqtt_Outcomes
  imports Mqtt_Property
begin

text \<open>
  What a receiver does with a body that is not a packet, beside \<open>reads\<close> and \<open>parses\<close> of the codec: it
  rejects the body with an error, or, as a case of both, it yields a result. The lemmas are those of
  the sequences, loops and checks that the receivers are made of; skipping data is a read that
  keeps nothing.
\<close>

section \<open>Skipping and rejecting\<close>

context byte_source
begin

lemma skip_loop_run:
  "n \<le> length (bytes s) \<Longrightarrow>
   \<exists>s'. skip_loop rd n s = (Ok () :: (('e, 'p) body_read_error, unit) res, s') \<and> bytes s' = drop n (bytes s)"
proof (induction n arbitrary: s rule: less_induct)
  case (less n)
  show ?case
  proof (cases "n = 0")
    case True
    then show ?thesis by (simp add: skip_loop.simps [of rd 0])
  next
    case False
    let ?c = "min CHUNK_SIZE n"
    have "bytes s \<noteq> []" "0 < ?c" using less.prems False by (auto simp: CHUNK_SIZE_def)
    then obtain bs s1 where s1: "rd ?c s = (Ok bs, s1)" "bs \<noteq> []" "length bs \<le> ?c"
        "bytes s = bs @ bytes s1"
      using rd_ok by blast
    have "n - length bs < n" "n - length bs \<le> length (bytes s1)"
      using False s1 less.prems by (auto simp: le_diff_conv)
    from less.IH [OF this] obtain s' where
      "skip_loop rd (n - length bs) s1 = (Ok () :: (('e, 'p) body_read_error, unit) res, s')"
      "bytes s' = drop (n - length bs) (bytes s1)" by blast
    moreover have "skip_loop rd n s
        = (skip_loop rd (n - length bs) s1 :: (('e, 'p) body_read_error, unit) res \<times> _)"
      using s1 False by (subst skip_loop.simps) simp
    ultimately show ?thesis using s1 by (simp add: min_def split: if_splits)
  qed
qed

end

context byte_store
begin

text \<open>\<open>m\<close> fails with \<open>e\<close> on the input \<open>bs\<close>, when there is memory for \<open>k\<close> bytes.\<close>

definition rejects :: "('s, 'f, 'a) comp \<Rightarrow> u8 list \<Rightarrow> nat \<Rightarrow> 'f \<Rightarrow> bool" where
  "rejects m bs k e \<longleftrightarrow> (\<forall>s j. bytes s = bs \<longrightarrow> fits s (k + j) \<longrightarrow> (\<exists>s'. m s = (Err e, s')))"

lemma rejects_fail: "rejects (fail e) bs k e"
  by (simp add: rejects_def run_simps)

lemma rejects_bnd:
  "reads m a k v \<Longrightarrow> rejects (f v) b l e \<Longrightarrow> rejects (bnd m f) (a @ b) (k + l) e"
  unfolding rejects_def reads_def by (fastforce simp: add.assoc)

lemma rejects_bnd_first: "rejects m bs k e \<Longrightarrow> rejects (bnd m f) bs k e"
  unfolding rejects_def by (fastforce simp: bnd_def)

text \<open>Both outcomes in one.\<close>

definition yields :: "('s, 'f, 'a) comp \<Rightarrow> u8 list \<Rightarrow> nat \<Rightarrow> ('f, 'a) res \<Rightarrow> bool" where
  "yields m bs k x = (case x of Ok v \<Rightarrow> parses m bs k v | Err e \<Rightarrow> rejects m bs k e | Panic \<Rightarrow> False)"

lemma yields_simps [simp]:
  "yields m bs k (Ok v) = parses m bs k v" "yields m bs k (Err e) = rejects m bs k e"
  by (simp_all add: yields_def)

lemma yields_bnd: "reads m a k v \<Longrightarrow> yields (f v) b l x \<Longrightarrow> yields (bnd m f) (a @ b) (k + l) x"
  by (cases x) (simp_all add: yields_def parses_bnd rejects_bnd)

end

text \<open>A property that may occur once: its value is set, or the packet is rejected.\<close>

definition once :: "'a option \<Rightarrow> 'b \<Rightarrow> 'b option" where
  "once cur new = (if cur = None then Some new else None)"

context packet_body
begin

lemma reads_skip:
  "body.reads (body_skip rd (length bs) :: (_, ('e, 'p) body_read_error, unit) comp) bs 0 ()"
proof (rule body.readsI)
  fix r rest j
  assume b: "body_bytes bytes r = bs @ rest" and f: "body_fits bytes free tail r (0 + j)"
  have n: "length bs \<le> br_remaining_len r" using body_remaining [OF f] b by simp
  have full: "bytes (br_r r) = (bs @ rest) @ tail"
    using f b append_take_drop_id [of "br_remaining_len r" "bytes (br_r r)"]
    by (simp add: body_fits_def body_bytes_def)
  then obtain s' where s': "skip_loop rd (length bs) (br_r r) = (Ok () :: (('e, 'p) body_read_error, unit) res, s')"
      "bytes s' = rest @ tail"
    using skip_loop_run [of "length bs" "br_r r"] by auto
  let ?r = "r\<lparr>br_r := s', br_remaining_len := length rest\<rparr>"
  have "body_skip rd (length bs) r = (Ok () :: (('e, 'p) body_read_error, unit) res, ?r)"
    using n s'(1) body_remaining [OF f] b by (simp add: body_skip_def)
  moreover have "body_bytes bytes ?r = rest" "body_fits bytes free tail ?r j"
    using s'(2) f by (simp_all add: body_bytes_def body_fits_def)
  ultimately show "\<exists>r'. body_skip rd (length bs) r = (Ok () :: (('e, 'p) body_read_error, unit) res, r') \<and> body_bytes bytes r' = rest
      \<and> body_fits bytes free tail r' j"
    by blast
qed

lemma reads_user_property_skip:
  assumes "string_pair_ok u"
  shows "body.reads (user_property_skip rd :: (_, ('e, 'p) rx_error, nat) comp) (string_pair_bytes u) 0
    (string_pair_written_len u)"
proof -
  have len: "unat (binary_len (pair_name u)) = length (pair_name u)"
    "unat (binary_len (pair_value u)) = length (pair_value u)"
    using assms by (simp_all add: string_pair_ok_def string_ok_def binary_len_def MAX_LENGTH_def unat_of_nat)
  note skip = body.reads_map_err [OF reads_skip, of rx_of_body]
  have "body.reads (user_property_skip rd :: (_, ('e, 'p) rx_error, nat) comp)
      (u16_to_be_bytes (binary_len (pair_name u)) @ pair_name u
       @ u16_to_be_bytes (binary_len (pair_value u)) @ pair_value u @ [])
      (0 + (0 + (0 + (0 + 0)))) (string_pair_written_len u)"
    unfolding user_property_skip_def
    by (rule body.reads_bnd [OF body.reads_map_err [OF body.reads_u16]],
        unfold len, rule body.reads_bnd [OF skip],
        rule body.reads_bnd [OF body.reads_map_err [OF body.reads_u16]],
        unfold len, rule body.reads_bnd [OF skip])
       (use body.reads_ret [of "string_pair_written_len u"] in
          \<open>simp add: string_pair_written_len_def string_written_len_def binary_written_len_def\<close>)
  then show ?thesis by (simp add: string_pair_bytes_def binary_bytes_def)
qed

lemma reads_once:
  "once x a = Some acc \<Longrightarrow> body.reads m bs k v \<Longrightarrow> f (Some v) = ret a
   \<Longrightarrow> body.reads (bnd (map_err g (try_set x m)) f) bs k acc"
  by (auto simp: once_def split: if_splits intro: body.reads_bnd_ret [OF reads_try_set])

lemma rejects_once:
  "once x a = None \<Longrightarrow> body.rejects (bnd (map_err rx_of_at_most_once (try_set x m)) f) bs k RxProtocolError"
  by (auto simp: once_def try_set_def body.rejects_def run_simps map_err_def bnd_def split: if_splits)

lemma rejects_typed:
  assumes "body.rejects (f p) (c @ rest) k e"
  shows "body.rejects (bnd (map_err g (read_property_type brd)) f) (prop_bytes p c @ rest) k e"
  using body.rejects_bnd [where f = f, OF body.reads_map_err [OF reads_property_type [of p], of g] assms]
  by (simp add: prop_bytes_def)

lemma rejects_while:
  assumes "shrinks step" and "bs \<noteq> []"
    and "body.rejects (bnd (step acc) (body_while some_left step)) bs k e"
  shows "body.rejects (body_while some_left step acc) bs k e"
proof -
  have "body_while some_left step acc r = bnd (step acc) (body_while some_left step) r"
    if "body_bytes bytes r = bs" and "body_fits bytes free tail r j" for r j
    using body_remaining [OF that(2)] that(1) assms(2) by (simp add: body_while_unfold [OF assms(1)])
  then show ?thesis using assms(3) unfolding body.rejects_def by metis
qed

lemma yields_checked:
  "body.yields m bs k x
   \<Longrightarrow> body.yields (\<lambda>r. if br_remaining_len r \<noteq> length bs then (Err e, r) else m r) bs k x"
  by (cases x) (auto simp: body.yields_def body.rejects_def parses_checked dest: body_remaining)

lemma yields_cong:
  assumes "body.yields m bs k x" and "\<And>r. br_remaining_len r = length bs \<Longrightarrow> m' r = m r"
  shows "body.yields m' bs k x"
proof -
  have "m' r = m r" if "body_bytes bytes r = bs" "body_fits bytes free tail r j" for r j
    using assms(2) body_remaining [OF that(2)] that(1) by simp
  then show ?thesis
    using assms(1) unfolding body.yields_def body.parses_def body.rejects_def
    by (auto split: res.split) blast
qed

lemma rejects_while_cond:
  assumes "shrinks step" and "\<And>r. cond acc r"
    and "body.rejects (bnd (step acc) (body_while cond step)) bs k e"
  shows "body.rejects (body_while cond step acc) bs k e"
  using assms(2,3) by (simp add: body.rejects_def body_while_unfold [OF assms(1)])

lemma yields_run:
  assumes "body.yields m bs k x" and "bytes s = bs @ tail" and "free b k"
  shows "\<exists>r'. m (body_reader_new s b (length bs)) = (x, r')
    \<and> (\<forall>v. x = Ok v \<longrightarrow> br_remaining_len r' = 0 \<and> bytes (br_r r') = tail)"
proof (cases x)
  case (Ok v)
  then show ?thesis using parses_run [OF _ assms(2,3)] assms(1) by simp
next
  case (Err e)
  let ?r = "body_reader_new s b (length bs)"
  have "body_bytes bytes ?r = bs" "body_fits bytes free tail ?r (k + 0)"
    using assms(2,3) by (simp_all add: body_bytes_def body_fits_def body_reader_new_def)
  moreover have "body.rejects m bs k e" using assms(1) Err by simp
  ultimately obtain r' where "m ?r = (Err e, r')" unfolding body.rejects_def by blast
  then show ?thesis using Err by simp
next
  case Panic
  then show ?thesis using assms(1) by (simp add: body.yields_def)
qed

end

end
