(* ===== verification/Mqtt_Connack.thy ===== *)
theory Mqtt_Connack
  imports Mqtt_Outcomes Mqtt_Transport
begin

unbundle bit_operations_syntax

text \<open>
  The CONNACK packet, \<open>src/v5/packet/connack.rs\<close>. A server may put the properties in any order, so the
  encodings that the theorem is about are lists of properties: the receiver gives what the list
  says, or a protocol error when a property is repeated.
\<close>

section \<open>CONNACK\<close>

record connack_packet =
  ca_session_present :: bool
  ca_reason_code :: reason_code
  ca_session_expiry_interval :: "session_expiry_interval option"
  ca_receive_maximum :: "u16 option"
  ca_maximum_qos :: "qos option"
  ca_retain_available :: "bool option"
  ca_maximum_packet_size :: "maximum_packet_size option"
  ca_assigned_client_identifier :: "mqtt_string option"
  ca_topic_alias_maximum :: "u16 option"
  ca_reason_string :: "mqtt_string option"
  ca_user_properties :: "mqtt_string_pair list"
  ca_wildcard_subscription_available :: "bool option"
  ca_subscription_identifier_available :: "bool option"
  ca_shared_subscription_available :: "bool option"
  ca_server_keep_alive :: "keep_alive option"
  ca_response_information :: "mqtt_string option"
  ca_server_reference :: "mqtt_string option"

text \<open>The local variables of \<open>receive\<close>: the packet that is filled, and what was seen and skipped.\<close>

record connack_acc =
  cc_packet :: connack_packet
  cc_seen_authentication_method :: bool
  cc_seen_authentication_data :: bool

definition connack_reason_code_allowed :: "reason_code \<Rightarrow> bool" where
  "connack_reason_code_allowed c \<longleftrightarrow>
     c \<in> {RcSuccess, RcUnspecifiedError, RcMalformedPacket, RcProtocolError,
          RcImplementationSpecificError, RcUnsupportedProtocolVersion, RcClientIdentifierNotValid,
          RcBadUserNameOrPassword, RcNotAuthorized, RcServerUnavailable, RcServerBusy, RcBanned,
          RcBadAuthenticationMethod, RcTopicNameInvalid, RcPacketTooLarge, RcQuotaExceeded,
          RcPayloadFormatInvalid, RcRetainNotSupported, RcQoSNotSupported, RcUseAnotherServer,
          RcServerMoved, RcConnectionRateExceeded}"

text \<open>Skipping a field of the length that is read first.\<close>

definition skip_field :: "('s, 'e) reader \<Rightarrow> (('s, 'b) body_reader, ('e, 'p) rx_error, unit) comp" where
  "skip_field rd = bnd (map_err rx_of_body_read (read_u16 (body_read rd))) (\<lambda>len.
     map_err rx_of_body (body_skip rd (unat len)))"

definition connack_property ::
    "nat \<Rightarrow> ('s, 'e) reader \<Rightarrow> (nat \<Rightarrow> ('b, 'p, 'm) comp) \<Rightarrow> connack_acc
     \<Rightarrow> (('s, 'b) body_reader, ('e, 'p) rx_error, connack_acc) comp" where
  "connack_property maxu rd pb acc =
     bnd (map_err rx_of_body_read (read_property_type (body_read rd))) (\<lambda>p.
       let pk = cc_packet acc in
       if p = PrSessionExpiryInterval then
         bnd (map_err rx_of_at_most_once (try_set (ca_session_expiry_interval pk)
                (read_session_expiry_interval (body_read rd))))
           (\<lambda>v. ret (acc\<lparr>cc_packet := pk\<lparr>ca_session_expiry_interval := v\<rparr>\<rparr>))
       else if p = PrReceiveMaximum then
         bnd (map_err rx_of_at_most_once (try_set (ca_receive_maximum pk)
                (read_receive_maximum (body_read rd))))
           (\<lambda>v. ret (acc\<lparr>cc_packet := pk\<lparr>ca_receive_maximum := v\<rparr>\<rparr>))
       else if p = PrMaximumQoS then
         bnd (map_err rx_of_at_most_once (try_set (ca_maximum_qos pk) (read_maximum_qos (body_read rd))))
           (\<lambda>v. ret (acc\<lparr>cc_packet := pk\<lparr>ca_maximum_qos := v\<rparr>\<rparr>))
       else if p = PrRetainAvailable then
         bnd (map_err rx_of_at_most_once (try_set (ca_retain_available pk) (read_bool (body_read rd))))
           (\<lambda>v. ret (acc\<lparr>cc_packet := pk\<lparr>ca_retain_available := v\<rparr>\<rparr>))
       else if p = PrMaximumPacketSize then
         bnd (map_err rx_of_at_most_once (try_set (ca_maximum_packet_size pk)
                (read_maximum_packet_size (body_read rd))))
           (\<lambda>v. ret (acc\<lparr>cc_packet := pk\<lparr>ca_maximum_packet_size := v\<rparr>\<rparr>))
       else if p = PrAssignedClientIdentifier then
         bnd (map_err rx_of_at_most_once (try_set (ca_assigned_client_identifier pk)
                (read_string (body_read rd) (body_store rd pb))))
           (\<lambda>v. ret (acc\<lparr>cc_packet := pk\<lparr>ca_assigned_client_identifier := v\<rparr>\<rparr>))
       else if p = PrTopicAliasMaximum then
         bnd (map_err rx_of_at_most_once (try_set (ca_topic_alias_maximum pk) (read_u16 (body_read rd))))
           (\<lambda>v. ret (acc\<lparr>cc_packet := pk\<lparr>ca_topic_alias_maximum := v\<rparr>\<rparr>))
       else if p = PrReasonString then
         bnd (map_err rx_of_at_most_once (try_set (ca_reason_string pk)
                (read_string (body_read rd) (body_store rd pb))))
           (\<lambda>v. ret (acc\<lparr>cc_packet := pk\<lparr>ca_reason_string := v\<rparr>\<rparr>))
       else if p = PrUserProperty \<and> length (ca_user_properties pk) < maxu then
         bnd (map_err rx_of_body_read (read_string_pair (body_read rd) (body_store rd pb)))
           (\<lambda>u. ret (acc\<lparr>cc_packet := pk\<lparr>ca_user_properties := ca_user_properties pk @ [u]\<rparr>\<rparr>))
       else if p = PrUserProperty then
         bnd (user_property_skip rd) (\<lambda>_. ret acc)
       else if p = PrWildcardSubscriptionAvailable then
         bnd (map_err rx_of_at_most_once (try_set (ca_wildcard_subscription_available pk)
                (read_bool (body_read rd))))
           (\<lambda>v. ret (acc\<lparr>cc_packet := pk\<lparr>ca_wildcard_subscription_available := v\<rparr>\<rparr>))
       else if p = PrSubscriptionIdentifierAvailable then
         bnd (map_err rx_of_at_most_once (try_set (ca_subscription_identifier_available pk)
                (read_bool (body_read rd))))
           (\<lambda>v. ret (acc\<lparr>cc_packet := pk\<lparr>ca_subscription_identifier_available := v\<rparr>\<rparr>))
       else if p = PrSharedSubscriptionAvailable then
         bnd (map_err rx_of_at_most_once (try_set (ca_shared_subscription_available pk)
                (read_bool (body_read rd))))
           (\<lambda>v. ret (acc\<lparr>cc_packet := pk\<lparr>ca_shared_subscription_available := v\<rparr>\<rparr>))
       else if p = PrServerKeepAlive then
         bnd (map_err rx_of_at_most_once (try_set (ca_server_keep_alive pk)
                (read_server_keep_alive (body_read rd))))
           (\<lambda>v. ret (acc\<lparr>cc_packet := pk\<lparr>ca_server_keep_alive := v\<rparr>\<rparr>))
       else if p = PrResponseInformation then
         bnd (map_err rx_of_at_most_once (try_set (ca_response_information pk)
                (read_string (body_read rd) (body_store rd pb))))
           (\<lambda>v. ret (acc\<lparr>cc_packet := pk\<lparr>ca_response_information := v\<rparr>\<rparr>))
       else if p = PrServerReference then
         bnd (map_err rx_of_at_most_once (try_set (ca_server_reference pk)
                (read_string (body_read rd) (body_store rd pb))))
           (\<lambda>v. ret (acc\<lparr>cc_packet := pk\<lparr>ca_server_reference := v\<rparr>\<rparr>))
       else if p = PrAuthenticationMethod \<and> cc_seen_authentication_method acc then
         fail RxProtocolError
       else if p = PrAuthenticationMethod then
         bnd (skip_field rd) (\<lambda>_. ret (acc\<lparr>cc_seen_authentication_method := True\<rparr>))
       else if p = PrAuthenticationData \<and> cc_seen_authentication_data acc then
         fail RxProtocolError
       else if p = PrAuthenticationData then
         bnd (skip_field rd) (\<lambda>_. ret (acc\<lparr>cc_seen_authentication_data := True\<rparr>))
       else fail RxMalformedPacket)"

definition connack_init :: "bool \<Rightarrow> reason_code \<Rightarrow> connack_acc" where
  "connack_init session_present reason_code =
     \<lparr>cc_packet = \<lparr>ca_session_present = session_present, ca_reason_code = reason_code,
        ca_session_expiry_interval = None, ca_receive_maximum = None, ca_maximum_qos = None,
        ca_retain_available = None, ca_maximum_packet_size = None,
        ca_assigned_client_identifier = None, ca_topic_alias_maximum = None,
        ca_reason_string = None, ca_user_properties = [],
        ca_wildcard_subscription_available = None, ca_subscription_identifier_available = None,
        ca_shared_subscription_available = None, ca_server_keep_alive = None,
        ca_response_information = None, ca_server_reference = None\<rparr>,
      cc_seen_authentication_method = False, cc_seen_authentication_data = False\<rparr>"

definition connack_receive ::
    "nat \<Rightarrow> ('s, 'e) reader \<Rightarrow> (nat \<Rightarrow> ('b, 'p, 'm) comp) \<Rightarrow> fixed_header
     \<Rightarrow> (('s, 'b) body_reader, ('e, 'p) rx_error, connack_packet) comp" where
  "connack_receive maxu rd pb header =
     (if header_flags header \<noteq> 0 then fail RxMalformedPacket
      else
        bnd (map_err rx_of_body_read (read_u8 (body_read rd))) (\<lambda>connack_flags.
        bnd (map_err rx_of_body_read (read_reason_code (body_read rd))) (\<lambda>connect_reason_code.
        if \<not> connack_reason_code_allowed connect_reason_code then fail RxProtocolError
        else if connack_flags AND 0xFE > 0 then fail RxProtocolError
        else
          bnd (map_err rx_of_body_read (read_vbi (body_read rd))) (\<lambda>properties_length r.
            if br_remaining_len r \<noteq> vbi_size properties_length then (Err RxMalformedPacket, r)
            else bnd (body_while (\<lambda>_ r. 0 < br_remaining_len r) (connack_property maxu rd pb)
                   (connack_init (connack_flags > 0) connect_reason_code))
                 (\<lambda>acc. ret (cc_packet acc)) r))))"

section \<open>CONNACK packets as MQTT 5 lays them out\<close>

datatype connack_item =
    CiSessionExpiryInterval u32
  | CiReceiveMaximum u16
  | CiMaximumQoS qos
  | CiRetainAvailable bool
  | CiMaximumPacketSize u32
  | CiAssignedClientIdentifier mqtt_string
  | CiTopicAliasMaximum u16
  | CiReasonString mqtt_string
  | CiUserProperty mqtt_string_pair
  | CiWildcardSubscriptionAvailable bool
  | CiSubscriptionIdentifierAvailable bool
  | CiSharedSubscriptionAvailable bool
  | CiServerKeepAlive u16
  | CiResponseInformation mqtt_string
  | CiServerReference mqtt_string
  | CiAuthenticationMethod mqtt_string
  | CiAuthenticationData mqtt_binary

primrec connack_item_bytes :: "connack_item \<Rightarrow> u8 list" where
  "connack_item_bytes (CiSessionExpiryInterval v) = prop_bytes PrSessionExpiryInterval (u32_to_be_bytes v)"
| "connack_item_bytes (CiReceiveMaximum v) = prop_bytes PrReceiveMaximum (u16_to_be_bytes v)"
| "connack_item_bytes (CiMaximumQoS v) = prop_bytes PrMaximumQoS [qos_into_bits v 0]"
| "connack_item_bytes (CiRetainAvailable v) = prop_bytes PrRetainAvailable [bool_byte v]"
| "connack_item_bytes (CiMaximumPacketSize v) = prop_bytes PrMaximumPacketSize (u32_to_be_bytes v)"
| "connack_item_bytes (CiAssignedClientIdentifier v) = prop_bytes PrAssignedClientIdentifier (binary_bytes v)"
| "connack_item_bytes (CiTopicAliasMaximum v) = prop_bytes PrTopicAliasMaximum (u16_to_be_bytes v)"
| "connack_item_bytes (CiReasonString v) = prop_bytes PrReasonString (binary_bytes v)"
| "connack_item_bytes (CiUserProperty v) = prop_bytes PrUserProperty (string_pair_bytes v)"
| "connack_item_bytes (CiWildcardSubscriptionAvailable v) = prop_bytes PrWildcardSubscriptionAvailable [bool_byte v]"
| "connack_item_bytes (CiSubscriptionIdentifierAvailable v) = prop_bytes PrSubscriptionIdentifierAvailable [bool_byte v]"
| "connack_item_bytes (CiSharedSubscriptionAvailable v) = prop_bytes PrSharedSubscriptionAvailable [bool_byte v]"
| "connack_item_bytes (CiServerKeepAlive v) = prop_bytes PrServerKeepAlive (u16_to_be_bytes v)"
| "connack_item_bytes (CiResponseInformation v) = prop_bytes PrResponseInformation (binary_bytes v)"
| "connack_item_bytes (CiServerReference v) = prop_bytes PrServerReference (binary_bytes v)"
| "connack_item_bytes (CiAuthenticationMethod v) = prop_bytes PrAuthenticationMethod (binary_bytes v)"
| "connack_item_bytes (CiAuthenticationData v) = prop_bytes PrAuthenticationData (binary_bytes v)"

primrec connack_item_ok :: "connack_item \<Rightarrow> bool" where
  "connack_item_ok (CiSessionExpiryInterval v) = True"
| "connack_item_ok (CiReceiveMaximum v) = (v \<noteq> 0)"
| "connack_item_ok (CiMaximumQoS v) = True"
| "connack_item_ok (CiRetainAvailable v) = True"
| "connack_item_ok (CiMaximumPacketSize v) = (v \<noteq> 0)"
| "connack_item_ok (CiAssignedClientIdentifier v) = string_ok v"
| "connack_item_ok (CiTopicAliasMaximum v) = True"
| "connack_item_ok (CiReasonString v) = string_ok v"
| "connack_item_ok (CiUserProperty v) = string_pair_ok v"
| "connack_item_ok (CiWildcardSubscriptionAvailable v) = True"
| "connack_item_ok (CiSubscriptionIdentifierAvailable v) = True"
| "connack_item_ok (CiSharedSubscriptionAvailable v) = True"
| "connack_item_ok (CiServerKeepAlive v) = True"
| "connack_item_ok (CiResponseInformation v) = string_ok v"
| "connack_item_ok (CiServerReference v) = string_ok v"
| "connack_item_ok (CiAuthenticationMethod v) = string_ok v"
| "connack_item_ok (CiAuthenticationData v) = (length v \<le> MAX_LENGTH)"

text \<open>The memory that an item takes; what is skipped takes none.\<close>

primrec connack_item_memory :: "nat \<Rightarrow> connack_acc \<Rightarrow> connack_item \<Rightarrow> nat" where
  "connack_item_memory maxu acc (CiSessionExpiryInterval v) = 0"
| "connack_item_memory maxu acc (CiReceiveMaximum v) = 0"
| "connack_item_memory maxu acc (CiMaximumQoS v) = 0"
| "connack_item_memory maxu acc (CiRetainAvailable v) = 0"
| "connack_item_memory maxu acc (CiMaximumPacketSize v) = 0"
| "connack_item_memory maxu acc (CiAssignedClientIdentifier v) = length v"
| "connack_item_memory maxu acc (CiTopicAliasMaximum v) = 0"
| "connack_item_memory maxu acc (CiReasonString v) = length v"
| "connack_item_memory maxu acc (CiUserProperty v) =
     (if length (ca_user_properties (cc_packet acc)) < maxu
      then length (pair_name v) + length (pair_value v) else 0)"
| "connack_item_memory maxu acc (CiWildcardSubscriptionAvailable v) = 0"
| "connack_item_memory maxu acc (CiSubscriptionIdentifierAvailable v) = 0"
| "connack_item_memory maxu acc (CiSharedSubscriptionAvailable v) = 0"
| "connack_item_memory maxu acc (CiServerKeepAlive v) = 0"
| "connack_item_memory maxu acc (CiResponseInformation v) = length v"
| "connack_item_memory maxu acc (CiServerReference v) = length v"
| "connack_item_memory maxu acc (CiAuthenticationMethod v) = 0"
| "connack_item_memory maxu acc (CiAuthenticationData v) = 0"

text \<open>What an item means: the new values, or \<open>None\<close> if the property was there already.\<close>

primrec connack_item_set :: "nat \<Rightarrow> connack_acc \<Rightarrow> connack_item \<Rightarrow> connack_acc option" where
  "connack_item_set maxu acc (CiSessionExpiryInterval v) = once (ca_session_expiry_interval (cc_packet acc))
     (acc\<lparr>cc_packet := (cc_packet acc)\<lparr>ca_session_expiry_interval := Some
        (if v = 0 then EndOnDisconnect else if v = u32_MAX then NeverEnd else SeiSeconds v)\<rparr>\<rparr>)"
| "connack_item_set maxu acc (CiReceiveMaximum v) = once (ca_receive_maximum (cc_packet acc))
     (acc\<lparr>cc_packet := (cc_packet acc)\<lparr>ca_receive_maximum := Some v\<rparr>\<rparr>)"
| "connack_item_set maxu acc (CiMaximumQoS v) = once (ca_maximum_qos (cc_packet acc))
     (acc\<lparr>cc_packet := (cc_packet acc)\<lparr>ca_maximum_qos := Some v\<rparr>\<rparr>)"
| "connack_item_set maxu acc (CiRetainAvailable v) = once (ca_retain_available (cc_packet acc))
     (acc\<lparr>cc_packet := (cc_packet acc)\<lparr>ca_retain_available := Some v\<rparr>\<rparr>)"
| "connack_item_set maxu acc (CiMaximumPacketSize v) = once (ca_maximum_packet_size (cc_packet acc))
     (acc\<lparr>cc_packet := (cc_packet acc)\<lparr>ca_maximum_packet_size := Some (MpsLimit v)\<rparr>\<rparr>)"
| "connack_item_set maxu acc (CiAssignedClientIdentifier v) = once (ca_assigned_client_identifier (cc_packet acc))
     (acc\<lparr>cc_packet := (cc_packet acc)\<lparr>ca_assigned_client_identifier := Some v\<rparr>\<rparr>)"
| "connack_item_set maxu acc (CiTopicAliasMaximum v) = once (ca_topic_alias_maximum (cc_packet acc))
     (acc\<lparr>cc_packet := (cc_packet acc)\<lparr>ca_topic_alias_maximum := Some v\<rparr>\<rparr>)"
| "connack_item_set maxu acc (CiReasonString v) = once (ca_reason_string (cc_packet acc))
     (acc\<lparr>cc_packet := (cc_packet acc)\<lparr>ca_reason_string := Some v\<rparr>\<rparr>)"
| "connack_item_set maxu acc (CiUserProperty v) = Some
     (if length (ca_user_properties (cc_packet acc)) < maxu
      then acc\<lparr>cc_packet := (cc_packet acc)\<lparr>ca_user_properties := ca_user_properties (cc_packet acc) @ [v]\<rparr>\<rparr>
      else acc)"
| "connack_item_set maxu acc (CiWildcardSubscriptionAvailable v) =
     once (ca_wildcard_subscription_available (cc_packet acc))
     (acc\<lparr>cc_packet := (cc_packet acc)\<lparr>ca_wildcard_subscription_available := Some v\<rparr>\<rparr>)"
| "connack_item_set maxu acc (CiSubscriptionIdentifierAvailable v) =
     once (ca_subscription_identifier_available (cc_packet acc))
     (acc\<lparr>cc_packet := (cc_packet acc)\<lparr>ca_subscription_identifier_available := Some v\<rparr>\<rparr>)"
| "connack_item_set maxu acc (CiSharedSubscriptionAvailable v) =
     once (ca_shared_subscription_available (cc_packet acc))
     (acc\<lparr>cc_packet := (cc_packet acc)\<lparr>ca_shared_subscription_available := Some v\<rparr>\<rparr>)"
| "connack_item_set maxu acc (CiServerKeepAlive v) = once (ca_server_keep_alive (cc_packet acc))
     (acc\<lparr>cc_packet := (cc_packet acc)\<lparr>ca_server_keep_alive := Some (if v = 0 then KaInfinite else KaSeconds v)\<rparr>\<rparr>)"
| "connack_item_set maxu acc (CiResponseInformation v) = once (ca_response_information (cc_packet acc))
     (acc\<lparr>cc_packet := (cc_packet acc)\<lparr>ca_response_information := Some v\<rparr>\<rparr>)"
| "connack_item_set maxu acc (CiServerReference v) = once (ca_server_reference (cc_packet acc))
     (acc\<lparr>cc_packet := (cc_packet acc)\<lparr>ca_server_reference := Some v\<rparr>\<rparr>)"
| "connack_item_set maxu acc (CiAuthenticationMethod v) =
     (if cc_seen_authentication_method acc then None else Some (acc\<lparr>cc_seen_authentication_method := True\<rparr>))"
| "connack_item_set maxu acc (CiAuthenticationData v) =
     (if cc_seen_authentication_data acc then None else Some (acc\<lparr>cc_seen_authentication_data := True\<rparr>))"

fun connack_items_set :: "nat \<Rightarrow> connack_acc \<Rightarrow> connack_item list \<Rightarrow> connack_acc option" where
  "connack_items_set maxu acc [] = Some acc"
| "connack_items_set maxu acc (i # is) =
     Option.bind (connack_item_set maxu acc i) (\<lambda>acc'. connack_items_set maxu acc' is)"

fun connack_items_memory :: "nat \<Rightarrow> connack_acc \<Rightarrow> connack_item list \<Rightarrow> nat" where
  "connack_items_memory maxu acc [] = 0"
| "connack_items_memory maxu acc (i # is) = (case connack_item_set maxu acc i of
      None \<Rightarrow> 0
    | Some acc' \<Rightarrow> connack_item_memory maxu acc i + connack_items_memory maxu acc' is)"

lemma connack_property_shrinks: "shrinks (connack_property maxu rd pb)"
  unfolding connack_property_def Let_def skip_field_def read_session_expiry_interval_def
    read_receive_maximum_def read_maximum_qos_def read_maximum_packet_size_def
    read_server_keep_alive_def
  by (rule shrinksI) (intro keeps_intros)

context packet_body
begin

lemma reads_skip_field:
  assumes "length b \<le> MAX_LENGTH"
  shows "body.reads (skip_field rd :: (_, ('e, 'p) rx_error, unit) comp) (binary_bytes b) 0 ()"
proof -
  have "unat (binary_len b) = length b"
    using assms by (simp add: binary_len_def MAX_LENGTH_def unat_of_nat)
  then have "body.reads (skip_field rd :: (_, ('e, 'p) rx_error, unit) comp)
      (u16_to_be_bytes (binary_len b) @ b) (0 + 0) ()"
    unfolding skip_field_def
    by (intro body.reads_bnd [OF body.reads_map_err [OF body.reads_u16]])
       (simp add: body.reads_map_err [OF reads_skip])
  then show ?thesis by (simp add: binary_bytes_def)
qed

lemma reads_session_expiry_interval:
  "body.reads (read_session_expiry_interval brd) (u32_to_be_bytes v) 0
    (if v = 0 then EndOnDisconnect else if v = u32_MAX then NeverEnd else SeiSeconds v)"
proof -
  have "(- 1 :: u32) = u32_MAX" by simp
  from word_order.not_eq_extremum [of v, unfolded this] show ?thesis
    unfolding read_session_expiry_interval_def by (intro body.reads_bnd_ret [OF body.reads_u32]) auto
qed

lemma reads_receive_maximum: "v \<noteq> 0 \<Longrightarrow> body.reads (read_receive_maximum brd) (u16_to_be_bytes v) 0 v"
  unfolding read_receive_maximum_def
  by (rule body.reads_bnd_ret [OF body.reads_u16]) (simp add: nonzero_def)

lemma reads_maximum_qos: "body.reads (read_maximum_qos brd) [qos_into_bits q 0] 0 q"
  unfolding read_maximum_qos_def by (rule body.reads_bnd_ret [OF body.reads_u8]) simp

lemma reads_maximum_packet_size:
  "v \<noteq> 0 \<Longrightarrow> body.reads (read_maximum_packet_size brd) (u32_to_be_bytes v) 0 (MpsLimit v)"
  unfolding read_maximum_packet_size_def
  by (rule body.reads_bnd_ret [OF body.reads_u32]) (simp add: nonzero_def)

lemma reads_server_keep_alive:
  "body.reads (read_server_keep_alive brd) (u16_to_be_bytes v) 0 (if v = 0 then KaInfinite else KaSeconds v)"
  unfolding read_server_keep_alive_def
  by (rule body.reads_bnd_ret [OF body.reads_u16]) (simp add: nonzero_def)

abbreviation cstep :: "nat \<Rightarrow> connack_acc \<Rightarrow> (('s, 'b) body_reader, ('e, 'p) rx_error, connack_acc) comp" where
  "cstep maxu \<equiv> connack_property maxu rd pb"

lemmas reads_once_field = reads_once [OF _ reads_session_expiry_interval]
  reads_once [OF _ reads_receive_maximum] reads_once [OF _ reads_maximum_qos]
  reads_once [OF _ body.reads_bool] reads_once [OF _ reads_maximum_packet_size]
  reads_once [OF _ body.reads_string] reads_once [OF _ body.reads_u16]
  reads_once [OF _ reads_server_keep_alive]

lemma reads_connack_property:
  assumes "connack_item_ok i" and "connack_item_set maxu acc i = Some acc'"
  shows "body.reads (cstep maxu acc) (connack_item_bytes i) (connack_item_memory maxu acc i) acc'"
  using assms unfolding connack_property_def
  apply (cases i; simp only: connack_item_bytes.simps connack_item_memory.simps connack_item_set.simps
      connack_item_ok.simps; intro reads_typed; simp add: Let_def)
  apply (erule reads_once_field, (simp; fail)+)+
  subgoal for u
    by (auto intro!: body.reads_bnd_ret [OF body.reads_map_err [OF body.reads_string_pair]]
        body.reads_bnd_ret [OF reads_user_property_skip])
  apply (erule reads_once_field, (simp; fail)+)+
  apply (auto split: if_splits intro!: body.reads_bnd_ret [OF reads_skip_field] simp: string_ok_def)
  done

lemma rejects_connack_property:
  assumes "connack_item_set maxu acc i = None"
  shows "body.rejects (cstep maxu acc) (connack_item_bytes i @ rest) k RxProtocolError"
  using assms unfolding connack_property_def
  by (cases i) (auto simp: Let_def split: if_splits intro!: rejects_typed rejects_once body.rejects_fail)

lemma connack_item_bytes_ne [simp]: "connack_item_bytes i \<noteq> []"
  by (cases i) (simp_all add: prop_bytes_def)

abbreviation cloop :: "nat \<Rightarrow> connack_acc \<Rightarrow> (('s, 'b) body_reader, ('e, 'p) rx_error, connack_acc) comp" where
  "cloop maxu \<equiv> body_while some_left (connack_property maxu rd pb)"

lemma parses_connack_items:
  "\<forall>i \<in> set is. connack_item_ok i \<Longrightarrow> connack_items_set maxu acc is = Some acc'
   \<Longrightarrow> body.parses (cloop maxu acc) (concat (map connack_item_bytes is))
         (connack_items_memory maxu acc is) acc'"
proof (induction "is" arbitrary: acc)
  case Nil
  then show ?case using parses_while_nil [OF connack_property_shrinks] by simp
next
  case (Cons i "is")
  then obtain acc1 where acc1: "connack_item_set maxu acc i = Some acc1"
    "connack_items_set maxu acc1 is = Some acc'" by (auto split: Option.bind_splits)
  from parses_while_step [OF connack_property_shrinks reads_connack_property [OF _ acc1(1)] _ Cons.IH [OF _ acc1(2)]]
  show ?case using Cons.prems(1) acc1 by simp
qed

lemma rejects_connack_items:
  "\<forall>i \<in> set is. connack_item_ok i \<Longrightarrow> connack_items_set maxu acc is = None
   \<Longrightarrow> body.rejects (cloop maxu acc) (concat (map connack_item_bytes is))
         (connack_items_memory maxu acc is) RxProtocolError"
proof (induction "is" arbitrary: acc)
  case Nil
  then show ?case by simp
next
  case (Cons i "is")
  show ?case
  proof (cases "connack_item_set maxu acc i")
    case None
    then show ?thesis
      by (intro rejects_while [OF connack_property_shrinks] body.rejects_bnd_first)
         (simp_all add: rejects_connack_property)
  next
    case (Some acc1)
    then have "connack_items_set maxu acc1 is = None" using Cons.prems by simp
    from body.rejects_bnd [where f = "cloop maxu", OF reads_connack_property [OF _ Some] Cons.IH [OF _ this]] show ?thesis
      using Cons.prems(1) Some by (intro rejects_while [OF connack_property_shrinks]) simp_all
  qed
qed

end

definition connack_body :: "bool \<Rightarrow> reason_code \<Rightarrow> connack_item list \<Rightarrow> u8 list" where
  "connack_body session_present c is =
     (let props = concat (map connack_item_bytes is)
      in [bool_byte session_present] @ [rc_value c] @ vbi_bytes (word_of_nat (length props)) @ props)"

context packet_body
begin

lemma connack_prefix:
  fixes ps :: "u8 list" and maxu :: nat and sp :: bool
  assumes "header_flags h = 0" and "connack_reason_code_allowed c" and "length ps \<le> 268435455"
    and "body.yields (bnd (cloop maxu (connack_init sp c)) (\<lambda>acc. ret (cc_packet acc))) ps k x"
  shows "body.yields (connack_receive maxu rd pb h)
      ([bool_byte sp] @ [rc_value c] @ vbi_bytes (word_of_nat (length ps)) @ ps) k x"
proof -
  let ?rest = "\<lambda>fl c n r. if br_remaining_len r \<noteq> vbi_size n then (Err RxMalformedPacket, r)
      else bnd (cloop maxu (connack_init fl c)) (\<lambda>acc. ret (cc_packet acc)) r"
  let ?rc = "\<lambda>fl c. if \<not> connack_reason_code_allowed c then fail RxProtocolError
      else if fl AND 0xFE > 0 then fail RxProtocolError
      else bnd (map_err rx_of_body_read (read_vbi brd)) (?rest (fl > 0) c)"
  have fl: "(bool_byte sp > 0) = sp" "bool_byte sp AND 0xFE = 0" by (simp_all add: bool_byte_def)
  have "body.yields (?rest sp c (VarByteInt (word_of_nat (length ps)))) ps k x"
    using yields_checked [OF assms(4)] assms(3) by (simp add: vbi_size_def unat_small)
  from body.yields_bnd [where f = "?rest sp c",
      OF body.reads_map_err [OF body.reads_vbi [OF vbi_small [OF assms(3)]]] this]
  have "body.yields (?rc (bool_byte sp) c) (vbi_bytes (word_of_nat (length ps)) @ ps) (0 + k) x"
    by (simp only: fl assms(2) if_False if_True not_True_eq_False less_irrefl)
  from body.yields_bnd [where f = "?rc (bool_byte sp)", OF body.reads_map_err [OF body.reads_reason_code] this]
  have "body.yields (bnd (map_err rx_of_body_read (read_reason_code brd)) (?rc (bool_byte sp)))
      ([rc_value c] @ vbi_bytes (word_of_nat (length ps)) @ ps) (0 + (0 + k)) x" .
  from body.yields_bnd [where f = "\<lambda>fl. bnd (map_err rx_of_body_read (read_reason_code brd)) (?rc fl)",
      OF body.reads_map_err [OF body.reads_u8] this]
  show ?thesis unfolding connack_receive_def assms(1) by simp
qed

lemma connack_run:
  assumes "header_flags h = 0" and "connack_reason_code_allowed c"
    and "\<forall>i \<in> set is. connack_item_ok i"
    and "length (concat (map connack_item_bytes is)) \<le> 268435455"
    and "bytes s = connack_body sp c is @ tail"
    and "free b (connack_items_memory maxu (connack_init sp c) is)"
  shows "\<exists>r'. connack_receive maxu rd pb h (body_reader_new s b (length (connack_body sp c is)))
      = (case connack_items_set maxu (connack_init sp c) is of
           Some acc \<Rightarrow> Ok (cc_packet acc) | None \<Rightarrow> Err RxProtocolError, r')
    \<and> (connack_items_set maxu (connack_init sp c) is \<noteq> None \<longrightarrow>
        br_remaining_len r' = 0 \<and> bytes (br_r r') = tail)"
proof -
  let ?x = "case connack_items_set maxu (connack_init sp c) is of
      Some acc \<Rightarrow> Ok (cc_packet acc) | None \<Rightarrow> Err RxProtocolError"
  have "body.yields (bnd (cloop maxu (connack_init sp c)) (\<lambda>acc. ret (cc_packet acc)))
      (concat (map connack_item_bytes is)) (connack_items_memory maxu (connack_init sp c) is) ?x"
  proof (cases "connack_items_set maxu (connack_init sp c) is")
    case None
    then show ?thesis using rejects_connack_items [OF assms(3) None] by (simp add: body.rejects_bnd_first)
  next
    case (Some acc)
    then show ?thesis by (simp add: parses_bnd_ret [OF parses_connack_items [OF assms(3) Some]])
  qed
  from yields_run [OF connack_prefix [OF assms(1,2,4) this, folded connack_body_def [unfolded Let_def]] assms(5,6)]
  show ?thesis by (auto split: option.splits)
qed

end

text \<open>C23: A CONNACK packet with an allowed reason code and any list of well-formed properties, in any order,
  is received over every transport and memory provider that keep their contracts: the result has
  exactly the values of the list (user properties beyond the capacity are skipped, authentication
  properties are not kept), the body is consumed and nothing beyond; and if a property other than a
  user property occurs twice, the result is a protocol error.\<close>

theorem connack_received:
  assumes "packet_body rd bytes pb free"
    and "header_flags h = 0" and "connack_reason_code_allowed c"
    and "\<forall>i \<in> set items. connack_item_ok i"
    and "length (concat (map connack_item_bytes items)) \<le> 268435455"
    and "bytes s = connack_body session_present c items @ rest"
    and "free b (connack_items_memory maxu (connack_init session_present c) items)"
  shows "\<exists>r'. connack_receive maxu rd pb h
        (body_reader_new s b (length (connack_body session_present c items)))
      = (case connack_items_set maxu (connack_init session_present c) items of
           Some acc \<Rightarrow> Ok (cc_packet acc) | None \<Rightarrow> Err RxProtocolError, r')
    \<and> (connack_items_set maxu (connack_init session_present c) items \<noteq> None \<longrightarrow>
        br_remaining_len r' = 0 \<and> bytes (br_r r') = rest)"
  by (rule packet_body.connack_run [OF assms])

theorem connack_received_witness:
  "\<exists>r'. connack_receive 1 slice_read alloc_provide (fixed_header_new PtConnack 0 (VarByteInt 13))
      (body_reader_new (slice_reader_new (connack_body True RcSuccess
         [CiServerKeepAlive 0, CiReceiveMaximum 10, CiAuthenticationMethod [0x61]] @ [7])) () 13)
    = (Ok ((cc_packet (connack_init True RcSuccess))\<lparr>ca_server_keep_alive := Some KaInfinite,
             ca_receive_maximum := Some 10\<rparr>) :: ((unit, unit) rx_error, connack_packet) res, r')
    \<and> br_remaining_len r' = 0 \<and> slice_bytes (br_r r') = [7]"
proof -
  let ?is = "[CiServerKeepAlive 0, CiReceiveMaximum 10, CiAuthenticationMethod [0x61]]"
  let ?s = "slice_reader_new (connack_body True RcSuccess ?is @ [7])"
  have set: "connack_items_set 1 (connack_init True RcSuccess) ?is
      = Some ((connack_init True RcSuccess)\<lparr>cc_packet := (cc_packet (connack_init True RcSuccess))
          \<lparr>ca_server_keep_alive := Some KaInfinite, ca_receive_maximum := Some 10\<rparr>,
          cc_seen_authentication_method := True\<rparr>)"
    by (simp add: connack_init_def once_def)
  have len: "length (concat (map connack_item_bytes ?is)) = 10"
    by (simp add: prop_len_def property_type_written_len_def binary_written_len_def)
  then have body: "length (connack_body True RcSuccess ?is) = 13"
    unfolding connack_body_def Let_def by (simp add: length_vbi_bytes del: length_concat)
  have "slice_bytes ?s = connack_body True RcSuccess ?is @ [7]"
    by (simp add: slice_bytes_def slice_reader_new_def)
  moreover have "connack_reason_code_allowed RcSuccess" "\<forall>i \<in> set ?is. connack_item_ok i"
    "header_flags (fixed_header_new PtConnack 0 (VarByteInt 13)) = 0"
    by (simp_all add: connack_reason_code_allowed_def string_ok_def MAX_LENGTH_def header_flags_def
        fixed_header_new_def)
  ultimately show ?thesis
    using connack_received [OF slice_alloc.packet_body_axioms,
        where h = "fixed_header_new PtConnack 0 (VarByteInt 13)" and c = RcSuccess and items = ?is
          and s = ?s and session_present = True and rest = "[7]" and b = "()" and maxu = 1] set len
    by (simp only: option.case body) auto
qed

end
