(* ===== verification/Mqtt_Subacks.thy ===== *)
theory Mqtt_Subacks
  imports Mqtt_Outcomes Mqtt_Transport
begin

text \<open>
  The SUBACK and UNSUBACK packets, \<open>src/v5/packet/subacks\<close>. The type parameter of
  \<open>GenericSubackPacket\<close> is \<open>suback_kind\<close>; \<open>maxf\<close> and \<open>maxu\<close> are the const generics
  \<open>MAX_TOPIC_FILTERS\<close> and \<open>MAX_USER_PROPERTIES\<close>.
\<close>

section \<open>SUBACK and UNSUBACK\<close>

datatype suback_kind = Suback | Unsuback

definition sk_packet_type :: "suback_kind \<Rightarrow> packet_type" where
  "sk_packet_type k = (case k of Suback \<Rightarrow> PtSuback | Unsuback \<Rightarrow> PtUnsuback)"

definition sk_reason_code_allowed :: "suback_kind \<Rightarrow> reason_code \<Rightarrow> bool" where
  "sk_reason_code_allowed k c = (case k of
      Suback \<Rightarrow> c \<in> {RcSuccess, RcGrantedQoS1, RcGrantedQoS2, RcUnspecifiedError,
                    RcImplementationSpecificError, RcNotAuthorized, RcTopicFilterInvalid,
                    RcPacketIdentifierInUse, RcQuotaExceeded, RcSharedSubscriptionsNotSupported,
                    RcSubscriptionIdentifiersNotSupported, RcWildcardSubscriptionsNotSupported}
    | Unsuback \<Rightarrow> c \<in> {RcSuccess, RcNoSubscriptionExisted, RcUnspecifiedError,
                    RcImplementationSpecificError, RcNotAuthorized, RcTopicFilterInvalid,
                    RcPacketIdentifierInUse})"

record suback_packet =
  sa_packet_identifier :: pid
  sa_reason_string :: "mqtt_string option"
  sa_user_properties :: "mqtt_string_pair list"
  sa_reason_codes :: "reason_code list"

text \<open>The state of the property loop: \<open>properties_length\<close>, \<open>reason_string\<close>, \<open>user_properties\<close>.\<close>

type_synonym suback_acc = "nat \<times> mqtt_string option \<times> mqtt_string_pair list"

definition suback_consume ::
    "nat \<Rightarrow> suback_acc \<Rightarrow> ('s, ('e, 'p) rx_error, suback_acc) comp" where
  "suback_consume len acc =
     (if len \<le> fst acc then ret (fst acc - len, snd acc) else fail RxMalformedPacket)"

definition suback_property ::
    "nat \<Rightarrow> ('s, 'e) reader \<Rightarrow> (nat \<Rightarrow> ('b, 'p, 'm) comp) \<Rightarrow> suback_acc
     \<Rightarrow> (('s, 'b) body_reader, ('e, 'p) rx_error, suback_acc) comp" where
  "suback_property maxu rd pb acc =
     bnd (map_err rx_of_body_read (read_property_type (body_read rd))) (\<lambda>p.
       let (n0, reason_string, user_properties) = acc;
           n = n0 - property_type_written_len p in
       if p = PrReasonString then
         bnd (map_err rx_of_at_most_once
                (try_set reason_string (read_string (body_read rd) (body_store rd pb))))
           (\<lambda>v. unwrap v (\<lambda>s. suback_consume (string_written_len s) (n, v, user_properties)))
       else if p = PrUserProperty \<and> length user_properties < maxu then
         bnd (map_err rx_of_body_read (read_string_pair (body_read rd) (body_store rd pb)))
           (\<lambda>u. suback_consume (string_pair_written_len u) (n, reason_string, user_properties @ [u]))
       else if p = PrUserProperty then
         bnd (user_property_skip rd) (\<lambda>len. suback_consume len (n, reason_string, user_properties))
       else fail RxMalformedPacket)"

definition suback_reason_code ::
    "suback_kind \<Rightarrow> nat \<Rightarrow> ('s, 'e) reader \<Rightarrow> reason_code list
     \<Rightarrow> (('s, 'b) body_reader, ('e, 'p) rx_error, reason_code list) comp" where
  "suback_reason_code k maxf rd reason_codes =
     bnd (map_err rx_of_body_read (read_reason_code (body_read rd))) (\<lambda>reason_code.
       if \<not> sk_reason_code_allowed k reason_code then fail RxProtocolError
       else if length reason_codes < maxf then ret (reason_codes @ [reason_code])
       else fail RxProtocolError)"

definition suback_receive ::
    "suback_kind \<Rightarrow> nat \<Rightarrow> nat \<Rightarrow> ('s, 'e) reader \<Rightarrow> (nat \<Rightarrow> ('b, 'p, 'm) comp) \<Rightarrow> fixed_header
     \<Rightarrow> (('s, 'b) body_reader, ('e, 'p) rx_error, suback_packet) comp" where
  "suback_receive k maxf maxu rd pb header =
     (if header_flags header \<noteq> 0 then fail RxMalformedPacket
      else
        bnd (map_err rx_of_body_read (read_pid (body_read rd))) (\<lambda>packet_identifier.
        bnd (map_err rx_of_body_read (read_vbi (body_read rd))) (\<lambda>properties_length r.
          if vbi_size properties_length > br_remaining_len r then (Err RxMalformedPacket, r)
          else if vbi_size properties_length = br_remaining_len r then (Err RxProtocolError, r)
          else bnd (body_while (\<lambda>acc r. 0 < fst acc) (suback_property maxu rd pb)
                      (vbi_size properties_length, None, []))
            (\<lambda>(_, reason_string, user_properties).
               bnd (body_while (\<lambda>_ r. 0 < br_remaining_len r) (suback_reason_code k maxf rd) [])
               (\<lambda>reason_codes. ret
                 \<lparr>sa_packet_identifier = packet_identifier, sa_reason_string = reason_string,
                  sa_user_properties = user_properties, sa_reason_codes = reason_codes\<rparr>)) r)))"

section \<open>SUBACK and UNSUBACK packets as MQTT 5 lays them out\<close>

datatype ack_item = AiReasonString mqtt_string | AiUserProperty mqtt_string_pair

primrec ack_item_bytes :: "ack_item \<Rightarrow> u8 list" where
  "ack_item_bytes (AiReasonString s) = prop_bytes PrReasonString (binary_bytes s)"
| "ack_item_bytes (AiUserProperty u) = prop_bytes PrUserProperty (string_pair_bytes u)"

primrec ack_item_ok :: "ack_item \<Rightarrow> bool" where
  "ack_item_ok (AiReasonString s) = string_ok s"
| "ack_item_ok (AiUserProperty u) = string_pair_ok u"

text \<open>The values after the items, and the memory for them.\<close>

fun ack_items_set ::
    "nat \<Rightarrow> mqtt_string option \<Rightarrow> mqtt_string_pair list \<Rightarrow> ack_item list
     \<Rightarrow> (mqtt_string option \<times> mqtt_string_pair list) option" where
  "ack_items_set maxu rs us [] = Some (rs, us)"
| "ack_items_set maxu rs us (AiReasonString s # is) =
     (if rs = None then ack_items_set maxu (Some s) us is else None)"
| "ack_items_set maxu rs us (AiUserProperty u # is) =
     ack_items_set maxu rs (if length us < maxu then us @ [u] else us) is"

fun ack_items_memory :: "nat \<Rightarrow> mqtt_string option \<Rightarrow> mqtt_string_pair list \<Rightarrow> ack_item list \<Rightarrow> nat" where
  "ack_items_memory maxu rs us [] = 0"
| "ack_items_memory maxu rs us (AiReasonString s # is) =
     (if rs = None then length s + ack_items_memory maxu (Some s) us is else 0)"
| "ack_items_memory maxu rs us (AiUserProperty u # is) =
     (if length us < maxu
      then length (pair_name u) + length (pair_value u) + ack_items_memory maxu rs (us @ [u]) is
      else ack_items_memory maxu rs us is)"

definition suback_body :: "pid \<Rightarrow> ack_item list \<Rightarrow> reason_code list \<Rightarrow> u8 list" where
  "suback_body i items codes =
     (let props = concat (map ack_item_bytes items)
      in u16_to_be_bytes i @ vbi_bytes (word_of_nat (length props)) @ props @ map rc_value codes)"

lemma suback_property_shrinks: "shrinks (suback_property maxu rd pb)"
  unfolding suback_property_def Let_def split_def suback_consume_def
  by (rule shrinksI) (intro keeps_intros)

lemma read_reason_code_strict:
  "read_reason_code (body_read rd) r = (Ok c, r') \<Longrightarrow> br_remaining_len r' < br_remaining_len r"
  unfolding read_reason_code_def
  by (auto elim!: bnd_OkE dest!: read_u8_strict simp: ok_or_def run_simps split: option.splits)

lemma suback_reason_code_shrinks: "shrinks (suback_reason_code k maxf rd)"
  unfolding shrinks_def suback_reason_code_def
  by (auto elim!: bnd_OkE dest!: read_reason_code_strict simp: run_simps split: if_splits)

context packet_body
begin

abbreviation sstep :: "nat \<Rightarrow> suback_acc \<Rightarrow> (('s, 'b) body_reader, ('e, 'p) rx_error, suback_acc) comp" where
  "sstep maxu \<equiv> suback_property maxu rd pb"

abbreviation sloop :: "nat \<Rightarrow> suback_acc \<Rightarrow> (('s, 'b) body_reader, ('e, 'p) rx_error, suback_acc) comp" where
  "sloop maxu \<equiv> body_while (\<lambda>acc r. 0 < fst acc) (suback_property maxu rd pb)"

lemma reads_suback_reason_string:
  assumes "string_ok s" and "n = length (ack_item_bytes (AiReasonString s)) + m"
  shows "body.reads (sstep maxu (n, None, us)) (ack_item_bytes (AiReasonString s)) (length s) (m, Some s, us)"
  using assms unfolding suback_property_def ack_item_bytes.simps
  by (intro reads_typed body.reads_bnd_ret [OF reads_try_set [OF body.reads_string]])
     (simp add: Let_def suback_consume_def prop_len_def property_type_written_len_def string_written_len_def
       body.reads_bnd_ret [OF reads_try_set [OF body.reads_string]])

lemma reads_suback_user_property:
  assumes "string_pair_ok u" and "n = length (ack_item_bytes (AiUserProperty u)) + m"
  shows "body.reads (sstep maxu (n, rs, us)) (ack_item_bytes (AiUserProperty u))
    (if length us < maxu then length (pair_name u) + length (pair_value u) else 0)
    (m, rs, if length us < maxu then us @ [u] else us)"
  using assms unfolding suback_property_def ack_item_bytes.simps
  by (intro reads_typed)
     (auto simp add: Let_def suback_consume_def prop_len_def property_type_written_len_def
       intro!: body.reads_bnd_ret [OF body.reads_map_err [OF body.reads_string_pair]]
         body.reads_bnd_ret [OF reads_user_property_skip])

lemma reads_suback_items:
  assumes "ack_items_set maxu rs us is = Some (rs', us')" and "\<forall>i \<in> set is. ack_item_ok i"
  shows "body.reads (sloop maxu (length (concat (map ack_item_bytes is)), rs, us))
    (concat (map ack_item_bytes is)) (ack_items_memory maxu rs us is) (0, rs', us')"
  using assms
proof (induction maxu rs us "is" rule: ack_items_set.induct)
  case (1 maxu rs us)
  then show ?case by (simp add: reads_while_done [OF suback_property_shrinks])
next
  case (2 maxu rs us s "is")
  then have "body.reads (sloop maxu (length (concat (map ack_item_bytes is)), Some s, us))
    (concat (map ack_item_bytes is)) (ack_items_memory maxu (Some s) us is) (0, rs', us')"
    by (simp split: if_splits)
  from reads_while_step [OF suback_property_shrinks _ reads_suback_reason_string [OF _ refl] this]
  show ?case using 2(2,3) by (simp add: prop_len_def property_type_written_len_def split: if_splits)
next
  case (3 maxu rs us u "is")
  let ?us = "if length us < maxu then us @ [u] else us"
  from 3 have "body.reads (sloop maxu (length (concat (map ack_item_bytes is)), rs, ?us))
    (concat (map ack_item_bytes is)) (ack_items_memory maxu rs ?us is) (0, rs', us')"
    by simp
  from reads_while_step [OF suback_property_shrinks _ reads_suback_user_property [OF _ refl] this]
  show ?case using 3(3) by (simp add: prop_len_def property_type_written_len_def add.assoc split: if_splits)
qed

lemma rejects_suback_items:
  assumes "ack_items_set maxu rs us is = None" and "\<forall>i \<in> set is. ack_item_ok i"
  shows "body.rejects (sloop maxu (length (concat (map ack_item_bytes is)), rs, us))
    (concat (map ack_item_bytes is) @ rest) (ack_items_memory maxu rs us is) RxProtocolError"
  using assms
proof (induction maxu rs us "is" rule: ack_items_set.induct)
  case (1 maxu rs us)
  then show ?case by simp
next
  case (2 maxu rs us s "is")
  show ?case
  proof (cases rs)
    case None
    then have "body.rejects (sloop maxu (length (concat (map ack_item_bytes is)), Some s, us))
        (concat (map ack_item_bytes is) @ rest) (ack_items_memory maxu (Some s) us is) RxProtocolError"
      using 2 by simp
    from body.rejects_bnd [where f = "sloop maxu", OF reads_suback_reason_string [OF _ refl] this]
    show ?thesis
      using 2(3) None by (intro rejects_while_cond [OF suback_property_shrinks])
        (simp_all add: prop_len_def property_type_written_len_def)
  next
    case (Some s')
    then show ?thesis
      by (intro rejects_while_cond [OF suback_property_shrinks] body.rejects_bnd_first)
         (auto simp: suback_property_def Let_def prop_len_def property_type_written_len_def once_def
           intro!: rejects_typed rejects_once [where a = "()"])
  qed
next
  case (3 maxu rs us u "is")
  let ?us = "if length us < maxu then us @ [u] else us"
  from 3 have "body.rejects (sloop maxu (length (concat (map ack_item_bytes is)), rs, ?us))
    (concat (map ack_item_bytes is) @ rest) (ack_items_memory maxu rs ?us is) RxProtocolError"
    by simp
  from body.rejects_bnd [where f = "sloop maxu", OF reads_suback_user_property [OF _ refl] this]
  show ?case
    using 3(3) by (intro rejects_while_cond [OF suback_property_shrinks])
      (simp_all add: prop_len_def property_type_written_len_def add.assoc split: if_splits)
qed

text \<open>The reason codes: all allowed and not too many, or a protocol error.\<close>

abbreviation codes_ok :: "suback_kind \<Rightarrow> nat \<Rightarrow> reason_code list \<Rightarrow> reason_code list \<Rightarrow> bool" where
  "codes_ok k maxf done cs \<equiv> (\<forall>c \<in> set cs. sk_reason_code_allowed k c) \<and> length done + length cs \<le> maxf"

abbreviation rloop ::
    "suback_kind \<Rightarrow> nat \<Rightarrow> reason_code list \<Rightarrow> (('s, 'b) body_reader, ('e, 'p) rx_error, reason_code list) comp"
  where
  "rloop k maxf \<equiv> body_while some_left (suback_reason_code k maxf rd)"

lemma reads_reason_code_step:
  assumes "sk_reason_code_allowed k c" and "length done < maxf"
  shows "body.reads (suback_reason_code k maxf rd done :: (_, ('e, 'p) rx_error, _) comp)
    [rc_value c] 0 (done @ [c])"
  unfolding suback_reason_code_def
  by (rule body.reads_bnd_ret [OF body.reads_map_err [OF body.reads_reason_code]]) (simp add: assms)

lemma parses_reason_codes:
  "codes_ok k maxf done cs \<Longrightarrow> body.parses (rloop k maxf done) (map rc_value cs) 0 (done @ cs)"
proof (induction cs arbitrary: "done")
  case Nil
  then show ?case using parses_while_nil [OF suback_reason_code_shrinks] by simp
next
  case (Cons c cs)
  then have "body.parses (rloop k maxf (done @ [c])) (map rc_value cs) 0 ((done @ [c]) @ cs)"
    by (intro Cons.IH) auto
  from parses_while_step [OF suback_reason_code_shrinks reads_reason_code_step _ this]
  show ?case using Cons.prems by simp
qed

lemma rejects_reason_codes:
  "\<not> codes_ok k maxf done cs \<Longrightarrow> length done \<le> maxf
   \<Longrightarrow> body.rejects (rloop k maxf done) (map rc_value cs) 0 RxProtocolError"
proof (induction cs arbitrary: "done")
  case Nil
  then show ?case by simp
next
  case (Cons c cs)
  show ?case
  proof (cases "sk_reason_code_allowed k c \<and> length done < maxf")
    case True
    then have "body.rejects (rloop k maxf (done @ [c])) (map rc_value cs) 0 RxProtocolError"
      using Cons.prems by (intro Cons.IH) auto
    from body.rejects_bnd [where f = "rloop k maxf", OF reads_reason_code_step this]
    show ?thesis using True by (intro rejects_while [OF suback_reason_code_shrinks]) simp_all
  next
    case False
    have "body.rejects (suback_reason_code k maxf rd done :: (_, ('e, 'p) rx_error, _) comp)
        ([rc_value c] @ map rc_value cs) (0 + 0) RxProtocolError"
      unfolding suback_reason_code_def
      by (rule body.rejects_bnd [OF body.reads_map_err [OF body.reads_reason_code]])
         (use False in \<open>auto intro: body.rejects_fail\<close>)
    then show ?thesis
      by (intro rejects_while [OF suback_reason_code_shrinks] body.rejects_bnd_first) simp_all
  qed
qed

lemma yields_suback:
  assumes h: "header_flags h = 0" and i: "pid_valid i" and ok: "\<forall>a \<in> set items. ack_item_ok a"
    and len: "length (concat (map ack_item_bytes items)) \<le> 268435455"
  shows "body.yields (suback_receive k maxf maxu rd pb h) (suback_body i items codes)
    (ack_items_memory maxu None [] items)
    (case ack_items_set maxu None [] items of
       Some (rs, us) \<Rightarrow>
         if codes \<noteq> [] \<and> codes_ok k maxf [] codes
         then Ok \<lparr>sa_packet_identifier = i, sa_reason_string = rs, sa_user_properties = us,
                  sa_reason_codes = codes\<rparr>
         else Err RxProtocolError
     | None \<Rightarrow> Err RxProtocolError)"
  (is "body.yields _ _ _ ?x")
proof -
  let ?ps = "concat (map ack_item_bytes items)" and ?cs = "map rc_value codes"
  let ?n = "VarByteInt (word_of_nat (length ?ps))"
  let ?loops = "\<lambda>i n. bnd (sloop maxu (vbi_size n, None, [])) (\<lambda>(_, rs, us).
      bnd (rloop k maxf []) (\<lambda>cs. ret \<lparr>sa_packet_identifier = i, sa_reason_string = rs,
        sa_user_properties = us, sa_reason_codes = cs\<rparr>))"
  let ?rest = "\<lambda>i n r. if vbi_size n > br_remaining_len r then (Err RxMalformedPacket, r)
      else if vbi_size n = br_remaining_len r then (Err RxProtocolError, r) else ?loops i n r"
  have n: "vbi_size ?n = length ?ps" using len by (simp add: vbi_size_def unat_small)
  have loops: "body.yields (?loops i ?n) (?ps @ ?cs) (ack_items_memory maxu None [] items) ?x"
    if "codes \<noteq> []"
  proof (cases "ack_items_set maxu None [] items")
    case None
    then show ?thesis
      using rejects_suback_items [OF None ok, of ?cs] by (simp add: n body.rejects_bnd_first)
  next
    case (Some a)
    obtain rs us where a: "a = (rs, us)" by fastforce
    note rd = reads_suback_items [OF Some [unfolded a] ok]
    have "body.yields (bnd (rloop k maxf []) (\<lambda>cs. ret \<lparr>sa_packet_identifier = i, sa_reason_string = rs,
        sa_user_properties = us, sa_reason_codes = cs\<rparr>)) ?cs 0 ?x"
      using that Some a parses_reason_codes [of codes k "[]" maxf] rejects_reason_codes [of codes k "[]" maxf]
      by (auto intro: parses_bnd_ret body.rejects_bnd_first)
    with body.yields_bnd [OF rd, of "\<lambda>(_, rs, us). bnd (rloop k maxf []) (\<lambda>cs. ret
        \<lparr>sa_packet_identifier = i, sa_reason_string = rs, sa_user_properties = us,
         sa_reason_codes = cs\<rparr>)" ?cs 0]
    show ?thesis by (simp add: n)
  qed
  have "body.yields (?rest i ?n) (?ps @ ?cs) (ack_items_memory maxu None [] items) ?x"
  proof (cases "codes = []")
    case True
    then have x: "?x = Err RxProtocolError" by (simp split: option.split prod.split)
    have "body.yields (fail RxProtocolError) (?ps @ ?cs) (ack_items_memory maxu None [] items) ?x"
      unfolding x by (simp add: body.rejects_fail)
    then show ?thesis by (rule yields_cong) (use True n in \<open>simp add: run_simps\<close>)
  next
    case False
    then show ?thesis using n by (intro yields_cong [OF loops]) simp_all
  qed
  from body.yields_bnd [where f = "?rest i",
      OF body.reads_map_err [OF body.reads_vbi [OF vbi_small [OF len]]] this]
  have "body.yields (bnd (map_err rx_of_body_read (read_vbi brd)) (?rest i))
      (vbi_bytes (word_of_nat (length ?ps)) @ ?ps @ ?cs) (0 + ack_items_memory maxu None [] items) ?x" .
  from body.yields_bnd [where f = "\<lambda>i. bnd (map_err rx_of_body_read (read_vbi brd)) (?rest i)",
      OF body.reads_map_err [OF body.reads_pid [OF i]] this]
  show ?thesis
    unfolding suback_receive_def h suback_body_def Let_def by simp
qed

lemma suback_run:
  assumes h: "header_flags h = 0" and i: "pid_valid i" and ok: "\<forall>a \<in> set items. ack_item_ok a"
    and len: "length (concat (map ack_item_bytes items)) \<le> 268435455"
    and s: "bytes s = suback_body i items codes @ tail"
    and b: "free b (ack_items_memory maxu None [] items)"
  shows "\<exists>r'. suback_receive k maxf maxu rd pb h (body_reader_new s b (length (suback_body i items codes)))
      = (case ack_items_set maxu None [] items of
           Some (rs, us) \<Rightarrow>
             if codes \<noteq> [] \<and> codes_ok k maxf [] codes
             then Ok \<lparr>sa_packet_identifier = i, sa_reason_string = rs, sa_user_properties = us,
                      sa_reason_codes = codes\<rparr>
             else Err RxProtocolError
         | None \<Rightarrow> Err RxProtocolError, r')
    \<and> (\<forall>v. fst (suback_receive k maxf maxu rd pb h
            (body_reader_new s b (length (suback_body i items codes)))) = Ok v \<longrightarrow>
        br_remaining_len r' = 0 \<and> bytes (br_r r') = tail)"
proof -
  let ?m = "suback_receive k maxf maxu rd pb h (body_reader_new s b (length (suback_body i items codes)))"
  from yields_run [OF yields_suback [OF h i ok len] s b] obtain x r' where
    "?m = (x, r')" "(\<exists>v. x = Ok v) \<longrightarrow> br_remaining_len r' = 0 \<and> bytes (br_r r') = tail"
    "x = (case ack_items_set maxu None [] items of
           Some (rs, us) \<Rightarrow>
             if codes \<noteq> [] \<and> codes_ok k maxf [] codes
             then Ok \<lparr>sa_packet_identifier = i, sa_reason_string = rs, sa_user_properties = us,
                      sa_reason_codes = codes\<rparr>
             else Err RxProtocolError
         | None \<Rightarrow> Err RxProtocolError)"
    by blast
  then show ?thesis by auto
qed

end

text \<open>C24: A SUBACK or UNSUBACK packet with any list of well-formed properties and any reason codes is
  received over every transport and memory provider that keep their contracts. The result is the
  packet if there is at least one reason code, not more than the capacity, all are allowed for the
  packet, and the reason string occurs at most once; otherwise it is a protocol error.\<close>

theorem suback_received:
  assumes "packet_body rd bytes pb free"
    and "header_flags h = 0" and "pid_valid i" and "\<forall>a \<in> set items. ack_item_ok a"
    and "length (concat (map ack_item_bytes items)) \<le> 268435455"
    and "bytes s = suback_body i items codes @ rest"
    and "free b (ack_items_memory maxu None [] items)"
  shows "\<exists>r'. suback_receive k maxf maxu rd pb h (body_reader_new s b (length (suback_body i items codes)))
      = (case ack_items_set maxu None [] items of
           Some (rs, us) \<Rightarrow>
             if codes \<noteq> [] \<and> (\<forall>c \<in> set codes. sk_reason_code_allowed k c) \<and> length codes \<le> maxf
             then Ok \<lparr>sa_packet_identifier = i, sa_reason_string = rs, sa_user_properties = us,
                      sa_reason_codes = codes\<rparr>
             else Err RxProtocolError
         | None \<Rightarrow> Err RxProtocolError, r')
    \<and> (\<forall>v. fst (suback_receive k maxf maxu rd pb h
            (body_reader_new s b (length (suback_body i items codes)))) = Ok v \<longrightarrow>
        br_remaining_len r' = 0 \<and> bytes (br_r r') = rest)"
  using packet_body.suback_run [OF assms, of k maxf] by (simp only: list.size(3) add_0)

theorem suback_received_witness:
  "\<exists>r'. suback_receive Suback 1 1 slice_read alloc_provide (fixed_header_new PtSuback 0 (VarByteInt 9))
      (body_reader_new (slice_reader_new (suback_body 5 [AiReasonString [0x6F, 0x6B]] [RcGrantedQoS1])) () 9)
    = (Ok \<lparr>sa_packet_identifier = 5, sa_reason_string = Some [0x6F, 0x6B], sa_user_properties = [],
           sa_reason_codes = [RcGrantedQoS1]\<rparr> :: ((unit, unit) rx_error, suback_packet) res, r')
    \<and> br_remaining_len r' = 0"
proof -
  let ?s = "slice_reader_new (suback_body 5 [AiReasonString [0x6F, 0x6B]] [RcGrantedQoS1])"
  let ?h = "fixed_header_new PtSuback 0 (VarByteInt 9)"
  have len: "length (concat (map ack_item_bytes [AiReasonString [0x6F, 0x6B]])) = 5"
    by (simp add: prop_len_def property_type_written_len_def binary_written_len_def)
  then have body: "length (suback_body 5 [AiReasonString [0x6F, 0x6B]] [RcGrantedQoS1]) = 9"
    unfolding suback_body_def Let_def by (simp add: length_vbi_bytes del: length_concat)
  have "slice_bytes ?s = suback_body 5 [AiReasonString [0x6F, 0x6B]] [RcGrantedQoS1] @ []"
    by (simp add: slice_bytes_def slice_reader_new_def)
  moreover have "pid_valid 5" "\<forall>a \<in> set [AiReasonString [0x6F, 0x6B]]. ack_item_ok a" "header_flags ?h = 0"
    by (simp_all add: pid_valid_def string_ok_def MAX_LENGTH_def header_flags_def fixed_header_new_def)
  moreover have "length (concat (map ack_item_bytes [AiReasonString [0x6F, 0x6B]])) \<le> 268435455"
    unfolding len by simp
  ultimately show ?thesis
    using suback_received [OF slice_alloc.packet_body_axioms, where h = ?h and i = 5 and s = ?s and rest = "[]"
        and items = "[AiReasonString [0x6F, 0x6B]]" and codes = "[RcGrantedQoS1]" and b = "()" and maxu = 1
        and maxf = 1 and k = Suback]
    unfolding body by (auto simp: sk_reason_code_allowed_def)
qed

end
