(* ===== verification/Mqtt_Disconnect.thy ===== *)
theory Mqtt_Disconnect
  imports Mqtt_Outcomes Mqtt_Transport
begin

text \<open>
  The DISCONNECT packet, \<open>src/v5/packet/disconnect.rs\<close>, which both sides send. \<open>None\<close> as a length is a
  panic of the source.
\<close>

section \<open>DISCONNECT\<close>

record disconnect_packet =
  dp_reason_code :: reason_code
  dp_session_expiry_interval :: "session_expiry_interval option"
  dp_reason_string :: "mqtt_string option"
  dp_user_properties :: "mqtt_string_pair list"
  dp_server_reference :: "mqtt_string option"

definition disconnect_reason_code_allowed :: "reason_code \<Rightarrow> bool" where
  "disconnect_reason_code_allowed c \<longleftrightarrow>
     c \<in> {RcSuccess, RcDisconnectWithWillMessage, RcUnspecifiedError, RcMalformedPacket,
          RcProtocolError, RcImplementationSpecificError, RcNotAuthorized, RcServerBusy,
          RcServerShuttingDown, RcBadAuthenticationMethod, RcKeepAliveTimeout, RcSessionTakenOver,
          RcTopicFilterInvalid, RcTopicNameInvalid, RcReceiveMaximumExceeded, RcTopicAliasInvalid,
          RcPacketTooLarge, RcMessageRateTooHigh, RcQuotaExceeded, RcAdministrativeAction,
          RcPayloadFormatInvalid, RcRetainNotSupported, RcQoSNotSupported, RcUseAnotherServer,
          RcServerMoved, RcSharedSubscriptionsNotSupported, RcConnectionRateExceeded,
          RcMaximumConnectTime, RcSubscriptionIdentifiersNotSupported,
          RcWildcardSubscriptionsNotSupported}"

type_synonym disconnect_acc = "mqtt_string option \<times> mqtt_string_pair list \<times> mqtt_string option"

definition disconnect_property ::
    "nat \<Rightarrow> ('s, 'e) reader \<Rightarrow> (nat \<Rightarrow> ('b, 'p, 'm) comp) \<Rightarrow> disconnect_acc
     \<Rightarrow> (('s, 'b) body_reader, ('e, 'p) rx_error, disconnect_acc) comp" where
  "disconnect_property maxu rd pb acc =
     bnd (map_err rx_of_body_read (read_property_type (body_read rd))) (\<lambda>p.
       let (reason_string, user_properties, server_reference) = acc in
       if p = PrSessionExpiryInterval then fail RxProtocolError
       else if p = PrReasonString then
         bnd (map_err rx_of_at_most_once
                (try_set reason_string (read_string (body_read rd) (body_store rd pb))))
           (\<lambda>v. ret (v, user_properties, server_reference))
       else if p = PrUserProperty \<and> length user_properties < maxu then
         bnd (map_err rx_of_body_read (read_string_pair (body_read rd) (body_store rd pb)))
           (\<lambda>u. ret (reason_string, user_properties @ [u], server_reference))
       else if p = PrUserProperty then
         bnd (user_property_skip rd) (\<lambda>_. ret (reason_string, user_properties, server_reference))
       else if p = PrServerReference then
         bnd (map_err rx_of_at_most_once
                (try_set server_reference (read_string (body_read rd) (body_store rd pb))))
           (\<lambda>v. ret (reason_string, user_properties, v))
       else fail RxMalformedPacket)"

definition disconnect_receive ::
    "nat \<Rightarrow> ('s, 'e) reader \<Rightarrow> (nat \<Rightarrow> ('b, 'p, 'm) comp) \<Rightarrow> fixed_header
     \<Rightarrow> (('s, 'b) body_reader, ('e, 'p) rx_error, disconnect_packet) comp" where
  "disconnect_receive maxu rd pb header =
     (if header_flags header \<noteq> 0 then fail RxMalformedPacket
      else
        bnd (if vbi_size (remaining_len header) = 0 then ret RcSuccess
             else map_err rx_of_body_read (read_reason_code (body_read rd)))
        (\<lambda>disconnect_reason_code.
        if \<not> disconnect_reason_code_allowed disconnect_reason_code then fail RxProtocolError
        else
          bnd (if vbi_size (remaining_len header) < 2 then ret 0
               else bnd (map_err rx_of_body_read (read_vbi (body_read rd))) (\<lambda>v. ret (vbi_size v)))
          (\<lambda>properties_length r.
            if br_remaining_len r \<noteq> properties_length then (Err RxMalformedPacket, r)
            else bnd (body_while (\<lambda>_ r. 0 < br_remaining_len r) (disconnect_property maxu rd pb)
                        (None, [], None))
              (\<lambda>(reason_string, user_properties, server_reference). ret
                \<lparr>dp_reason_code = disconnect_reason_code, dp_session_expiry_interval = None,
                 dp_reason_string = reason_string, dp_user_properties = user_properties,
                 dp_server_reference = server_reference\<rparr>) r)))"

definition disconnect_new ::
    "reason_code \<Rightarrow> session_expiry_interval option \<Rightarrow> mqtt_string option \<Rightarrow> mqtt_string_pair list
     \<Rightarrow> disconnect_packet" where
  "disconnect_new reason_code session_expiry_interval reason_string user_properties =
     \<lparr>dp_reason_code = reason_code, dp_session_expiry_interval = session_expiry_interval,
      dp_reason_string = reason_string, dp_user_properties = user_properties,
      dp_server_reference = None\<rparr>"

definition disconnect_properties_length :: "disconnect_packet \<Rightarrow> var_byte_int option" where
  "disconnect_properties_length p =
     (let len = option_written_len session_expiry_interval_written_len (dp_session_expiry_interval p)
              + option_written_len (\<lambda>s. prop_len PrReasonString (string_written_len s)) (dp_reason_string p)
              + user_properties_written_len (dp_user_properties p)
              + option_written_len (\<lambda>s. prop_len PrServerReference (string_written_len s))
                  (dp_server_reference p)
      in vbi_new_unchecked (word_of_nat len))"

definition disconnect_remaining_len :: "disconnect_packet \<Rightarrow> var_byte_int option" where
  "disconnect_remaining_len p =
     Option.bind (disconnect_properties_length p) (\<lambda>properties_length.
     Option.bind (vbi_written_len properties_length) (\<lambda>l.
       let variable_header_length = 1;
           total_properties_length = vbi_size properties_length + l;
           total_length = variable_header_length + total_properties_length
       in vbi_new_unchecked (word_of_nat total_length)))"

definition disconnect_write ::
    "('w, 'e) writer \<Rightarrow> disconnect_packet \<Rightarrow> ('w, 'e write_error, unit) comp" where
  "disconnect_write wr p =
     unwrap (disconnect_remaining_len p) (\<lambda>len.
       thn (write_fixed_header wr (fixed_header_new PtDisconnect 0x00 len))
       (thn (write_reason_code wr (dp_reason_code p))
       (unwrap (disconnect_properties_length p) (\<lambda>properties_length.
         thn (write_vbi wr properties_length)
         (thn (write_option (write_session_expiry_interval wr) (dp_session_expiry_interval p))
         (thn (write_option (\<lambda>s. write_prop wr PrReasonString (write_string wr s)) (dp_reason_string p))
         (thn (write_user_properties wr (dp_user_properties p))
              (write_option (\<lambda>s. write_prop wr PrServerReference (write_string wr s))
                 (dp_server_reference p)))))))))"

definition disconnect_send ::
    "('w, 'e) writer \<Rightarrow> disconnect_packet \<Rightarrow> ('w, 'e tx_error, unit) comp" where
  "disconnect_send wr p = map_err tx_of_write (disconnect_write wr p)"

section \<open>DISCONNECT packets\<close>

definition disconnect_ok :: "disconnect_packet \<Rightarrow> bool" where
  "disconnect_ok p \<longleftrightarrow> disconnect_reason_code_allowed (dp_reason_code p)
     \<and> pred_option string_ok (dp_reason_string p) \<and> pred_option string_ok (dp_server_reference p)
     \<and> (\<forall>u \<in> set (dp_user_properties p). string_pair_ok u)
     \<and> length (dp_user_properties p) \<le> 2046"

definition disconnect_props_bytes :: "disconnect_packet \<Rightarrow> u8 list" where
  "disconnect_props_bytes p =
     opt_bytes (\<lambda>i. prop_bytes PrSessionExpiryInterval (u32_to_be_bytes (session_expiry_interval_value i)))
       (dp_session_expiry_interval p)
     @ opt_bytes (\<lambda>s. prop_bytes PrReasonString (binary_bytes s)) (dp_reason_string p)
     @ user_properties_bytes (dp_user_properties p)
     @ opt_bytes (\<lambda>s. prop_bytes PrServerReference (binary_bytes s)) (dp_server_reference p)"

definition disconnect_body_bytes :: "disconnect_packet \<Rightarrow> u8 list" where
  "disconnect_body_bytes p = [rc_value (dp_reason_code p)]
     @ vbi_bytes (word_of_nat (length (disconnect_props_bytes p))) @ disconnect_props_bytes p"

definition disconnect_header :: "disconnect_packet \<Rightarrow> fixed_header" where
  "disconnect_header p = fixed_header_new PtDisconnect 0
     (VarByteInt (word_of_nat (length (disconnect_body_bytes p))))"

lemma disconnect_lengths:
  assumes "disconnect_ok p"
  shows "length (disconnect_props_bytes p) \<le> 268314623"
    and "disconnect_properties_length p = Some (VarByteInt (word_of_nat (length (disconnect_props_bytes p))))"
    and "length (disconnect_body_bytes p) \<le> 268435455" and "2 \<le> length (disconnect_body_bytes p)"
    and "disconnect_remaining_len p = Some (VarByteInt (word_of_nat (length (disconnect_body_bytes p))))"
proof -
  let ?n = "length (disconnect_props_bytes p)"
  have len: "option_written_len session_expiry_interval_written_len (dp_session_expiry_interval p)
              + option_written_len (\<lambda>s. prop_len PrReasonString (string_written_len s)) (dp_reason_string p)
              + user_properties_written_len (dp_user_properties p)
              + option_written_len (\<lambda>s. prop_len PrServerReference (string_written_len s))
                  (dp_server_reference p) = ?n"
    by (simp add: disconnect_props_bytes_def length_opt_bytes string_written_len_def prop_len_def
        session_expiry_interval_written_len_def [abs_def] property_type_written_len_def)
  have str: "option_written_len (\<lambda>s. prop_len t (string_written_len s)) x \<le> 65538"
    if "pred_option string_ok x" for t x
    using that by (cases x) (simp_all add: option_written_len_def prop_len_def string_ok_def
        property_type_written_len_def string_written_len_def binary_written_len_def MAX_LENGTH_def)
  have "option_written_len session_expiry_interval_written_len (dp_session_expiry_interval p) \<le> 5"
    by (simp add: option_written_len_def session_expiry_interval_written_len_def
        property_type_written_len_def split: option.split)
  moreover have "user_properties_written_len (dp_user_properties p) \<le> 2046 * 131077"
    using user_properties_bound [of "dp_user_properties p"] assms by (force simp: disconnect_ok_def)
  ultimately show n: "?n \<le> 268314623"
    using str [of "dp_reason_string p" PrReasonString] str [of "dp_server_reference p" PrServerReference]
      assms by (simp add: disconnect_ok_def flip: len)
  show pl: "disconnect_properties_length p = Some (VarByteInt (word_of_nat ?n))"
    using n unfolding disconnect_properties_length_def Let_def len
    by (simp add: vbi_new_unchecked_def vbi_small)
  have l: "length (vbi_bytes (word_of_nat ?n)) \<le> 4" "1 \<le> length (vbi_bytes (word_of_nat ?n))"
    using n by (simp_all add: length_vbi_bytes unat_small Suc_leI)
  show b: "length (disconnect_body_bytes p) \<le> 268435455" "2 \<le> length (disconnect_body_bytes p)"
    using n l by (simp_all add: disconnect_body_bytes_def)
  have "1 + (?n + length (vbi_bytes (word_of_nat ?n))) = length (disconnect_body_bytes p)"
    by (simp add: disconnect_body_bytes_def)
  then show "disconnect_remaining_len p = Some (VarByteInt (word_of_nat (length (disconnect_body_bytes p))))"
    using n b by (simp add: disconnect_remaining_len_def pl vbi_written_len_bytes vbi_small vbi_size_def
        unat_small vbi_new_unchecked_def del: of_nat_add of_nat_Suc)
qed

context byte_sink
begin

lemma writes_disconnect:
  assumes "disconnect_ok p"
  shows "writes (disconnect_write wr p) (fixed_header_bytes (disconnect_header p) @ disconnect_body_bytes p)"
proof -
  have sei: "writes (write_session_expiry_interval wr i)
      (prop_bytes PrSessionExpiryInterval (u32_to_be_bytes (session_expiry_interval_value i)))" for i
    using writes_prop [OF writes_slice] unfolding write_prop_def
    by (simp add: write_session_expiry_interval_def write_u32_def)
  have props: "writes (thn (write_option (write_session_expiry_interval wr) (dp_session_expiry_interval p))
         (thn (write_option (\<lambda>s. write_prop wr PrReasonString (write_string wr s)) (dp_reason_string p))
         (thn (write_user_properties wr (dp_user_properties p))
              (write_option (\<lambda>s. write_prop wr PrServerReference (write_string wr s))
                 (dp_server_reference p))))) (disconnect_props_bytes p)"
    unfolding disconnect_props_bytes_def write_string_def
    by (intro writes_thn writes_option writes_prop writes_binary writes_user_properties sei)
  show ?thesis
    unfolding disconnect_write_def disconnect_lengths(2,5) [OF assms] unwrap_Some disconnect_header_def
      disconnect_body_bytes_def write_reason_code_def write_u8_def
    by (intro writes_thn [OF writes_fixed_header] writes_thn [OF writes_slice]
        writes_thn [OF writes_vbi [of "VarByteInt _", unfolded vbi_value.simps]] props)
qed

end

lemma disconnect_property_shrinks: "shrinks (disconnect_property maxu rd pb)"
  unfolding disconnect_property_def Let_def split_def by (rule shrinksI) (intro keeps_intros)

definition disconnect_memory :: "disconnect_packet \<Rightarrow> nat" where
  "disconnect_memory p = (if dp_session_expiry_interval p \<noteq> None then 0
     else option_written_len length (dp_reason_string p)
       + (sum_list (map (\<lambda>u. length (pair_name u) + length (pair_value u)) (dp_user_properties p))
       + option_written_len length (dp_server_reference p)))"

context packet_body
begin

abbreviation dstep :: "nat \<Rightarrow> disconnect_acc \<Rightarrow> (('s, 'b) body_reader, ('e, 'p) rx_error, disconnect_acc) comp" where
  "dstep maxu \<equiv> disconnect_property maxu rd pb"

abbreviation dloop :: "nat \<Rightarrow> disconnect_acc \<Rightarrow> (('s, 'b) body_reader, ('e, 'p) rx_error, disconnect_acc) comp" where
  "dloop maxu \<equiv> body_while some_left (disconnect_property maxu rd pb)"

lemma reads_disconnect_property:
  "string_ok v \<Longrightarrow> body.reads (dstep maxu (None, us, sr)) (prop_bytes PrReasonString (binary_bytes v)) (length v) (Some v, us, sr)"
  "string_ok v \<Longrightarrow> body.reads (dstep maxu (rs, us, None)) (prop_bytes PrServerReference (binary_bytes v)) (length v) (rs, us, Some v)"
  "string_pair_ok u \<Longrightarrow> length us < maxu \<Longrightarrow> body.reads (dstep maxu (rs, us, sr))
    (prop_bytes PrUserProperty (string_pair_bytes u)) (length (pair_name u) + length (pair_value u)) (rs, us @ [u], sr)"
  unfolding disconnect_property_def
  by (intro reads_typed; simp add: body.reads_bnd_ret [OF reads_try_set [OF body.reads_string]]
      body.reads_bnd_ret [OF body.reads_map_err [OF body.reads_string_pair]])+

lemma parses_server_reference:
  assumes "pred_option string_ok sr"
  shows "body.parses (dloop maxu (rs, us, None))
    (opt_bytes (\<lambda>s. prop_bytes PrServerReference (binary_bytes s)) sr) (option_written_len length sr) (rs, us, sr)"
proof (cases sr)
  case None
  then show ?thesis
    using parses_while_nil [OF disconnect_property_shrinks] by (simp add: opt_bytes_def option_written_len_def)
next
  case (Some v)
  from parses_while_step [OF disconnect_property_shrinks reads_disconnect_property(2) _
      parses_while_nil [OF disconnect_property_shrinks]]
  show ?thesis using assms Some by (simp add: opt_bytes_def option_written_len_def prop_bytes_def)
qed

lemma parses_disconnect_users:
  assumes "\<forall>u \<in> set us. string_pair_ok u" and "length us0 + length us \<le> maxu" and "pred_option string_ok sr"
  shows "body.parses (dloop maxu (rs, us0, None))
    (user_properties_bytes us @ opt_bytes (\<lambda>s. prop_bytes PrServerReference (binary_bytes s)) sr)
    (sum_list (map (\<lambda>u. length (pair_name u) + length (pair_value u)) us) + option_written_len length sr)
    (rs, us0 @ us, sr)"
  using assms
proof (induction us arbitrary: us0)
  case Nil
  then show ?case using parses_server_reference [of sr] by (simp add: user_properties_bytes_def)
next
  case (Cons u us)
  from Cons.IH [of "us0 @ [u]"] Cons.prems have "body.parses (dloop maxu (rs, us0 @ [u], None))
    (user_properties_bytes us @ opt_bytes (\<lambda>s. prop_bytes PrServerReference (binary_bytes s)) sr)
    (sum_list (map (\<lambda>u. length (pair_name u) + length (pair_value u)) us) + option_written_len length sr)
    (rs, us0 @ u # us, sr)" by simp
  from parses_while_step [OF disconnect_property_shrinks reads_disconnect_property(3) _ this]
  show ?case using Cons.prems by (simp add: user_properties_bytes_def prop_bytes_def add.assoc)
qed

lemma yields_disconnect_props:
  assumes "disconnect_ok p" and "length (dp_user_properties p) \<le> maxu"
  shows "body.yields (dloop maxu (None, [], None)) (disconnect_props_bytes p) (disconnect_memory p)
    (if dp_session_expiry_interval p = None
     then Ok (dp_reason_string p, dp_user_properties p, dp_server_reference p) else Err RxProtocolError)"
proof (cases "dp_session_expiry_interval p")
  case None
  have users: "body.parses (dloop maxu (rs, [], None))
      (user_properties_bytes (dp_user_properties p)
       @ opt_bytes (\<lambda>s. prop_bytes PrServerReference (binary_bytes s)) (dp_server_reference p))
      (sum_list (map (\<lambda>u. length (pair_name u) + length (pair_value u)) (dp_user_properties p))
       + option_written_len length (dp_server_reference p))
      (rs, dp_user_properties p, dp_server_reference p)" for rs
    using parses_disconnect_users [of "dp_user_properties p" "[]"] assms by (simp add: disconnect_ok_def)
  show ?thesis
  proof (cases "dp_reason_string p")
    case rs: None
    then show ?thesis using users [of None] None
      by (simp add: disconnect_props_bytes_def disconnect_memory_def opt_bytes_def option_written_len_def)
  next
    case (Some v)
    from parses_while_step [OF disconnect_property_shrinks reads_disconnect_property(1) _ users]
    show ?thesis using Some None assms(1)
      by (simp add: disconnect_props_bytes_def disconnect_memory_def opt_bytes_def [of _ "Some _"]
          opt_bytes_def [of _ None] option_written_len_def [of _ "Some _"] prop_bytes_def disconnect_ok_def)
  qed
next
  case (Some i)
  obtain c rest where bytes: "disconnect_props_bytes p = prop_bytes PrSessionExpiryInterval c @ rest"
    by (simp add: disconnect_props_bytes_def Some opt_bytes_def)
  have "body.rejects (dstep maxu (None, [], None)) (prop_bytes PrSessionExpiryInterval c @ rest) 0 RxProtocolError"
    unfolding disconnect_property_def by (rule rejects_typed) (simp add: body.rejects_fail)
  then have "body.rejects (dloop maxu (None, [], None)) (disconnect_props_bytes p) 0 RxProtocolError"
    unfolding bytes by (intro rejects_while [OF disconnect_property_shrinks] body.rejects_bnd_first)
      (simp_all add: prop_bytes_def)
  then show ?thesis using Some by (simp add: disconnect_memory_def)
qed

lemma disconnect_run:
  assumes ok: "disconnect_ok p" and maxu: "length (dp_user_properties p) \<le> maxu"
    and s: "bytes s = disconnect_body_bytes p @ tail" and b: "free b (disconnect_memory p)"
  shows "\<exists>r'. disconnect_receive maxu rd pb (disconnect_header p)
        (body_reader_new s b (length (disconnect_body_bytes p)))
      = (if dp_session_expiry_interval p = None then Ok p else Err RxProtocolError, r')
    \<and> (dp_session_expiry_interval p = None \<longrightarrow> br_remaining_len r' = 0 \<and> bytes (br_r r') = tail)"
proof -
  let ?h = "disconnect_header p" and ?m = "length (disconnect_props_bytes p)"
  let ?x = "if dp_session_expiry_interval p = None then Ok p else Err RxProtocolError"
  let ?pk = "\<lambda>(rs, us, sr). ret \<lparr>dp_reason_code = dp_reason_code p, dp_session_expiry_interval = None,
      dp_reason_string = rs, dp_user_properties = us, dp_server_reference = sr\<rparr>"
  note len = disconnect_lengths [OF ok]
  have m: "?m \<le> 268435455" using len(1) by simp
  have "disconnect_body_bytes p \<noteq> []" by (simp add: disconnect_body_bytes_def)
  then have h: "header_flags ?h = 0" "vbi_size (remaining_len ?h) \<noteq> 0" "\<not> vbi_size (remaining_len ?h) < 2"
    using len(3,4) by (simp_all add: disconnect_header_def header_flags_def fixed_header_new_def
        vbi_size_def unat_small)
  have "body.yields (bnd (dloop maxu (None, [], None)) ?pk) (disconnect_props_bytes p) (disconnect_memory p) ?x"
    using yields_disconnect_props [OF ok maxu]
    by (cases p) (auto intro: parses_bnd_ret body.rejects_bnd_first split: if_splits)
  from yields_checked [OF this, of RxMalformedPacket]
  have rest: "body.yields (\<lambda>r. if br_remaining_len r \<noteq> ?m then (Err RxMalformedPacket, r)
      else bnd (dloop maxu (None, [], None)) ?pk r) (disconnect_props_bytes p) (disconnect_memory p) ?x" .
  have vbi: "body.reads (bnd (map_err rx_of_body_read (read_vbi brd)) (\<lambda>v. ret (vbi_size v)))
      (vbi_bytes (word_of_nat ?m)) 0 ?m"
    by (rule body.reads_bnd_ret [OF body.reads_map_err [OF body.reads_vbi [OF vbi_small [OF m]]]])
       (use m in \<open>simp add: vbi_size_def unat_small\<close>)
  have "body.yields (disconnect_receive maxu rd pb ?h)
      ([rc_value (dp_reason_code p)] @ vbi_bytes (word_of_nat ?m) @ disconnect_props_bytes p)
      (0 + (0 + disconnect_memory p)) ?x"
    unfolding disconnect_receive_def
    by (simp only: h refl if_False not_True_eq_False)
       (intro body.yields_bnd [OF body.reads_map_err [OF body.reads_reason_code]],
        use ok in \<open>simp only: disconnect_ok_def not_True_eq_False if_False\<close>,
        intro body.yields_bnd [OF vbi] rest)
  then have "body.yields (disconnect_receive maxu rd pb ?h) (disconnect_body_bytes p) (disconnect_memory p) ?x"
    by (simp add: disconnect_body_bytes_def)
  from yields_run [OF this s b] show ?thesis by auto
qed

end

text \<open>C22: A DISCONNECT packet with an allowed reason code, optional reason string and server reference and
  up to 2046 user properties is written completely, in \<open>encoded_len\<close> bytes, over every transport that
  takes at least one byte per call; a receiver that has read its header reads the same packet back
  and consumes exactly its body, unless the packet has a session expiry interval, which only a client
  may send: then it reports a protocol error.\<close>

theorem disconnect_roundtrip:
  assumes "byte_sink wr out room" and "packet_body rd bytes pb free"
    and "disconnect_ok p" and "length (dp_user_properties p) \<le> maxu"
    and "encoded_len (disconnect_remaining_len p) = Some n" and "room w n"
  shows "\<exists>w' h body. disconnect_send wr p w = (Ok (), w')
     \<and> out w' = out w @ fixed_header_bytes h @ body
     \<and> n = length (fixed_header_bytes h) + length body
     \<and> disconnect_remaining_len p = Some (remaining_len h) \<and> vbi_size (remaining_len h) = length body
     \<and> header_packet_type h = Some PtDisconnect
     \<and> (\<forall>s b rest. bytes s = body @ rest \<and> free b (disconnect_memory p) \<longrightarrow>
          (\<exists>r'. disconnect_receive maxu rd pb h (body_reader_new s b (length body))
              = (if dp_session_expiry_interval p = None then Ok p else Err RxProtocolError, r')
            \<and> (dp_session_expiry_interval p = None \<longrightarrow> br_remaining_len r' = 0 \<and> bytes (br_r r') = rest)))"
  unfolding disconnect_send_def
  by (rule byte_sink.sends_packet [OF assms(1) byte_sink.writes_disconnect [OF assms(1,3),
        unfolded disconnect_header_def] disconnect_lengths(3,5) [OF assms(3)] assms(5,6)])
     (use packet_body.disconnect_run [OF assms(2-4)] in \<open>simp add: disconnect_header_def
        fixed_header_new_def header_packet_type_def from_type_and_flags_def Let_def\<close>)

definition sample_disconnect :: disconnect_packet where
  "sample_disconnect = disconnect_new RcSuccess None (Some [0x62]) []"

theorem disconnect_roundtrip_witness:
  "\<exists>w' h body. disconnect_send slice_write sample_disconnect (slice_writer_new (replicate 16 0)) = (Ok (), w')
     \<and> slice_out w' = slice_out (slice_writer_new (replicate 16 0)) @ fixed_header_bytes h @ body
     \<and> 8 = length (fixed_header_bytes h) + length body
     \<and> disconnect_remaining_len sample_disconnect = Some (remaining_len h)
     \<and> vbi_size (remaining_len h) = length body
     \<and> header_packet_type h = Some PtDisconnect
     \<and> (\<forall>s b rest. slice_bytes s = body @ rest \<and> True \<longrightarrow>
          (\<exists>r'. disconnect_receive 0 slice_read alloc_provide h (body_reader_new s b (length body))
              = (if dp_session_expiry_interval sample_disconnect = None then Ok sample_disconnect
                 else Err RxProtocolError :: ((unit, unit) rx_error, disconnect_packet) res, r')
            \<and> (dp_session_expiry_interval sample_disconnect = None \<longrightarrow>
                br_remaining_len r' = 0 \<and> slice_bytes (br_r r') = rest)))"
  by (rule disconnect_roundtrip [OF slice_out.byte_sink_axioms slice_alloc.packet_body_axioms])
     (simp_all add: sample_disconnect_def disconnect_ok_def disconnect_new_def disconnect_reason_code_allowed_def
        string_ok_def MAX_LENGTH_def disconnect_remaining_len_def disconnect_properties_length_def
        option_written_len_def user_properties_written_len_def prop_len_def property_type_written_len_def
        string_written_len_def binary_written_len_def vbi_new_unchecked_def MAX_ENCODABLE_def
        vbi_written_len_def vbi_size_def encoded_len_def slice_room_def slice_writer_new_def)

end
