(* ===== verification/Mqtt_Receivers.thy ===== *)
theory Mqtt_Receivers
  imports Mqtt_Publish Mqtt_Requests Mqtt_Connack Mqtt_Subacks
    Mqtt_Disconnect
begin

text \<open>
  What all receivers and all senders of \<open>src/v5/packet\<close> have in common, whatever the input is. A
  receiver is made of the calls \<open>read\<close>, \<open>read_and_store\<close> and \<open>skip\<close> of its body reader, a sender of
  the call \<open>write\<close> of the transport: every preorder on states that these calls keep, the packets
  keep. The instances are the budget of the body, and the halves of a connection that reading and
  writing leave alone.
\<close>

section \<open>Receivers\<close>

locale receiver_frame = frame R
  for R :: "('s, 'b) body_reader \<Rightarrow> ('s, 'b) body_reader \<Rightarrow> bool" +
  fixes rd :: "('s, 'e) reader" and pb :: "nat \<Rightarrow> ('b, 'p, 'm) comp"
  assumes body_read_keeps: "keeps (body_read rd n :: (_, ('e, 'p) body_read_error, _) comp)"
    and body_store_keeps: "keeps (body_store rd pb n)"
    and body_skip_keeps: "keeps (body_skip rd n :: (_, ('e, 'p) body_read_error, _) comp)"

sublocale receiver_frame \<subseteq> reader_frame R
  "body_read rd :: (('s, 'b) body_reader, ('e, 'p) body_read_error) reader" "body_store rd pb"
  by unfold_locales (fact body_read_keeps, fact body_store_keeps)

context receiver_frame
begin

lemma keeps_body_loop: "(\<And>acc. keeps (step acc)) \<Longrightarrow> keeps (body_loop fuel cond step acc)"
proof (induction fuel arbitrary: acc)
  case 0
  show ?case by (rule keepsI) (auto simp: R_refl split: if_splits)
next
  case (Suc fuel)
  have "keeps (bnd (step acc) (body_loop fuel cond step))" using Suc by auto
  then show ?case by (intro keepsI) (auto simp: R_refl dest: keepsD split: if_splits)
qed

lemma keeps_body_while: "(\<And>acc. keeps (step acc)) \<Longrightarrow> keeps (body_while cond step acc)"
  unfolding body_while_def [abs_def] using keeps_body_loop [of step] by (blast intro: keepsI dest: keepsD)

lemma keeps_cond:
  "keeps m \<Longrightarrow> keeps (\<lambda>r. if c r then (Err e, r) else m r)"
  by (rule keepsI) (auto simp: R_refl dest: keepsD split: if_splits)

lemma keeps_case_prod: "(\<And>a b. keeps (f a b)) \<Longrightarrow> keeps (case p of (a, b) \<Rightarrow> f a b)"
  by (cases p) simp

lemma keeps_let: "keeps (f x) \<Longrightarrow> keeps (let y = x in f y)"
  by simp

lemma keeps_case_qos:
  "keeps a \<Longrightarrow> keeps b \<Longrightarrow> keeps c
   \<Longrightarrow> keeps (case q of AtMostOnce \<Rightarrow> a | AtLeastOnce \<Rightarrow> b | ExactlyOnce \<Rightarrow> c)"
  by (cases q) simp_all

lemma keeps_user_property_skip: "keeps (user_property_skip rd :: (_, ('e, 'p) rx_error, _) comp)"
  unfolding user_property_skip_def by (intro keeps_bnd keeps_map_err body_skip_keeps keeps_read_u16 keeps_ret)

lemma keeps_skip_field: "keeps (skip_field rd :: (_, ('e, 'p) rx_error, _) comp)"
  unfolding skip_field_def by (intro keeps_bnd keeps_map_err body_skip_keeps keeps_read_u16 keeps_ret)

lemma keeps_property_values:
  "keeps (read_property_type (body_read rd :: (_, ('e, 'p) body_read_error) reader))"
  "keeps (read_session_expiry_interval (body_read rd :: (_, ('e, 'p) body_read_error) reader))"
  "keeps (read_server_keep_alive (body_read rd :: (_, ('e, 'p) body_read_error) reader))"
  "keeps (read_maximum_qos (body_read rd :: (_, ('e, 'p) body_read_error) reader))"
  "keeps (read_maximum_packet_size (body_read rd :: (_, ('e, 'p) body_read_error) reader))"
  "keeps (read_receive_maximum (body_read rd :: (_, ('e, 'p) body_read_error) reader))"
  unfolding read_property_type_def read_session_expiry_interval_def read_server_keep_alive_def
    read_maximum_qos_def read_maximum_packet_size_def read_receive_maximum_def
  by (intro keeps_bnd keeps_read_u8 keeps_read_u16 keeps_read_u32 keeps_read_nonzero keeps_ok_or keeps_ret
      keeps_if)+

lemmas receiver_intros = keeps_bnd keeps_map_err keeps_if keeps_unwrap keeps_try_set keeps_ret keeps_fail
  keeps_ok_or keeps_case_option keeps_read_u8 keeps_read_u16 keeps_read_u32 keeps_read_nonzero
  keeps_read_pid keeps_read_bool keeps_read_reason_code keeps_read_vbi keeps_read_binary
  keeps_read_string keeps_read_string_pair keeps_read_topic_name keeps_user_property_skip
  keeps_skip_field keeps_property_values keeps_body_while keeps_cond keeps_case_prod keeps_let

lemma keeps_puback_receive: "keeps (puback_receive k maxu rd pb h)"
  unfolding puback_receive_def puback_property_def by (intro receiver_intros)

lemma keeps_connack_receive: "keeps (connack_receive maxu rd pb h)"
  unfolding connack_receive_def connack_property_def by (intro receiver_intros)

lemma keeps_suback_receive: "keeps (suback_receive k maxf maxu rd pb h)"
proof -
  have c: "keeps (suback_consume n acc :: (_, ('e, 'p) rx_error, _) comp)" for n acc
    unfolding suback_consume_def by (intro receiver_intros)
  have p: "keeps (suback_property maxu rd pb acc)" for acc
    unfolding suback_property_def by (intro receiver_intros c)
  have r: "keeps (suback_reason_code k maxf rd acc :: (_, ('e, 'p) rx_error, _) comp)" for acc
    unfolding suback_reason_code_def by (intro receiver_intros)
  show ?thesis unfolding suback_receive_def by (intro receiver_intros p r)
qed

lemma keeps_disconnect_receive: "keeps (disconnect_receive maxu rd pb h)"
  unfolding disconnect_receive_def disconnect_property_def by (intro receiver_intros)

lemma keeps_publish_receive: "keeps (publish_receive maxs maxu rd pb h)"
proof -
  have c: "keeps (consume n acc :: (_, ('e, 'p) rx_error, _) comp)" for n acc
    unfolding consume_def by (intro receiver_intros)
  have p: "keeps (publish_property maxs maxu rd pb acc)" for acc
    unfolding publish_property_def by (intro receiver_intros c)
  have m: "keeps (\<lambda>r. map_err rx_of_body_read (body_store rd pb (br_remaining_len r)) r)"
    by (rule keepsI) (erule keepsD [OF keeps_map_err [OF body_store_keeps]])
  show ?thesis unfolding publish_receive_def by (intro receiver_intros keeps_case_qos p m)
qed

lemma keeps_ping_receive: "keeps (ping_receive k h)"
  unfolding ping_receive_def by (intro receiver_intros)

end

text \<open>The budget of the body: no receiver takes more from the transport than the remaining length.\<close>

sublocale byte_stream \<subseteq> budget: receiver_frame "within_body bytes" rd pb for pb
  by unfold_locales
    (auto intro: body_budget.keepsI body_read_within body_store_within body_skip_within)

text \<open>What a preorder on the transport, kept by its \<open>read\<close>, gives for receivers.\<close>

locale read_frame = frame Q
  for Q :: "'s \<Rightarrow> 's \<Rightarrow> bool" +
  fixes rd :: "('s, 'e) reader"
  assumes rd_keeps: "keeps (rd n)"
begin

definition along :: "('s, 'b) body_reader \<Rightarrow> ('s, 'b) body_reader \<Rightarrow> bool" where
  "along r r' \<longleftrightarrow> Q (br_r r) (br_r r')"

lemma along_simps [simp]:
  "along (r\<lparr>br_buffer := b\<rparr>) r' \<longleftrightarrow> along r r'" "along r r" "along r (r\<lparr>br_buffer := b\<rparr>)"
  by (simp_all add: along_def R_refl)

lemma keeps_skip_loop: "keeps (skip_loop rd n :: ('s, ('e, 'p) body_read_error, unit) comp)"
proof (induction n rule: less_induct)
  case (less n)
  show ?case
  proof (rule keepsI)
    fix s s' and x :: "(('e, 'p) body_read_error, unit) res"
    assume run: "skip_loop rd n s = (x, s')"
    show "Q s s'"
    proof (cases "n = 0")
      case True
      then show ?thesis using run R_refl by (simp add: skip_loop.simps)
    next
      case False
      obtain y s1 where y: "rd (min CHUNK_SIZE n) s = (y, s1)" by fastforce
      have Q1: "Q s s1" using keepsD [OF rd_keeps y] .
      show ?thesis
      proof (cases "\<exists>bs. y = Ok bs \<and> bs \<noteq> [] \<and> length bs \<le> n")
        case True
        then obtain bs where bs: "y = Ok bs" "bs \<noteq> []" "length bs \<le> n" by blast
        then have "skip_loop rd (n - length bs) s1 = (x, s')"
          using run y False by (subst (asm) skip_loop.simps) simp
        moreover have "n - length bs < n" using bs False by (cases bs) auto
        ultimately have "Q s1 s'" using keepsD [OF less.IH] by blast
        then show ?thesis using Q1 R_trans by blast
      next
        case nb: False
        then have "s' = s1"
          using run y False by (cases y) (auto simp: skip_loop.simps [of rd n s] split: if_splits)
        then show ?thesis using Q1 by simp
      qed
    qed
  qed
qed

end

sublocale read_frame \<subseteq> along: frame along
  by unfold_locales (auto simp: along_def R_refl intro: R_trans)

sublocale read_frame \<subseteq> along: receiver_frame along rd pb for pb :: "nat \<Rightarrow> ('b, 'p, 'm) comp"
proof unfold_locales
  show r: "along.keeps (body_read rd n)" for n
  proof (rule along.keepsI)
    fix r x r'
    assume run: "body_read rd n r = (x, r')"
    obtain y s' where y: "rd (min n (br_remaining_len r)) (br_r r) = (y, s')" by fastforce
    have "Q (br_r r) s'" using keepsD [OF rd_keeps y] .
    then show "along r r'"
      using run y by (cases y) (auto simp: body_read_def along_def R_refl split: if_splits)
  qed
  show "along.keeps (body_store rd pb n)" for n
  proof (rule along.keepsI)
    fix r x r'
    assume run: "body_store rd pb n r = (x, r')"
    obtain p b' where p: "pb n (br_buffer r) = (p, b')" by fastforce
    have "r' = r \<or> r' = r\<lparr>br_buffer := b'\<rparr> \<or> fill (read_error_of_body
        :: ('e, 'p) body_read_error \<Rightarrow> _) (body_read rd) n (r\<lparr>br_buffer := b'\<rparr>) = (x, r')"
      using run p by (cases p) (auto simp: body_store_def split: if_splits)
    then show "along r r'"
      using along.keepsD [OF along.keeps_fill [of "body_read rd"
          "read_error_of_body :: ('e, 'p) body_read_error \<Rightarrow> _" n, OF r]] by fastforce
  qed
  show "along.keeps (body_skip rd n :: (_, ('e, 'p) body_read_error, _) comp)" for n
  proof (rule along.keepsI)
    fix r r' and x :: "(('e, 'p) body_read_error, unit) res"
    assume run: "body_skip rd n r = (x, r')"
    obtain y :: "(('e, 'p) body_read_error, unit) res" and s'
      where y: "skip_loop rd n (br_r r) = (y, s')" by fastforce
    have "Q (br_r r) s'" using keepsD [OF keeps_skip_loop y] .
    then show "along r r'"
      using run y by (auto simp: body_skip_def along_def R_refl split: if_splits prod.splits)
  qed
qed

sublocale read_frame \<subseteq> plain: reader_frame Q rd "fill ReRead rd"
  by unfold_locales (rule rd_keeps, rule keeps_fill, rule rd_keeps)

section \<open>Senders\<close>

locale write_frame = frame Q
  for Q :: "'w \<Rightarrow> 'w \<Rightarrow> bool" +
  fixes wr :: "('w, 'e) writer"
  assumes wr_keeps: "keeps (wr bs)"
begin

lemma keeps_write_slice: "keeps (write_slice wr bs)"
proof (induction "length bs" arbitrary: bs rule: less_induct)
  case less
  show ?case
  proof (rule keepsI)
    fix w x w'
    assume run: "write_slice wr bs w = (x, w')"
    show "Q w w'"
    proof (cases "bs = []")
      case True
      then show ?thesis using run R_refl by (simp add: write_slice.simps)
    next
      case False
      obtain y w1 where y: "wr bs w = (y, w1)" by fastforce
      have Q1: "Q w w1" using keepsD [OF wr_keeps y] .
      show ?thesis
      proof (cases "\<exists>n. y = Ok n \<and> n \<noteq> 0 \<and> n \<le> length bs")
        case True
        then obtain n where n: "y = Ok n" "n \<noteq> 0" "n \<le> length bs" by blast
        then have "write_slice wr (drop n bs) w1 = (x, w')"
          using run y False by (subst (asm) write_slice.simps) simp
        then have "Q w1 w'" using keepsD [OF less [of "drop n bs"]] n False by simp
        then show ?thesis using Q1 R_trans by blast
      next
        case nb: False
        then have "w' = w1"
          using run y False by (cases y) (auto simp: write_slice.simps [of wr bs w] split: if_splits)
        then show ?thesis using Q1 by simp
      qed
    qed
  qed
qed

lemma keeps_write_ints:
  "keeps (write_u8 wr a)" "keeps (write_u16 wr b)" "keeps (write_u32 wr c)" "keeps (write_pid wr b)"
  "keeps (write_bool wr d)" "keeps (write_reason_code wr e)"
  unfolding write_u8_def write_u16_def write_u32_def write_pid_def write_bool_def write_reason_code_def
  by (intro keeps_write_slice)+

lemma keeps_write_vbi: "keeps (write_vbi wr v)"
proof -
  have "keeps (write_vbi_loop wr x)" for x
  proof (induction "unat x" arbitrary: x rule: less_induct)
    case less
    let ?b = "\<lambda>x'. if x' > 0 then ucast (x mod 128) OR 128 else ucast (x mod 128) :: u8"
    have "keeps (bnd (write_u8 wr (?b (x div 128)))
        (\<lambda>_ w'. if x div 128 = 0 then (Ok (), w') else write_vbi_loop wr (x div 128) w'))"
    proof (rule keeps_bnd [OF keeps_write_ints(1)])
      show "keeps (\<lambda>w'. if x div 128 = 0 then (Ok (), w') else write_vbi_loop wr (x div 128) w')" for u
      proof (cases "x div 128 = 0")
        case True
        then show ?thesis by (auto intro: keepsI simp: R_refl)
      next
        case False
        then show ?thesis using less [OF u32_div_less [OF False]] by simp
      qed
    qed
    then show ?case
      by (rule_tac keepsI) (subst (asm) (2) write_vbi_loop.simps, auto simp: Let_def dest: keepsD)
  qed
  then show ?thesis unfolding write_vbi_def .
qed

lemma keeps_write_texts:
  "keeps (write_binary wr b)" "keeps (write_string wr s)" "keeps (write_string_pair wr p)"
  unfolding write_string_pair_def write_string_def write_binary_def
  by (intro keeps_bnd keeps_write_ints keeps_write_slice)+

lemma keeps_write_option: "(\<And>v. keeps (f v)) \<Longrightarrow> keeps (write_option f x)"
  unfolding write_option_def by auto

lemma keeps_write_prop: "keeps c \<Longrightarrow> keeps (write_prop wr p c)"
  unfolding write_prop_def write_property_type_def by (intro keeps_bnd keeps_write_ints)

lemma keeps_write_lists:
  "keeps (write_user_properties wr us)" "keeps (write_subscription_filters wr fs)"
  "keeps (write_topic_filters wr ts)"
proof -
  show "keeps (write_user_properties wr us)"
    by (induction us) (auto intro: keeps_bnd keeps_write_prop keeps_write_texts)
  show "keeps (write_subscription_filters wr fs)"
    by (induction fs) (auto intro: keeps_bnd keeps_write_ints keeps_write_texts)
  show "keeps (write_topic_filters wr ts)"
    by (induction ts) (auto intro: keeps_bnd keeps_write_texts)
qed

lemma keeps_write_values:
  "keeps (write_fixed_header wr h)" "keeps (write_session_expiry_interval wr i)"
  "keeps (write_receive_maximum wr m)" "keeps (write_maximum_packet_size wr l)"
  unfolding write_fixed_header_def write_session_expiry_interval_def write_receive_maximum_def
    write_maximum_packet_size_def write_property_type_def
  by (auto intro!: keeps_bnd keeps_write_ints keeps_write_vbi keeps_write_prop
      split: maximum_packet_size.split session_expiry_interval.split)

lemmas sender_intros = keeps_map_err keeps_bnd keeps_unwrap keeps_if keeps_ret keeps_write_option
  keeps_write_prop keeps_write_ints keeps_write_vbi keeps_write_texts keeps_write_lists
  keeps_write_values keeps_write_slice

lemma keeps_sends:
  "keeps (connect_send wr a)" "keeps (publish_send wr b)" "keeps (puback_send wr k c)"
  "keeps (subscribe_send wr d)" "keeps (unsubscribe_send wr e)" "keeps (disconnect_send wr f)"
  "keeps (ping_send wr g)"
  unfolding connect_send_def connect_write_def write_will_def publish_send_def publish_write_def
    puback_send_def puback_write_def subscribe_send_def subscribe_write_def unsubscribe_send_def
    unsubscribe_write_def disconnect_send_def disconnect_write_def ping_send_def
  by (intro sender_intros)+

end

end
