(* ===== verification/Mqtt_Raw.thy ===== *)
theory Mqtt_Raw
  imports Mqtt_Header Mqtt_Receivers
begin

text \<open>
  The connection below the client: \<open>src/client/raw/net.rs\<close>, \<open>src/client/raw/err.rs\<close> and
  \<open>src/client/raw/mod.rs\<close>. The transport, code outside this repository, is a record of the functions
  that are called on it. Its error kinds are a type of their own, of which the library names two.
\<close>

section \<open>Transport and network state\<close>

record ('n, 'e, 'k) transport =
  tr_read :: "('n, 'e) reader"
  tr_write :: "('n, 'e) writer"
  tr_flush :: "('n, 'e, unit) comp"
  tr_kind :: "'e \<Rightarrow> 'k"
  KindNotConnected :: 'k
  KindWriteZero :: 'k

datatype 'n net_state = NOk 'n | NFaulted 'n reason_code | NTerminated

datatype net_state_error = NeFaulted | NeTerminated

definition net_is_ok :: "'n net_state \<Rightarrow> bool" where
  "net_is_ok n = (case n of NOk _ \<Rightarrow> True | _ \<Rightarrow> False)"

fun net_get :: "'n net_state \<Rightarrow> net_state_error + 'n" where
  "net_get (NOk n) = Inr n"
| "net_get (NFaulted _ _) = Inl NeFaulted"
| "net_get NTerminated = Inl NeTerminated"

fun net_fail :: "reason_code \<Rightarrow> 'n net_state \<Rightarrow> 'n net_state" where
  "net_fail c (NOk n) = NFaulted n c"
| "net_fail c (NFaulted n _) = NFaulted n c"
| "net_fail c NTerminated = NTerminated"

text \<open>The state is left \<open>Terminated\<close>, the default of \<open>mem::take\<close>; the result is what it held.\<close>

fun net_terminate :: "'n net_state \<Rightarrow> 'n option \<times> 'n net_state" where
  "net_terminate (NOk n) = (Some n, NTerminated)"
| "net_terminate (NFaulted n _) = (Some n, NTerminated)"
| "net_terminate NTerminated = (None, NTerminated)"

section \<open>Errors\<close>

datatype ('k, 'p) raw_error = RawNetwork 'k | RawDisconnected | RawAlloc 'p | RawServer

fun raw_of_tx :: "('n, 'e, 'k) transport \<Rightarrow> 'e tx_error \<Rightarrow> ('k, 'p) raw_error" where
  "raw_of_tx tr TxWriteZero = RawNetwork (KindWriteZero tr)"
| "raw_of_tx tr (TxWrite e) = RawNetwork (tr_kind tr e)"

fun raw_of_rx ::
    "('n, 'e, 'k) transport \<Rightarrow> ('e, 'p) rx_error \<Rightarrow> ('k, 'p) raw_error \<times> reason_code option" where
  "raw_of_rx tr (RxRead e) = (RawNetwork (tr_kind tr e), None)"
| "raw_of_rx tr (RxBuffer b) = (RawAlloc b, Some RcImplementationSpecificError)"
| "raw_of_rx tr RxUnexpectedEOF = (RawNetwork (KindNotConnected tr), None)"
| "raw_of_rx tr RxMalformedPacket = (RawServer, Some RcMalformedPacket)"
| "raw_of_rx tr RxProtocolError = (RawServer, Some RcProtocolError)"
| "raw_of_rx tr RxInvalidTopicName = (RawServer, Some RcTopicNameInvalid)"

section \<open>The raw client\<close>

text \<open>
  The network state, the buffer provider and the header under reception. \<open>ra_dropped\<close> is no field of
  the source: it keeps the transports that were dropped, newest first, so that what was written to
  a connection can be stated after it was closed.
\<close>

record ('n, 'b) raw =
  ra_n :: "'n net_state"
  ra_buf :: 'b
  ra_header :: header_state
  ra_dropped :: "'n list"

definition new_disconnected :: "'b \<Rightarrow> ('n, 'b) raw" where
  "new_disconnected buf =
     \<lparr>ra_n = NTerminated, ra_buf = buf, ra_header = header_state_new, ra_dropped = []\<rparr>"

definition drop_net :: "('n, 'b) raw \<Rightarrow> ('n, 'b) raw" where
  "drop_net r = (let (n, st) = net_terminate (ra_n r) in
     r\<lparr>ra_n := st, ra_dropped := (case n of None \<Rightarrow> [] | Some n \<Rightarrow> [n]) @ ra_dropped r\<rparr>)"

text \<open>\<open>set_net\<close> asserts that the network is not in \<open>Ok\<close> state; a faulted one is dropped.\<close>

definition set_net :: "'n \<Rightarrow> (('n, 'b) raw, 'x, unit) comp" where
  "set_net net r = (if net_is_ok (ra_n r) then (Panic, r) else (Ok (), (drop_net r)\<lparr>ra_n := NOk net\<rparr>))"

definition close_with :: "reason_code option \<Rightarrow> ('n, 'b) raw \<Rightarrow> ('n, 'b) raw" where
  "close_with reason_code r = (case reason_code of
      Some c \<Rightarrow> r\<lparr>ra_n := net_fail c (ra_n r)\<rparr>
    | None \<Rightarrow> drop_net r)"

text \<open>\<open>abort\<close>; the arm for \<open>Ok\<close> is behind the debug assertion.\<close>

definition raw_abort ::
    "('n, 'e, 'k) transport \<Rightarrow> (('n, 'b) raw, ('k, 'p) raw_error, unit) comp" where
  "raw_abort tr r = (case ra_n r of
      NOk _ \<Rightarrow> (Panic, r)
    | NFaulted n c \<Rightarrow>
        (let packet = disconnect_new c None None [];
             (x, n') = map_err (raw_of_tx tr) (disconnect_send (tr_write tr) packet) n;
             r' = r\<lparr>ra_n := NFaulted n' c\<rparr>
         in if x = Panic then (Panic, r') else (x, close_with None r'))
    | NTerminated \<Rightarrow> (Ok (), r))"

text \<open>
  \<open>handle_rx\<close> and \<open>handle_tx\<close>, which return the error of the call after they have closed the
  connection or scheduled a DISCONNECT; the errors they do not expect are \<open>unreachable!\<close>.
\<close>

definition handle_rx ::
    "('n, 'e, 'k) transport \<Rightarrow> ('e, 'p) rx_error \<Rightarrow> (('n, 'b) raw, ('k, 'p) raw_error, 'a) comp" where
  "handle_rx tr e r = (let (e', c) = raw_of_rx tr e in
     case e' of RawDisconnected \<Rightarrow> (Panic, r) | _ \<Rightarrow> (Err e', close_with c r))"

definition handle_tx ::
    "('n, 'e, 'k) transport \<Rightarrow> 'e tx_error \<Rightarrow> (('n, 'b) raw, ('k, 'p) raw_error, 'a) comp" where
  "handle_tx tr e r = (let e' = raw_of_tx tr e in
     case e' of RawNetwork _ \<Rightarrow> (Err e', drop_net r) | _ \<Rightarrow> (Panic, r))"

text \<open>What every operation does first: without an \<open>Ok\<close> network it returns \<open>Disconnected\<close>.\<close>

definition with_net ::
    "('n \<Rightarrow> (('n, 'b) raw, ('k, 'p) raw_error, 'a) comp) \<Rightarrow> (('n, 'b) raw, ('k, 'p) raw_error, 'a) comp"
  where
  "with_net f r = (case net_get (ra_n r) of Inl _ \<Rightarrow> (Err RawDisconnected, r) | Inr n \<Rightarrow> f n r)"

definition recv_header ::
    "('n, 'e, 'k) transport \<Rightarrow> (('n, 'b) raw, ('k, 'p) raw_error, fixed_header) comp" where
  "recv_header tr = with_net (\<lambda>net r.
     let (x, (h, n')) = header_loop (tr_read tr) (ra_header r, net);
         r' = r\<lparr>ra_n := NOk n', ra_header := h\<rparr>
     in case x of Ok header \<Rightarrow> (Ok header, r') | Err e \<Rightarrow> handle_rx tr (rx_of_read e) r' | Panic \<Rightarrow> (Panic, r'))"

text \<open>\<open>receive\<close> is \<open>RxPacket::receive\<close> of the packet type that is expected.\<close>

definition recv_body ::
    "('n, 'e, 'k) transport
     \<Rightarrow> (fixed_header \<Rightarrow> (('n, 'b) body_reader, ('e, 'p) rx_error, 'a) comp)
     \<Rightarrow> fixed_header \<Rightarrow> (('n, 'b) raw, ('k, 'p) raw_error, 'a) comp" where
  "recv_body tr receive header = with_net (\<lambda>net r.
     let (x, br) = receive header
            (body_reader_new net (ra_buf r) (vbi_size (remaining_len header)));
         r' = r\<lparr>ra_n := NOk (br_r br), ra_buf := br_buffer br\<rparr>
     in case x of Ok packet \<Rightarrow> (Ok packet, r') | Err e \<Rightarrow> handle_rx tr e r' | Panic \<Rightarrow> (Panic, r'))"

text \<open>\<open>packet_send\<close> is \<open>TxPacket::send\<close> of the packet.\<close>

definition raw_send ::
    "('n, 'e, 'k) transport \<Rightarrow> (('n, 'e) writer \<Rightarrow> ('n, 'e tx_error, unit) comp)
     \<Rightarrow> (('n, 'b) raw, ('k, 'p) raw_error, unit) comp" where
  "raw_send tr packet_send = with_net (\<lambda>net r.
     let (x, n') = packet_send (tr_write tr) net;
         r' = r\<lparr>ra_n := NOk n'\<rparr>
     in case x of Ok u \<Rightarrow> (Ok u, r') | Err e \<Rightarrow> handle_tx tr e r' | Panic \<Rightarrow> (Panic, r'))"

definition raw_flush ::
    "('n, 'e, 'k) transport \<Rightarrow> (('n, 'b) raw, ('k, 'p) raw_error, unit) comp" where
  "raw_flush tr = with_net (\<lambda>net r.
     let (x, n') = tr_flush tr net;
         r' = r\<lparr>ra_n := NOk n'\<rparr>
     in case x of Ok u \<Rightarrow> (Ok u, r') | Err e \<Rightarrow> handle_tx tr (tx_of_write (WrWrite e)) r'
      | Panic \<Rightarrow> (Panic, r'))"

section \<open>Errors and the state of the network\<close>

lemma net_is_ok_simps [simp]:
  "net_is_ok (NOk n)" "\<not> net_is_ok (NFaulted n c)" "\<not> net_is_ok NTerminated"
  "\<not> net_is_ok (net_fail c st)"
  by (cases st; simp add: net_is_ok_def)+

lemma drop_net_simps [simp]:
  "ra_n (drop_net r) = NTerminated" "ra_buf (drop_net r) = ra_buf r" "ra_header (drop_net r) = ra_header r"
  by (cases "ra_n r"; simp add: drop_net_def)+

lemma drop_net_dropped:
  "ra_dropped (drop_net r) = (case ra_n r of NOk n \<Rightarrow> [n] | NFaulted n _ \<Rightarrow> [n] | NTerminated \<Rightarrow> []) @ ra_dropped r"
  by (cases "ra_n r") (simp_all add: drop_net_def)

lemma close_with_not_ok [simp]: "\<not> net_is_ok (ra_n (close_with c r))"
  by (cases c) (simp_all add: close_with_def)

lemma handle_rxD: "handle_rx tr e r = (y, r') \<Longrightarrow> (\<exists>e'. y = Err e') \<and> \<not> net_is_ok (ra_n r')"
  by (cases e) (auto simp: handle_rx_def)

lemma handle_txD: "handle_tx tr e r = (y, r') \<Longrightarrow> (\<exists>e'. y = Err e') \<and> \<not> net_is_ok (ra_n r')"
  by (cases e) (auto simp: handle_tx_def)

text \<open>
  A computation is \<^emph>\<open>strict\<close> in the network when it succeeds only with a network that is and stays
  \<open>Ok\<close>, and leaves one that is not \<open>Ok\<close> when it fails.
\<close>

definition net_strict :: "(('n, 'b) raw, 'x, 'a) comp \<Rightarrow> bool" where
  "net_strict m \<longleftrightarrow> (\<forall>r x r'. m r = (x, r') \<longrightarrow>
     (\<forall>a. x = Ok a \<longrightarrow> net_is_ok (ra_n r) \<and> net_is_ok (ra_n r'))
   \<and> (\<forall>e. x = Err e \<longrightarrow> \<not> net_is_ok (ra_n r')))"

lemma net_strict_with_net:
  assumes "\<And>n r x r'. f n r = (x, r') \<Longrightarrow> (\<forall>a. x = Ok a \<longrightarrow> net_is_ok (ra_n r'))
     \<and> (\<forall>e. x = Err e \<longrightarrow> \<not> net_is_ok (ra_n r'))"
  shows "net_strict (with_net f)"
  unfolding net_strict_def with_net_def
  by (auto split: sum.splits dest: assms)
     (metis net_get.elims sum.distinct(1) net_is_ok_simps)+

lemma handled:
  "(case x of Ok a \<Rightarrow> (Ok a, r) | Err e \<Rightarrow> handle_rx tr (g e) r | Panic \<Rightarrow> (Panic, r)) = (y, r')
     \<Longrightarrow> net_is_ok (ra_n r)
     \<Longrightarrow> (\<forall>a. y = Ok a \<longrightarrow> net_is_ok (ra_n r')) \<and> (\<forall>e. y = Err e \<longrightarrow> \<not> net_is_ok (ra_n r'))"
  "(case z of Ok a \<Rightarrow> (Ok a, r) | Err e \<Rightarrow> handle_tx tr (f e) r | Panic \<Rightarrow> (Panic, r)) = (y, r')
     \<Longrightarrow> net_is_ok (ra_n r)
     \<Longrightarrow> (\<forall>a. y = Ok a \<longrightarrow> net_is_ok (ra_n r')) \<and> (\<forall>e. y = Err e \<longrightarrow> \<not> net_is_ok (ra_n r'))"
  by (cases x; auto dest: handle_rxD) (cases z; auto dest: handle_txD)

lemma net_strict_raw [intro, simp]:
  "net_strict (recv_header tr)" "net_strict (recv_body tr receive header)"
  "net_strict (raw_send tr packet_send)" "net_strict (raw_flush tr)"
  unfolding recv_header_def recv_body_def raw_send_def raw_flush_def
  by (rule net_strict_with_net; auto simp: Let_def split: prod.splits dest: handled)+

section \<open>Connections\<close>

text \<open>
  What is assumed of a connection: one half takes the bytes that are written, the other half holds
  the bytes of the server, neither call touches the other half, and \<open>flush\<close> succeeds and touches
  none.
\<close>

locale connection = byte_sink "tr_write tr" out room + packet_body "tr_read tr" bytes pb free tail
  for tr :: "('n, 'e, 'k) transport" and out room bytes
    and pb :: "nat \<Rightarrow> ('b, 'p, 'm) comp" and free tail +
  assumes write_input: "tr_write tr bs n = (x, n') \<Longrightarrow> bytes n' = bytes n"
    and read_output: "tr_read tr k n = (y, n') \<Longrightarrow> out n' = out n \<and> (\<forall>j. room n j \<longrightarrow> room n' j)"
    and flush_ok: "\<exists>n'. tr_flush tr n = (Ok (), n') \<and> out n' = out n \<and> bytes n' = bytes n
      \<and> (\<forall>j. room n j \<longrightarrow> room n' j)"

sublocale connection \<subseteq> unread: write_frame "\<lambda>n n'. bytes n' = bytes n" "tr_write tr"
  by unfold_locales (auto intro!: frame.keepsI simp: frame_def dest: write_input)

sublocale connection \<subseteq> written: read_frame "\<lambda>n n'. out n' = out n \<and> (\<forall>j. room n j \<longrightarrow> room n' j)" "tr_read tr"
  by unfold_locales (auto intro!: frame.keepsI simp: frame_def dest: read_output)

lemma byte_source_store:
  assumes "byte_source rd bytes"
  shows "byte_store rd bytes (\<lambda>_ _. True) (fill ReRead rd)"
proof -
  have m: "byte_memory rd bytes (\<lambda>_ _. True)"
    by (intro byte_memory.intro byte_memory_axioms.intro assms) simp
  show ?thesis
    by (intro byte_store.intro byte_store_axioms.intro m) (use byte_memory.fill_run [OF m] in blast)
qed

lemma read_fixed_header_run:
  assumes "byte_source rd bytes" and "bytes s = fixed_header_bytes h @ rest"
    and "header_packet_type h \<noteq> None" and "vbi_value (remaining_len h) \<le> MAX_ENCODABLE"
  shows "\<exists>s'. read_fixed_header rd s = (Ok h, s') \<and> bytes s' = rest"
proof -
  note store = byte_source_store [OF assms(1)]
  let ?v = "vbi_value (remaining_len h)"
  obtain s1 where s1: "read_u8 rd s = (Ok (type_and_flags h), s1)" "bytes s1 = vbi_bytes ?v @ rest"
    using byte_store.reads_u8 [OF store, of "type_and_flags h"] assms(2)
    unfolding byte_store.reads_def [OF store] fixed_header_bytes_def by fastforce
  obtain s2 where "read_vbi rd s1 = (Ok (VarByteInt ?v), s2)" "bytes s2 = rest"
    using byte_store.reads_vbi [OF store assms(4)] s1(2)
    unfolding byte_store.reads_def [OF store] by fastforce
  moreover have "VarByteInt ?v = remaining_len h" by (cases "remaining_len h") simp
  ultimately show ?thesis
    using s1(1) assms(3) by (auto simp: read_fixed_header_def header_packet_type_def run_simps)
qed

context connection
begin

text \<open>\<open>n'\<close> holds the input \<open>inp\<close>, and has the output and room of \<open>n\<close>.\<close>

definition same_output :: "'n \<Rightarrow> u8 list \<Rightarrow> 'n \<Rightarrow> bool" where
  "same_output n inp n' \<longleftrightarrow> bytes n' = inp \<and> out n' = out n \<and> (\<forall>j. room n j \<longrightarrow> room n' j)"

lemma send_flush_run:
  assumes "ra_n r = NOk n" and "ps (tr_write tr) n = (Ok (), n1)" and "bytes n1 = bytes n"
  shows "\<exists>n'. bnd (raw_send tr ps) (\<lambda>_. raw_flush tr) r = (Ok (), r\<lparr>ra_n := NOk n'\<rparr>)
    \<and> same_output n1 (bytes n) n'"
  using flush_ok [of n1] assms
  by (auto simp: raw_send_def raw_flush_def with_net_def bnd_def same_output_def)

lemma recv_header_run:
  assumes "ra_n r = NOk n" and "header_fresh (ra_header r)" and "bytes n = fixed_header_bytes h @ rest"
    and "header_packet_type h \<noteq> None" and "vbi_value (remaining_len h) \<le> MAX_ENCODABLE"
  shows "\<exists>n' hs. recv_header tr r = (Ok h, r\<lparr>ra_n := NOk n', ra_header := hs\<rparr>) \<and> header_fresh hs
    \<and> same_output n rest n'"
proof -
  obtain n' where n': "read_fixed_header (tr_read tr) n = (Ok h, n')" "bytes n' = rest"
    using read_fixed_header_run [OF byte_source_axioms assms(3-5)] by blast
  obtain x hs n'' where l: "header_loop (tr_read tr) (ra_header r, n) = (x, (hs, n''))"
    by (metis prod.exhaust)
  have "written.keeps (read_fixed_header (tr_read tr))"
    unfolding read_fixed_header_def
    by (intro written.keeps_bnd written.plain.keeps_read_u8 written.keeps_if written.keeps_fail
        written.plain.keeps_read_vbi written.keeps_ret)
  from written.keepsD [OF this n'(1)] have "same_output n rest n'"
    using n'(2) by (simp add: same_output_def)
  moreover have "x = Ok h" "n'' = n'" "header_fresh hs"
    using header_loop_agrees [OF assms(2), of "tr_read tr" n] l n' by (auto simp: header_agrees_def)
  ultimately show ?thesis
    using l assms(1) by (auto simp: recv_header_def with_net_def)
qed

lemma recv_body_run:
  assumes "ra_n r = NOk n" and "written.along.keeps (receive h)"
    and "receive h (body_reader_new n (ra_buf r) (vbi_size (remaining_len h))) = (Ok p, br)"
  shows "recv_body tr receive h r = (Ok p, r\<lparr>ra_n := NOk (br_r br), ra_buf := br_buffer br\<rparr>)
    \<and> same_output n (bytes (br_r br)) (br_r br)"
  using written.along.keepsD [OF assms(2,3)] assms(1,3)
  by (auto simp: recv_body_def with_net_def same_output_def written.along_def body_reader_new_def)

end

text \<open>A pair of the slice reader and the slice writer of the tests.\<close>

definition slice_connection :: "(slice_reader \<times> slice_writer, unit, bool) transport" where
  "slice_connection =
     \<lparr>tr_read = (\<lambda>k (s, w). let (x, s') = slice_read k s in (x, (s', w))),
      tr_write = (\<lambda>bs (s, w). let (x, w') = slice_write bs w in (x, (s, w'))),
      tr_flush = ret (), tr_kind = (\<lambda>_. False), KindNotConnected = True, KindWriteZero = False\<rparr>"

lemma slice_connection_read:
  "tr_read slice_connection k n = (x, n') \<longleftrightarrow> slice_read k (fst n) = (x, fst n') \<and> snd n' = snd n"
  by (cases n; cases n') (auto simp: slice_connection_def split: prod.splits)

lemma slice_connection_write:
  "tr_write slice_connection bs n = (x, n') \<longleftrightarrow> slice_write bs (snd n) = (x, snd n') \<and> fst n' = fst n"
  by (cases n; cases n') (auto simp: slice_connection_def split: prod.splits)

lemma slice_connection_sink:
  "byte_sink (tr_write slice_connection) (\<lambda>n. slice_out (snd n)) (\<lambda>n. slice_room (snd n))"
proof unfold_locales
  fix bs :: "u8 list" and n :: "slice_reader \<times> slice_writer" and k
  assume "bs \<noteq> []" and "slice_room (snd n) (length bs + k)"
  from slice_out.wr_ok [OF this] obtain m w' where
    "slice_write bs (snd n) = (Ok m :: (unit, nat) res, w')" "0 < m" "m \<le> length bs"
    "slice_out w' = slice_out (snd n) @ take m bs" "slice_room w' (length bs - m + k)" by blast
  then show "\<exists>m n'. tr_write slice_connection bs n = (Ok m, n') \<and> 0 < m \<and> m \<le> length bs
      \<and> slice_out (snd n') = slice_out (snd n) @ take m bs \<and> slice_room (snd n') (length bs - m + k)"
    by (intro exI [of _ m] exI [of _ "(fst n, w')"]) (simp add: slice_connection_write)
qed

lemma slice_connection_source: "byte_source (tr_read slice_connection) (\<lambda>n. slice_bytes (fst n))"
proof unfold_locales
  fix k :: nat and n :: "slice_reader \<times> slice_writer"
  assume "0 < k" and "slice_bytes (fst n) \<noteq> []"
  from slice.rd_ok [OF this] obtain bs s' where "slice_read k (fst n) = (Ok bs :: (unit, u8 list) res, s')" "bs \<noteq> []"
    "length bs \<le> k" "slice_bytes (fst n) = bs @ slice_bytes s'" by blast
  then show "\<exists>bs n'. tr_read slice_connection k n = (Ok bs, n') \<and> bs \<noteq> [] \<and> length bs \<le> k
      \<and> slice_bytes (fst n) = bs @ slice_bytes (fst n')"
    by (intro exI [of _ bs] exI [of _ "(s', snd n)"]) (simp add: slice_connection_read)
qed

lemma slice_connection_stream: "byte_stream (tr_read slice_connection) (\<lambda>n. slice_bytes (fst n))"
  by unfold_locales
     (auto simp: slice_connection_read dest: slice_stream.rd_Ok slice_stream.rd_Err slice_stream.rd_Panic)

interpretation slice_conn: connection slice_connection "\<lambda>n. slice_out (snd n)"
  "\<lambda>n. slice_room (snd n)" "\<lambda>n. slice_bytes (fst n)" alloc_provide "\<lambda>b k. True" tail for tail
  by (intro connection.intro packet_body.intro slice_connection_sink slice_connection_source
      slice_connection_stream alloc.buffer_provider_axioms connection_axioms.intro)
     (auto simp: slice_connection_write slice_connection_read,
      auto simp: slice_connection_def run_simps)

section \<open>Closing a connection\<close>

definition disconnect_bytes :: "reason_code \<Rightarrow> u8 list" where
  "disconnect_bytes c = [0xE0, 2, rc_value c, 0]"

lemma writes_plain_disconnect:
  assumes "byte_sink wr out room"
  shows "byte_sink.writes out room (disconnect_write wr (disconnect_new c None None [])) (disconnect_bytes c)"
proof -
  note sink = byte_sink.writes_thn [OF assms] byte_sink.writes_slice [OF assms] byte_sink.writes_vbi [OF assms]
    byte_sink.writes_ret [OF assms]
  have v: "vbi_bytes 0 = [0]" "vbi_bytes 2 = [2]" by (simp_all add: vbi_bytes.simps)
  have l: "disconnect_properties_length (disconnect_new c None None []) = Some (VarByteInt 0)"
      "disconnect_remaining_len (disconnect_new c None None []) = Some (VarByteInt 2)"
    by (simp_all add: disconnect_properties_length_def disconnect_remaining_len_def disconnect_new_def
        option_written_len_def user_properties_written_len_def vbi_new_unchecked_def vbi_written_len_def
        vbi_size_def MAX_ENCODABLE_def)
  have "byte_sink.writes out room (thn (thn (write_slice wr [0xE0]) (write_vbi wr (VarByteInt 2)))
      (thn (write_slice wr [rc_value c]) (thn (write_vbi wr (VarByteInt 0)) (ret ()))))
      (([0xE0] @ vbi_bytes (vbi_value (VarByteInt 2))) @ [rc_value c] @ vbi_bytes (vbi_value (VarByteInt 0)) @ [])"
    by (intro sink)
  then show ?thesis
    unfolding disconnect_write_def l unwrap_Some
    by (simp add: write_fixed_header_def fixed_header_new_def write_u8_def
        write_reason_code_def disconnect_new_def write_option_def disconnect_bytes_def v)
qed

text \<open>C35: Giving up a connection after an error that the library blames on the server: \<open>abort\<close> sends a
  DISCONNECT packet with the reason code that the error left behind, four bytes, and then closes
  the connection; nothing else is written to it.\<close>

theorem abort_sends_disconnect:
  assumes "byte_sink (tr_write tr) out room" and "ra_n r = NFaulted n c" and "room n 4"
  shows "\<exists>n' r'. raw_abort tr r = (Ok (), r') \<and> ra_n r' = NTerminated
    \<and> ra_dropped r' = n' # ra_dropped r \<and> out n' = out n @ [0xE0, 2, rc_value c, 0]"
proof -
  have "room n (length (disconnect_bytes c) + 0)" using assms(3) by (simp add: disconnect_bytes_def eval_nat_numeral)
  from byte_sink.writesD [OF assms(1) writes_plain_disconnect [OF assms(1)] this] obtain n' where
    "disconnect_write (tr_write tr) (disconnect_new c None None []) n = (Ok (), n')"
    "out n' = out n @ disconnect_bytes c" by blast
  then show ?thesis
    using assms(2)
    by (simp add: raw_abort_def disconnect_send_def close_with_def drop_net_dropped disconnect_bytes_def)
qed

theorem abort_sends_disconnect_witness:
  "\<exists>n' r'. raw_abort slice_connection
       \<lparr>ra_n = NFaulted (slice_reader_new [], slice_writer_new (replicate 8 0)) RcProtocolError,
        ra_buf = (), ra_header = header_state_new, ra_dropped = []\<rparr>
      = (Ok () :: ((bool, unit) raw_error, unit) res, r') \<and> ra_n r' = NTerminated
    \<and> ra_dropped r' = n' # [] \<and> slice_out (snd n')
        = slice_out (snd (slice_reader_new [], slice_writer_new (replicate 8 0)))
            @ [0xE0, 2, rc_value RcProtocolError, 0]"
  using abort_sends_disconnect [OF slice_connection_sink,
      of "\<lparr>ra_n = NFaulted (slice_reader_new [], slice_writer_new (replicate 8 0)) RcProtocolError,
        ra_buf = (), ra_header = header_state_new, ra_dropped = []\<rparr>"]
  by (simp add: slice_room_def slice_writer_new_def)

section \<open>A header that outlives its connection\<close>

text \<open>C36: The header under reception is not reset when its connection is lost. When a connection ends
  after the first byte \<open>t\<close> of a header and the client gets a new one, the first byte \<open>b\<close> of the new
  connection, here smaller than 128, is taken for the remaining length of the old packet: the
  header that is received has the type of the lost packet, and the type byte of the new packet has
  become its length.\<close>

theorem stale_header_after_reconnect:
  assumes "header_fresh (ra_header r)" and "ra_n r = NOk n"
    and "tr_read tr 1 n = (Ok [t], n')" and "tr_read tr 1 n' = (Ok [], n'')"
    and "from_type_and_flags t \<noteq> None" and "tr_read tr 1 m = (Ok [b], m')" and "b < 128"
  shows "\<exists>r1 r2 r3. recv_header tr r
       = (Err (RawNetwork (KindNotConnected tr)) :: (('k, 'p) raw_error, fixed_header) res, r1)
    \<and> set_net m r1 = (Ok () :: (('k, 'p) raw_error, unit) res, r2)
    \<and> recv_header tr r2 = (Ok \<lparr>type_and_flags = t, remaining_len = VarByteInt (ucast b)\<rparr>
         :: (('k, 'p) raw_error, fixed_header) res, r3)"
proof -
  let ?h = "(ra_header r)\<lparr>hs_buffer := (hs_buffer (ra_header r))[0 := t], hs_read := 1\<rparr>"
  let ?r = "r\<lparr>ra_n := NOk n'', ra_header := ?h\<rparr>"
  have h: "length (hs_buffer (ra_header r)) = 5" "hs_read (ra_header r) = 0"
    using assms(1) by (simp_all add: header_fresh_def)
  have b: "b AND 128 = 0" using assms(7) continuation_iff [of b] by auto
  have "take_bit 7 b = b"
    using assms(7) by (simp add: take_bit_eq_mod word_unat_eq_iff unat_mod word_less_nat_alt)
  then have b7: "b AND 0x7F = b" by (simp add: seven_bits(1) take_bit_eq_mask)
  obtain c d e f g where "hs_buffer (ra_header r) = [c, d, e, f, g]"
    using h(1) by (auto simp: eval_nat_numeral length_Suc_conv)
  then have buf: "take 1 (drop 1 ((hs_buffer ?h)[1 := b])) = [b]" "(hs_buffer ?h)[1 := b] ! 0 = t"
      "(hs_buffer ?h)[1 := b] ! 1 = b" "length (hs_buffer ?h) = 5"
    by simp_all
  have "unat b < 256" using unsigned_less [of b] by simp
  then have "(ucast b :: u32) \<le> MAX_ENCODABLE"
    by (simp add: MAX_ENCODABLE_def word_le_nat_alt unsigned_ucast_eq take_bit_eq_mod)
  then have v: "from_slice_unchecked [b] = Some (VarByteInt (ucast b))"
    using b b7 by (simp add: from_slice_unchecked_def vbi_new_unchecked_def)
  have "header_loop (tr_read tr) (ra_header r, n) = (Err ReUnexpectedEOF, (?h, n''))"
    using h assms(3-5) by (simp add: header_loop.simps header_update_def)
  then have "recv_header tr r = (Err (RawNetwork (KindNotConnected tr))
      :: (('k, 'p) raw_error, fixed_header) res, drop_net ?r)"
    using assms(2) by (simp add: recv_header_def with_net_def handle_rx_def close_with_def)
  moreover have "set_net m (drop_net ?r) = (Ok () :: (('k, 'p) raw_error, unit) res, (drop_net (drop_net ?r))\<lparr>ra_n := NOk m\<rparr>)"
    by (simp add: set_net_def)
  moreover have "header_loop (tr_read tr) (?h, m)
      = (Ok \<lparr>type_and_flags = t, remaining_len = VarByteInt (ucast b)\<rparr>,
         (?h\<lparr>hs_buffer := (hs_buffer ?h)[1 := b], hs_read := 0\<rparr>, m'))"
    using assms(6,7) buf v
    by (subst header_loop.simps) (simp add: header_update_def Let_def not_le [symmetric])
  then have "\<exists>r3. recv_header tr ((drop_net (drop_net ?r))\<lparr>ra_n := NOk m\<rparr>)
      = (Ok \<lparr>type_and_flags = t, remaining_len = VarByteInt (ucast b)\<rparr>
         :: (('k, 'p) raw_error, fixed_header) res, r3)"
    by (simp add: recv_header_def with_net_def)
  ultimately show ?thesis by blast
qed

theorem stale_header_after_reconnect_witness:
  "\<exists>r1 r2 r3. recv_header slice_connection
         \<lparr>ra_n = NOk (slice_reader_new [0x30], slice_writer_new []), ra_buf = (),
          ra_header = header_state_new, ra_dropped = []\<rparr>
       = (Err (RawNetwork (KindNotConnected slice_connection))
           :: ((bool, unit) raw_error, fixed_header) res, r1)
    \<and> set_net (slice_reader_new [0x20, 3, 0, 0, 0], slice_writer_new []) r1
       = (Ok () :: ((bool, unit) raw_error, unit) res, r2)
    \<and> recv_header slice_connection r2
       = (Ok \<lparr>type_and_flags = 0x30, remaining_len = VarByteInt (ucast (0x20 :: u8))\<rparr>
         :: ((bool, unit) raw_error, fixed_header) res, r3)"
  by (rule stale_header_after_reconnect
        [where n = "(slice_reader_new [0x30], slice_writer_new [])" and n' = "(\<lparr>sr_slice = [0x30], sr_index = 1\<rparr>, slice_writer_new [])"
           and n'' = "(\<lparr>sr_slice = [0x30], sr_index = 1\<rparr>, slice_writer_new [])"
           and m' = "(\<lparr>sr_slice = [0x20, 3, 0, 0, 0], sr_index = 1\<rparr>, slice_writer_new [])"])
     (simp_all add: slice_connection_def slice_read_def slice_reader_new_def from_type_and_flags_def)

end
