(* ===== verification/Mqtt_Config.thy ===== *)
theory Mqtt_Config
  imports Mqtt_Raw
begin

text \<open>
  The values that pass between the client and its user: the configuration records of \<open>src/config\<close>,
  the options of \<open>src/client/options\<close>, the errors of \<open>src/client/err.rs\<close> and the events of
  \<open>src/client/event.rs\<close>. A heapless vector whose capacity is a const parameter is a list; its bound
  is checked where the client fills it.
\<close>

section \<open>Configuration\<close>

record client_config =
  cfg_session_expiry_interval :: session_expiry_interval
  cfg_maximum_accepted_remaining_length :: u32
  cfg_request_problem_information :: bool

definition client_config_default :: client_config where
  "client_config_default = \<lparr>cfg_session_expiry_interval = EndOnDisconnect,
     cfg_maximum_accepted_remaining_length = MAX_ENCODABLE, cfg_request_problem_information = False\<rparr>"

record server_config =
  srv_receive_maximum :: u16
  srv_maximum_qos :: qos
  srv_retain_supported :: bool
  srv_maximum_packet_size :: maximum_packet_size
  srv_topic_alias_maximum :: u16
  srv_wildcard_subscription_supported :: bool
  srv_subscription_identifiers_supported :: bool
  srv_shared_subscription_supported :: bool

definition server_config_default :: server_config where
  "server_config_default = \<lparr>srv_receive_maximum = u16_MAX, srv_maximum_qos = ExactlyOnce,
     srv_retain_supported = True, srv_maximum_packet_size = MpsUnlimited, srv_topic_alias_maximum = 0,
     srv_wildcard_subscription_supported = True, srv_subscription_identifiers_supported = True,
     srv_shared_subscription_supported = True\<rparr>"

record shared_config =
  shr_keep_alive :: keep_alive
  shr_session_expiry_interval :: session_expiry_interval

definition shared_config_default :: shared_config where
  "shared_config_default = \<lparr>shr_keep_alive = KaInfinite, shr_session_expiry_interval = EndOnDisconnect\<rparr>"

section \<open>Options\<close>

record connect_options =
  co_clean_start :: bool
  co_keep_alive :: keep_alive
  co_session_expiry_interval :: session_expiry_interval
  co_maximum_packet_size :: maximum_packet_size
  co_request_response_information :: bool
  co_request_problem_information :: bool
  co_user_properties :: "mqtt_string_pair list"
  co_user_name :: "mqtt_string option"
  co_password :: "mqtt_binary option"
  co_will :: "will_options option"

definition connect_options_new :: connect_options where
  "connect_options_new = \<lparr>co_clean_start = False, co_keep_alive = KaInfinite,
     co_session_expiry_interval = EndOnDisconnect, co_maximum_packet_size = MpsUnlimited,
     co_request_response_information = False, co_request_problem_information = False,
     co_user_properties = [], co_user_name = None, co_password = None, co_will = None\<rparr>"

record publication_options =
  po_ack_mode :: ack_mode
  po_qos :: qos
  po_retain :: bool
  po_topic :: topic_reference
  po_payload_format_indicator :: "bool option"
  po_message_expiry_interval :: "u32 option"
  po_response_topic :: "topic_name option"
  po_correlation_data :: "mqtt_binary option"
  po_user_properties :: "mqtt_string_pair list"
  po_content_type :: "mqtt_string option"

definition publication_options_new :: "topic_reference \<Rightarrow> publication_options" where
  "publication_options_new topic = \<lparr>po_ack_mode = Automatic, po_qos = AtMostOnce, po_retain = False,
     po_topic = topic, po_payload_format_indicator = None, po_message_expiry_interval = None,
     po_response_topic = None, po_correlation_data = None, po_user_properties = [],
     po_content_type = None\<rparr>"

record unsubscription_options =
  uo_user_properties :: "mqtt_string_pair list"

record ack_options =
  ao_reason_string :: "mqtt_string option"
  ao_user_properties :: "mqtt_string_pair list"

definition ack_options_new :: ack_options where
  "ack_options_new = \<lparr>ao_reason_string = None, ao_user_properties = []\<rparr>"

record disconnect_options =
  do_reason_code :: reason_code
  do_session_expiry_interval :: "session_expiry_interval option"
  do_reason_string :: "mqtt_string option"
  do_user_properties :: "mqtt_string_pair list"

definition disconnect_options_new :: disconnect_options where
  "disconnect_options_new = \<lparr>do_reason_code = RcSuccess, do_session_expiry_interval = None,
     do_reason_string = None, do_user_properties = []\<rparr>"

section \<open>Errors\<close>

text \<open>
  \<open>MqttError\<close>. Its const parameter bounds the user properties of \<open>Disconnect\<close>; \<open>inflate\<close>, which only
  changes that bound, is the identity here.
\<close>

datatype 'k mqtt_error =
    MeNetwork 'k
  | MeServer
  | MeAlloc
  | MeAuthPacketReceived
  | MeDisconnect reason_code "mqtt_string option" "mqtt_string_pair list" "mqtt_string option"
  | MeRecoveryRequired
  | MePacketIdentifierNotInFlight
  | MeAllPacketIdentifiersUsed
  | MeManualAckNotAllowed
  | MeQoSMismatched
  | MeHandshakeStateMismatched
  | MeIllegalReasonCode
  | MePacketMaximumLengthExceeded
  | MeServerMaximumPacketSizeExceeded
  | MeSessionBuffer
  | MeSendQuotaExceeded
  | MeUnsupportedByServer
  | MeIllegalNoLocalSharedSubscription
  | MeIllegalDisconnectSessionExpiryInterval

definition is_recoverable :: "'k mqtt_error \<Rightarrow> bool" where
  "is_recoverable e \<longleftrightarrow> e \<in> {MePacketIdentifierNotInFlight, MeAllPacketIdentifiersUsed,
     MeManualAckNotAllowed, MeQoSMismatched, MeHandshakeStateMismatched, MeIllegalReasonCode,
     MePacketMaximumLengthExceeded, MeServerMaximumPacketSizeExceeded, MeSessionBuffer,
     MeSendQuotaExceeded, MeUnsupportedByServer, MeIllegalNoLocalSharedSubscription,
     MeIllegalDisconnectSessionExpiryInterval}"

fun mqtt_of_raw :: "('k, 'p) raw_error \<Rightarrow> 'k mqtt_error" where
  "mqtt_of_raw RawDisconnected = MeRecoveryRequired"
| "mqtt_of_raw (RawNetwork e) = MeNetwork e"
| "mqtt_of_raw (RawAlloc _) = MeAlloc"
| "mqtt_of_raw RawServer = MeServer"

section \<open>Events\<close>

record connected =
  cn_session_present :: bool
  cn_client_identifier :: mqtt_string
  cn_user_properties :: "mqtt_string_pair list"
  cn_response_information :: "mqtt_string option"
  cn_server_reference :: "mqtt_string option"

record suback_event =
  se_packet_identifier :: pid
  se_reason_string :: "mqtt_string option"
  se_user_properties :: "mqtt_string_pair list"
  se_reason_code :: reason_code

record publish_event =
  pe_ack_mode :: ack_mode
  pe_dup :: bool
  pe_identified_qos :: identified_qos
  pe_retain :: bool
  pe_topic :: topic_name
  pe_payload_format_indicator :: "bool option"
  pe_message_expiry_interval :: "u32 option"
  pe_response_topic :: "topic_name option"
  pe_correlation_data :: "mqtt_binary option"
  pe_user_properties :: "mqtt_string_pair list"
  pe_subscription_identifiers :: "var_byte_int list"
  pe_content_type :: "mqtt_string option"
  pe_message :: "u8 list"

record puback_event =
  ae_ack_mode :: ack_mode
  ae_packet_identifier :: pid
  ae_reason_code :: reason_code
  ae_reason_string :: "mqtt_string option"
  ae_user_properties :: "mqtt_string_pair list"

record pubrej_event =
  re_packet_identifier :: pid
  re_reason_code :: reason_code
  re_reason_string :: "mqtt_string option"
  re_user_properties :: "mqtt_string_pair list"

datatype event =
    EvPingresp
  | EvPublish publish_event
  | EvSuback suback_event
  | EvUnsuback suback_event
  | EvPublishRejected pubrej_event
  | EvPublishAborted pubrej_event
  | EvPublishAcknowledged puback_event
  | EvPublishReceived puback_event
  | EvPublishReleased puback_event
  | EvPublishComplete puback_event
  | EvIgnored
  | EvDuplicate publish_event

text \<open>\<open>Puback::new\<close> and \<open>Pubrej::from\<close>; \<open>None\<close> is their debug assertion.\<close>

definition puback_event_new :: "puback_packet \<Rightarrow> ack_mode \<Rightarrow> puback_event option" where
  "puback_event_new packet mode =
     (if is_success (pa_reason_code packet) then
        Some \<lparr>ae_ack_mode = mode, ae_packet_identifier = pa_packet_identifier packet,
              ae_reason_code = pa_reason_code packet, ae_reason_string = pa_reason_string packet,
              ae_user_properties = pa_user_properties packet\<rparr>
      else None)"

definition pubrej_from :: "puback_packet \<Rightarrow> pubrej_event option" where
  "pubrej_from packet =
     (if is_erroneous (pa_reason_code packet) then
        Some \<lparr>re_packet_identifier = pa_packet_identifier packet,
              re_reason_code = pa_reason_code packet, re_reason_string = pa_reason_string packet,
              re_user_properties = pa_user_properties packet\<rparr>
      else None)"

lemma mqtt_of_raw_unrecoverable [simp]: "\<not> is_recoverable (mqtt_of_raw e)"
  by (cases e) (simp_all add: is_recoverable_def)

end
