(* ===== verification/Mqtt_Client.thy ===== *)
theory Mqtt_Client
  imports Mqtt_Config Mqtt_Session_Runs
begin

text \<open>
  The client of \<open>src/client/mod.rs\<close>: every public operation, as a computation on the state of the
  client. Parameters are the transport \<open>tr\<close>, the buffer provider \<open>pb\<close> and the order \<open>sr\<close> in which
  \<open>swap_remove\<close> leaves a vector. Futures run to their end: a caller that drops one half way is not
  modelled.
\<close>

section \<open>The state of the client\<close>

record ('n, 'b) client =
  MAX_SUBSCRIPTION_IDENTIFIERS :: nat
  MAX_USER_PROPERTIES :: nat
  cl_client_config :: client_config
  cl_shared_config :: shared_config
  cl_server_config :: server_config
  cl_session :: session
  cl_raw :: "('n, 'b) raw"
  cl_manual_ack_when :: "publish_event \<Rightarrow> bool"

text \<open>\<open>None\<close>: the const assertions of \<open>new\<close> reject the const parameters.\<close>

definition client_new :: "nat \<Rightarrow> nat \<Rightarrow> nat \<Rightarrow> nat \<Rightarrow> nat \<Rightarrow> 'b \<Rightarrow> ('n, 'b) client option" where
  "client_new sub_max rcv_max snd_max maxs maxu buffer =
     (if sub_max \<le> 65535 \<and> rcv_max \<le> 65535 \<and> 0 < rcv_max \<and> maxu \<le> 1021 then
        Some \<lparr>MAX_SUBSCRIPTION_IDENTIFIERS = maxs, MAX_USER_PROPERTIES = maxu,
              cl_client_config = client_config_default, cl_shared_config = shared_config_default,
              cl_server_config = server_config_default,
              cl_session = session_default sub_max rcv_max snd_max,
              cl_raw = new_disconnected buffer, cl_manual_ack_when = (\<lambda>_. False)\<rparr>
      else None)"

definition with_session :: "session \<Rightarrow> nat \<Rightarrow> nat \<Rightarrow> 'b \<Rightarrow> ('n, 'b) client option" where
  "with_session session maxs maxu buffer =
     map_option (\<lambda>c. c\<lparr>cl_session := session\<rparr>)
       (client_new (SUBSCRIBE_MAXIMUM session) (RECEIVE_MAXIMUM session) (SEND_MAXIMUM session)
          maxs maxu buffer)"

definition ack_manually_when :: "(publish_event \<Rightarrow> bool) \<Rightarrow> ('n, 'b) client \<Rightarrow> ('n, 'b) client" where
  "ack_manually_when predicate c = c\<lparr>cl_manual_ack_when := predicate\<rparr>"

text \<open>The subtraction panics when more publications are active than the server accepts.\<close>

definition remaining_send_quota :: "('n, 'b) client \<Rightarrow> u16 option" where
  "remaining_send_quota c =
     Option.bind (active_outbound_publishes (cl_session c)) (\<lambda>active.
       let receive_maximum = srv_receive_maximum (cl_server_config c) in
       if active \<le> receive_maximum then Some (receive_maximum - active) else None)"

section \<open>Steps of the operations\<close>

definition asserts :: "bool \<Rightarrow> ('s, 'x, unit) comp" where
  "asserts b = (if b then ret () else crash)"

definition ensure :: "bool \<Rightarrow> 'x \<Rightarrow> ('s, 'x, unit) comp" where
  "ensure b e = (if b then ret () else fail e)"

definition gets :: "('s \<Rightarrow> 'a) \<Rightarrow> ('s, 'x, 'a) comp" where
  "gets f s = (Ok (f s), s)"

definition modify :: "('s \<Rightarrow> 's) \<Rightarrow> ('s, 'x, unit) comp" where
  "modify f s = (Ok (), f s)"

text \<open>A call on \<open>self.raw\<close> followed by \<open>?\<close>, and a call on \<open>self.session\<close>.\<close>

definition on_raw ::
    "(('n, 'b) raw, ('k, 'p) raw_error, 'a) comp \<Rightarrow> (('n, 'b) client, 'k mqtt_error, 'a) comp" where
  "on_raw m c = (case m (cl_raw c) of
      (Ok a, r) \<Rightarrow> (Ok a, c\<lparr>cl_raw := r\<rparr>)
    | (Err e, r) \<Rightarrow> (Err (mqtt_of_raw e), c\<lparr>cl_raw := r\<rparr>)
    | (Panic, r) \<Rightarrow> (Panic, c\<lparr>cl_raw := r\<rparr>))"

definition on_session ::
    "(session \<Rightarrow> ('a \<times> session) option) \<Rightarrow> (('n, 'b) client, 'x, 'a) comp" where
  "on_session f c = (case f (cl_session c) of
      None \<Rightarrow> (Panic, c)
    | Some (a, s) \<Rightarrow> (Ok a, c\<lparr>cl_session := s\<rparr>))"

definition close :: "reason_code option \<Rightarrow> (('n, 'b) client, 'x, unit) comp" where
  "close reason_code = modify (\<lambda>c. c\<lparr>cl_raw := close_with reason_code (cl_raw c)\<rparr>)"

text \<open>\<open>self.raw.close_with(Some(r)); return Err(e)\<close>\<close>

definition reject :: "reason_code \<Rightarrow> 'x \<Rightarrow> (('n, 'b) client, 'x, 'a) comp" where
  "reject r e = thn (close (Some r)) (fail e)"

text \<open>\<open>self.raw.send(&packet).await?; self.raw.flush().await?\<close>\<close>

definition send_only ::
    "('n, 'e, 'k) transport \<Rightarrow> (('n, 'e) writer \<Rightarrow> ('n, 'e tx_error, unit) comp)
     \<Rightarrow> (('n, 'b) client, 'k mqtt_error, unit) comp" where
  "send_only tr packet_send = on_raw (raw_send tr packet_send :: (_, ('k, unit) raw_error, _) comp)"

definition flush :: "('n, 'e, 'k) transport \<Rightarrow> (('n, 'b) client, 'k mqtt_error, unit) comp" where
  "flush tr = on_raw (raw_flush tr :: (_, ('k, unit) raw_error, _) comp)"

definition send_packet ::
    "('n, 'e, 'k) transport \<Rightarrow> (('n, 'e) writer \<Rightarrow> ('n, 'e tx_error, unit) comp)
     \<Rightarrow> (('n, 'b) client, 'k mqtt_error, unit) comp" where
  "send_packet tr packet_send = thn (send_only tr packet_send) (flush tr)"

definition receive_header ::
    "('n, 'e, 'k) transport \<Rightarrow> (('n, 'b) client, 'k mqtt_error, fixed_header) comp" where
  "receive_header tr = on_raw (recv_header tr :: (_, ('k, unit) raw_error, _) comp)"

text \<open>The length of the packet against the limit of the server.\<close>

definition check_size :: "var_byte_int option \<Rightarrow> (('n, 'b) client, 'k mqtt_error, unit) comp" where
  "check_size remaining_length = unwrap (encoded_len remaining_length) (\<lambda>n.
     bnd (gets (\<lambda>c. maximum_packet_size_as_u32 (srv_maximum_packet_size (cl_server_config c)))) (\<lambda>m.
       ensure (\<not> m < word_of_nat n) MeServerMaximumPacketSizeExceeded))"

definition assert_user_properties ::
    "mqtt_string_pair list \<Rightarrow> (('n, 'b) client, 'k mqtt_error, unit) comp" where
  "assert_user_properties us =
     bnd (gets MAX_USER_PROPERTIES) (\<lambda>maxu. asserts (length us \<le> maxu))"

section \<open>Connecting\<close>

definition MAX_POSSIBLE_PACKET_SIZE :: u32 where
  "MAX_POSSIBLE_PACKET_SIZE = MAX_ENCODABLE + 5"

text \<open>\<open>None\<close>: the \<open>unreachable!\<close> for a limit of 0 and the panic for a limit of 1.\<close>

definition maximum_accepted_remaining_length :: "maximum_packet_size \<Rightarrow> u32 option" where
  "maximum_accepted_remaining_length m = (case m of
      MpsUnlimited \<Rightarrow> Some u32_MAX
    | MpsLimit l \<Rightarrow>
        if l = 0 then None
        else if l = 1 then None
        else if l \<le> 129 then Some (l - 2)
        else if l \<le> 16386 then Some (l - 3)
        else if l \<le> 2097155 then Some (l - 4)
        else if l < MAX_POSSIBLE_PACKET_SIZE then Some (l - 5)
        else Some MAX_ENCODABLE)"

text \<open>The CONNECT packet; \<open>None\<close> when the user properties of the will overflow their vector.\<close>

definition connect_packet_of ::
    "nat \<Rightarrow> nat \<Rightarrow> connect_options \<Rightarrow> mqtt_string option \<Rightarrow> connect_packet option" where
  "connect_packet_of maxu rcv_max options client_identifier =
     (let packet_client_identifier = (case client_identifier of None \<Rightarrow> [] | Some i \<Rightarrow> i);
          packet = connect_new packet_client_identifier (co_clean_start options)
            (co_keep_alive options) (co_maximum_packet_size options)
            (co_session_expiry_interval options) (word_of_nat rcv_max)
            (co_request_response_information options) (co_request_problem_information options)
            (co_user_properties options);
          packet = (case co_user_name options of None \<Rightarrow> packet | Some u \<Rightarrow> add_user_name u packet);
          packet = (case co_password options of None \<Rightarrow> packet | Some p \<Rightarrow> add_password p packet)
      in case co_will options of
           None \<Rightarrow> Some packet
         | Some w \<Rightarrow> map_option
             (\<lambda>wi. add_will wi (wo_will_qos w) (wo_will_retain w) packet) (will_from maxu w))"

text \<open>The values of a successful CONNACK; what it omits stays as it was.\<close>

definition set_if :: "'a option \<Rightarrow> 'a \<Rightarrow> 'a" where
  "set_if new old = (case new of None \<Rightarrow> old | Some v \<Rightarrow> v)"

definition server_config_of :: "connack_packet \<Rightarrow> server_config \<Rightarrow> server_config" where
  "server_config_of ca s =
     \<lparr>srv_receive_maximum = set_if (ca_receive_maximum ca) (srv_receive_maximum s),
      srv_maximum_qos = set_if (ca_maximum_qos ca) (srv_maximum_qos s),
      srv_retain_supported = set_if (ca_retain_available ca) (srv_retain_supported s),
      srv_maximum_packet_size = set_if (ca_maximum_packet_size ca) (srv_maximum_packet_size s),
      srv_topic_alias_maximum = set_if (ca_topic_alias_maximum ca) (srv_topic_alias_maximum s),
      srv_wildcard_subscription_supported =
        set_if (ca_wildcard_subscription_available ca) (srv_wildcard_subscription_supported s),
      srv_subscription_identifiers_supported =
        set_if (ca_subscription_identifier_available ca) (srv_subscription_identifiers_supported s),
      srv_shared_subscription_supported =
        set_if (ca_shared_subscription_available ca) (srv_shared_subscription_supported s)\<rparr>"

definition shared_config_of :: "connect_options \<Rightarrow> connack_packet \<Rightarrow> shared_config" where
  "shared_config_of options ca =
     \<lparr>shr_keep_alive = set_if (ca_server_keep_alive ca) (co_keep_alive options),
      shr_session_expiry_interval =
        set_if (ca_session_expiry_interval ca) (co_session_expiry_interval options)\<rparr>"

text \<open>What \<open>connect\<close> does with the CONNACK packet.\<close>

definition handle_connack ::
    "connect_options \<Rightarrow> mqtt_string option \<Rightarrow> connack_packet
     \<Rightarrow> (('n, 'b) client, 'k mqtt_error, connected) comp" where
  "handle_connack options client_identifier ca =
     (if \<not> co_request_response_information options \<and> ca_response_information ca \<noteq> None then
        reject RcProtocolError MeServer
      else if is_success (ca_reason_code ca) then
        (case (case ca_assigned_client_identifier ca of None \<Rightarrow> client_identifier | Some i \<Rightarrow> Some i) of
           None \<Rightarrow> reject RcProtocolError MeServer
         | Some client_identifier \<Rightarrow>
             thn (if ca_session_present ca then
                    (if co_clean_start options then reject RcProtocolError MeServer
                     else on_session (\<lambda>s. Some ((), session_reconnect s)))
                  else on_session (\<lambda>s. Some ((), session_clear s)))
             (thn (modify (\<lambda>c. c\<lparr>cl_shared_config := shared_config_of options ca,
                                 cl_server_config := server_config_of ca (cl_server_config c)\<rparr>))
               (ret \<lparr>cn_session_present = ca_session_present ca,
                     cn_client_identifier = client_identifier,
                     cn_user_properties = ca_user_properties ca,
                     cn_response_information = ca_response_information ca,
                     cn_server_reference = ca_server_reference ca\<rparr>)))
      else thn (close None)
        (fail (MeDisconnect (ca_reason_code ca) (ca_reason_string ca) (ca_user_properties ca)
                 (ca_server_reference ca))))"

definition client_connect ::
    "('n, 'e, 'k) transport \<Rightarrow> (nat \<Rightarrow> ('b, 'p, 'm) comp) \<Rightarrow> 'n \<Rightarrow> connect_options
     \<Rightarrow> mqtt_string option \<Rightarrow> (('n, 'b) client, 'k mqtt_error, connected) comp" where
  "client_connect tr pb net options client_identifier =
     thn (assert_user_properties (co_user_properties options))
     (thn (assert_user_properties
             (case co_will options of None \<Rightarrow> [] | Some w \<Rightarrow> wo_user_properties w))
     (thn (on_raw (set_net net :: (_, ('k, unit) raw_error, _) comp))
     (thn (modify (\<lambda>c. c\<lparr>cl_client_config := (cl_client_config c)
             \<lparr>cfg_session_expiry_interval := co_session_expiry_interval options,
              cfg_request_problem_information := co_request_problem_information options\<rparr>\<rparr>))
     (unwrap (maximum_accepted_remaining_length (co_maximum_packet_size options)) (\<lambda>m.
      thn (modify (\<lambda>c. c\<lparr>cl_client_config :=
             (cl_client_config c)\<lparr>cfg_maximum_accepted_remaining_length := m\<rparr>\<rparr>))
     (bnd (gets MAX_USER_PROPERTIES) (\<lambda>maxu.
      bnd (gets (\<lambda>c. RECEIVE_MAXIMUM (cl_session c))) (\<lambda>rcv_max.
      unwrap (connect_packet_of maxu rcv_max options client_identifier) (\<lambda>packet.
      thn (send_packet tr (\<lambda>wr. connect_send wr packet))
     (bnd (receive_header tr) (\<lambda>header.
      case header_packet_type header of
        None \<Rightarrow> reject RcMalformedPacket MeServer
      | Some t \<Rightarrow>
          if t \<noteq> PtConnack then reject RcProtocolError MeServer
          else bnd (on_raw (recv_body tr (connack_receive maxu (tr_read tr) pb) header))
                 (handle_connack options client_identifier))))))))))))"

section \<open>Pinging and subscribing\<close>

definition client_ping :: "('n, 'e, 'k) transport \<Rightarrow> (('n, 'b) client, 'k mqtt_error, unit) comp" where
  "client_ping tr = send_packet tr (\<lambda>wr. ping_send wr Req)"

definition client_subscribe ::
    "('n, 'e, 'k) transport \<Rightarrow> topic_filter \<Rightarrow> subscription_options
     \<Rightarrow> (('n, 'b) client, 'k mqtt_error, pid) comp" where
  "client_subscribe tr topic_filter options =
     thn (assert_user_properties (so_user_properties options))
     (bnd (gets cl_server_config) (\<lambda>server.
      thn (ensure (\<not> (\<not> srv_wildcard_subscription_supported server \<and> filter_has_wildcard topic_filter))
             MeUnsupportedByServer)
     (thn (ensure (\<not> (\<not> srv_subscription_identifiers_supported server
                     \<and> so_subscription_identifier options \<noteq> None)) MeUnsupportedByServer)
     (thn (ensure (\<not> (\<not> srv_shared_subscription_supported server \<and> filter_is_shared topic_filter))
             MeUnsupportedByServer)
     (bnd (ok_or MeIllegalNoLocalSharedSubscription (subscription_filter_new topic_filter options))
     (\<lambda>subscribe_filter.
      bnd (gets (\<lambda>c. get_free_handle (cl_session c))) (\<lambda>handle.
      bnd (ok_or MeAllPacketIdentifiersUsed handle) (\<lambda>handle.
      let pid = fh_packet_identifier handle in
      bnd (on_session (\<lambda>_. Some (outbound_sub handle))) (\<lambda>x.
      thn (ensure (x = Inr ()) MeSessionBuffer)
     (bnd (gets MAX_USER_PROPERTIES) (\<lambda>maxu.
      unwrap (subscribe_new 1 maxu pid (so_subscription_identifier options) (so_user_properties options)
                [subscribe_filter]) (\<lambda>packet.
      unwrap packet (\<lambda>packet.
      thn (check_size (subscribe_remaining_len packet))
     (thn (send_packet tr (\<lambda>wr. subscribe_send wr packet)) (ret pid)))))))))))))))"

definition client_unsubscribe ::
    "('n, 'e, 'k) transport \<Rightarrow> topic_filter \<Rightarrow> unsubscription_options
     \<Rightarrow> (('n, 'b) client, 'k mqtt_error, pid) comp" where
  "client_unsubscribe tr topic_filter options =
     thn (assert_user_properties (uo_user_properties options))
     (bnd (gets (\<lambda>c. get_free_handle (cl_session c))) (\<lambda>handle.
      bnd (ok_or MeAllPacketIdentifiersUsed handle) (\<lambda>handle.
      let pid = fh_packet_identifier handle in
      bnd (on_session (\<lambda>_. Some (outbound_unsub handle))) (\<lambda>x.
      thn (ensure (x = Inr ()) MeSessionBuffer)
     (bnd (gets MAX_USER_PROPERTIES) (\<lambda>maxu.
      unwrap (unsubscribe_new 1 maxu pid (uo_user_properties options) [topic_filter]) (\<lambda>packet.
      unwrap packet (\<lambda>packet.
      thn (check_size (unsubscribe_remaining_len packet))
     (thn (send_packet tr (\<lambda>wr. unsubscribe_send wr packet)) (ret pid))))))))))"

section \<open>Publishing\<close>

text \<open>The checks against the server's capabilities that \<open>publish\<close> and \<open>republish\<close> share.\<close>

definition check_supported ::
    "publication_options \<Rightarrow> (('n, 'b) client, 'k mqtt_error, unit) comp" where
  "check_supported options =
     bnd (gets cl_server_config) (\<lambda>server.
      thn (ensure (\<not> po_qos options > srv_maximum_qos server) MeUnsupportedByServer)
     (thn (ensure (\<not> (\<not> srv_retain_supported server \<and> po_retain options)) MeUnsupportedByServer)
      (ensure (\<not> (case topic_alias (po_topic options) of
                      None \<Rightarrow> False
                    | Some a \<Rightarrow> a > srv_topic_alias_maximum server)) MeUnsupportedByServer)))"

definition publish_packet_of ::
    "bool \<Rightarrow> identified_qos \<Rightarrow> publication_options \<Rightarrow> u8 list \<Rightarrow> publish_packet option" where
  "publish_packet_of dup identified_qos options message =
     publish_new dup identified_qos (po_retain options) (po_topic options)
       (po_payload_format_indicator options) (po_message_expiry_interval options)
       (po_response_topic options) (po_correlation_data options) (po_user_properties options)
       (po_content_type options) message"

definition client_publish ::
    "('n, 'e, 'k) transport \<Rightarrow> publication_options \<Rightarrow> u8 list
     \<Rightarrow> (('n, 'b) client, 'k mqtt_error, pid option) comp" where
  "client_publish tr options message =
     thn (assert_user_properties (po_user_properties options))
     (thn (ensure (\<not> ((po_qos options = AtMostOnce \<or> po_qos options = AtLeastOnce)
                     \<and> po_ack_mode options = Manual)) MeManualAckNotAllowed)
     (thn (check_supported options)
     (bnd (if po_qos options > AtMostOnce then
             bnd (gets remaining_send_quota) (\<lambda>quota.
             unwrap quota (\<lambda>quota.
             thn (ensure (quota \<noteq> 0) MeSendQuotaExceeded)
             (bnd (gets (\<lambda>c. get_free_handle (cl_session c))) (\<lambda>handle.
              bnd (ok_or MeAllPacketIdentifiersUsed handle) (\<lambda>handle.
              case po_qos options of
                AtMostOnce \<Rightarrow> crash
              | AtLeastOnce \<Rightarrow> ret (IdAtLeastOnce (fh_packet_identifier handle), Some handle)
              | ExactlyOnce \<Rightarrow> ret (IdExactlyOnce (fh_packet_identifier handle), Some handle))))))
           else ret (IdAtMostOnce, None))
     (\<lambda>(identified_qos, handle).
      bnd (ok_or MePacketMaximumLengthExceeded (publish_packet_of False identified_qos options message))
     (\<lambda>packet.
      thn (check_size (publish_remaining_len_raw packet))
     (thn (case handle of
             None \<Rightarrow> ret ()
           | Some handle \<Rightarrow>
               bnd (on_session (\<lambda>_. outbound_publish handle (po_qos options) (po_ack_mode options))) (\<lambda>x.
               case x of
                 Inl NoCapacity \<Rightarrow> fail MeSessionBuffer
               | Inl _ \<Rightarrow> crash
               | Inr _ \<Rightarrow> ret ()))
     (thn (send_packet tr (\<lambda>wr. publish_send wr packet))
          (ret (packet_identifier identified_qos)))))))))"

text \<open>How a refusal of the session is reported; \<open>NoCapacity\<close> is \<open>unreachable!\<close>.\<close>

definition refused :: "sm_error + unit \<Rightarrow> (('n, 'b) client, 'k mqtt_error, unit) comp" where
  "refused x = (case x of
      Inr _ \<Rightarrow> ret ()
    | Inl NoCapacity \<Rightarrow> crash
    | Inl PacketIdentifierUnused \<Rightarrow> fail MePacketIdentifierNotInFlight
    | Inl SmQoSMismatched \<Rightarrow> fail MeQoSMismatched
    | Inl SmHandshakeStateMismatched \<Rightarrow> fail MeHandshakeStateMismatched)"

definition client_republish ::
    "('n, 'e, 'k) transport \<Rightarrow> pid \<Rightarrow> publication_options \<Rightarrow> u8 list
     \<Rightarrow> (('n, 'b) client, 'k mqtt_error, unit) comp" where
  "client_republish tr p options message =
     thn (assert_user_properties (po_user_properties options))
     (thn (asserts (po_qos options \<noteq> AtMostOnce))
     (thn (check_supported options)
     (bnd (case po_qos options of
             AtMostOnce \<Rightarrow> crash
           | AtLeastOnce \<Rightarrow> ret (IdAtLeastOnce p)
           | ExactlyOnce \<Rightarrow> ret (IdExactlyOnce p))
     (\<lambda>identified_qos.
      bnd (ok_or MePacketMaximumLengthExceeded (publish_packet_of True identified_qos options message))
     (\<lambda>packet.
      thn (check_size (publish_remaining_len_raw packet))
     (thn (bnd (on_session (\<lambda>s. outbound_republish s identified_qos)) refused)
          (send_packet tr (\<lambda>wr. publish_send wr packet))))))))"

text \<open>
  The loop of \<open>rerelease\<close>, at the entry \<open>i\<close> of the outgoing publications. The handle borrows the
  session, so that its session is the one of the client throughout.
\<close>

definition outbound_handle_at :: "session \<Rightarrow> nat \<Rightarrow> outbound_handle" where
  "outbound_handle_at s i = \<lparr>oh_session = s, oh_i = i, oh_state = snd (outbound_publishes s ! i)\<rparr>"

definition rerelease_step ::
    "('n, 'e, 'k) transport \<Rightarrow> nat \<Rightarrow> (('n, 'b) client, 'k mqtt_error, unit) comp" where
  "rerelease_step tr i =
     bnd (gets (\<lambda>c. outbound_handle_at (cl_session c) i)) (\<lambda>handle.
     if oh_state handle = DueRel Automatic then
       bnd (on_session (\<lambda>_. oh_outbound_pubrel handle)) (\<lambda>x.
       thn (asserts (x = Inr ()))
         (send_only tr (\<lambda>wr. puback_send wr Rel
            (puback_minimal (fst (outbound_publishes (oh_session handle) ! i)) RcSuccess))))
     else ret ())"

lemma on_raw_session: "on_raw m c = (x, c') \<Longrightarrow> cl_session c' = cl_session c"
  by (auto simp: on_raw_def split: prod.splits res.splits)

lemma rerelease_step_length:
  assumes "rerelease_step tr i c = (x, c')"
  shows "length (outbound_publishes (cl_session c')) = length (outbound_publishes (cl_session c))"
proof -
  have "length (outbound_publishes s) = length (outbound_publishes (oh_session h))"
    if "oh_outbound_pubrel h = Some (r, s)" for h r s
    using that by (auto simp: oh_outbound_pubrel_def outbound_set_def Let_def
        split: local_publish_state.splits if_splits)
  then show ?thesis
    using assms
    by (auto simp: rerelease_step_def outbound_handle_at_def send_only_def bnd_def gets_def on_session_def
        asserts_def ret_def crash_def
        split: if_splits option.splits prod.splits res.splits dest!: on_raw_session)
qed

function rerelease_loop :: "('n, 'e, 'k) transport \<Rightarrow> nat \<Rightarrow> ('n, 'b) client
    \<Rightarrow> ('k mqtt_error, unit) res \<times> ('n, 'b) client" where
  "rerelease_loop tr i c = (case rerelease_step tr i c of
      (Ok _, c') \<Rightarrow>
        (case outbound_next (outbound_handle_at (cl_session c') i) of
           None \<Rightarrow> (Ok (), c')
         | Some next \<Rightarrow> rerelease_loop tr (oh_i next) c')
    | (Err e, c') \<Rightarrow> (Err e, c')
    | (Panic, c') \<Rightarrow> (Panic, c'))"
  by pat_completeness auto

termination
  by (relation "measure (\<lambda>(tr, i, c). length (outbound_publishes (cl_session c)) - i)")
     (auto simp: outbound_next_def outbound_handle_at_def Let_def split: if_splits
       dest!: rerelease_step_length [OF sym])

declare rerelease_loop.simps [simp del]

definition client_rerelease :: "('n, 'e, 'k) transport \<Rightarrow> (('n, 'b) client, 'k mqtt_error, unit) comp" where
  "client_rerelease tr = bnd (gets (\<lambda>c. outbound_iter (cl_session c))) (\<lambda>handle.
     case handle of
       None \<Rightarrow> ret ()
     | Some handle \<Rightarrow> thn (rerelease_loop tr (oh_i handle)) (flush tr))"

section \<open>Manual acknowledgements\<close>

definition ack_packet_of :: "pid \<Rightarrow> reason_code \<Rightarrow> ack_options \<Rightarrow> puback_packet" where
  "ack_packet_of p reason_code options =
     \<lparr>pa_packet_identifier = p, pa_reason_code = reason_code,
      pa_reason_string = ao_reason_string options, pa_user_properties = ao_user_properties options\<rparr>"

text \<open>The reason codes that \<open>manual_acknowledge\<close> and \<open>manual_receive\<close> accept.\<close>

definition ack_reason_code_legal :: "reason_code \<Rightarrow> bool" where
  "ack_reason_code_legal c \<longleftrightarrow>
     c \<in> {RcSuccess, RcUnspecifiedError, RcImplementationSpecificError, RcNotAuthorized,
          RcTopicNameInvalid, RcPacketIdentifierInUse, RcQuotaExceeded, RcPayloadFormatInvalid}"

definition manual_acknowledge ::
    "remover \<Rightarrow> ('n, 'e, 'k) transport \<Rightarrow> pid \<Rightarrow> reason_code \<Rightarrow> ack_options
     \<Rightarrow> (('n, 'b) client, 'k mqtt_error, unit) comp" where
  "manual_acknowledge sr tr p reason_code options =
     thn (assert_user_properties (ao_user_properties options))
     (thn (ensure (ack_reason_code_legal reason_code) MeIllegalReasonCode)
     (let packet = ack_packet_of p reason_code options in
      thn (check_size (puback_remaining_len packet))
     (thn (bnd (on_session (\<lambda>s. outbound_puback sr s p)) refused)
          (send_packet tr (\<lambda>wr. puback_send wr Ack packet)))))"

definition manual_receive ::
    "remover \<Rightarrow> ('n, 'e, 'k) transport \<Rightarrow> pid \<Rightarrow> reason_code \<Rightarrow> ack_options
     \<Rightarrow> (('n, 'b) client, 'k mqtt_error, unit) comp" where
  "manual_receive sr tr p reason_code options =
     thn (assert_user_properties (ao_user_properties options))
     (thn (ensure (ack_reason_code_legal reason_code) MeIllegalReasonCode)
     (let packet = ack_packet_of p reason_code options in
      thn (check_size (puback_remaining_len packet))
     (thn (bnd (on_session (\<lambda>s. outbound_pubrec sr s p reason_code)) refused)
          (send_packet tr (\<lambda>wr. puback_send wr Rec packet)))))"

definition manual_release ::
    "('n, 'e, 'k) transport \<Rightarrow> pid \<Rightarrow> ack_options \<Rightarrow> (('n, 'b) client, 'k mqtt_error, unit) comp" where
  "manual_release tr p options =
     thn (assert_user_properties (ao_user_properties options))
     (let packet = ack_packet_of p RcSuccess options in
      thn (check_size (puback_remaining_len packet))
     (thn (bnd (on_session (\<lambda>s. outbound_pubrel s p)) refused)
          (send_packet tr (\<lambda>wr. puback_send wr Rel packet))))"

definition manual_complete ::
    "remover \<Rightarrow> ('n, 'e, 'k) transport \<Rightarrow> pid \<Rightarrow> ack_options
     \<Rightarrow> (('n, 'b) client, 'k mqtt_error, unit) comp" where
  "manual_complete sr tr p options =
     thn (assert_user_properties (ao_user_properties options))
     (let packet = ack_packet_of p RcSuccess options in
      thn (check_size (puback_remaining_len packet))
     (thn (bnd (on_session (\<lambda>s. outbound_pubcomp sr s p)) refused)
          (send_packet tr (\<lambda>wr. puback_send wr Comp packet))))"

section \<open>Disconnecting\<close>

text \<open>\<open>abort\<close> only logs the error of the raw client.\<close>

definition client_abort :: "('n, 'e, 'k) transport \<Rightarrow> (('n, 'b) client, 'k mqtt_error, unit) comp" where
  "client_abort tr c = (case (raw_abort tr (cl_raw c) :: (('k, unit) raw_error, unit) res \<times> _) of
      (Panic, r) \<Rightarrow> (Panic, c\<lparr>cl_raw := r\<rparr>)
    | (_, r) \<Rightarrow> (Ok (), c\<lparr>cl_raw := r\<rparr>))"

definition disconnect_reason_code_legal :: "reason_code \<Rightarrow> bool" where
  "disconnect_reason_code_legal c \<longleftrightarrow>
     c \<in> {RcSuccess, RcDisconnectWithWillMessage, RcUnspecifiedError, RcMalformedPacket,
          RcProtocolError, RcImplementationSpecificError, RcTopicNameInvalid,
          RcReceiveMaximumExceeded, RcTopicAliasInvalid, RcPacketTooLarge, RcMessageRateTooHigh,
          RcQuotaExceeded, RcAdministrativeAction, RcPayloadFormatInvalid}"

definition client_disconnect ::
    "('n, 'e, 'k) transport \<Rightarrow> disconnect_options \<Rightarrow> (('n, 'b) client, 'k mqtt_error, unit) comp" where
  "client_disconnect tr options =
     thn (assert_user_properties (do_user_properties options))
     (thn (ensure (disconnect_reason_code_legal (do_reason_code options)) MeIllegalReasonCode)
     (bnd (gets (\<lambda>c. cfg_session_expiry_interval (cl_client_config c) = EndOnDisconnect))
     (\<lambda>connect_session_expiry_interval_was_zero.
      let disconnect_session_expiry_interval_is_non_zero =
            (case do_session_expiry_interval options of None \<Rightarrow> False | Some s \<Rightarrow> s \<noteq> EndOnDisconnect)
      in
      thn (ensure (\<not> (connect_session_expiry_interval_was_zero
                     \<and> disconnect_session_expiry_interval_is_non_zero))
             MeIllegalDisconnectSessionExpiryInterval)
     (let packet = disconnect_new (do_reason_code options) (do_session_expiry_interval options)
                     (do_reason_string options) (do_user_properties options) in
      thn (check_size (disconnect_remaining_len packet))
     (thn (send_packet tr (\<lambda>wr. disconnect_send wr packet))
          (close None))))))"

section \<open>Polling\<close>

definition poll_header ::
    "('n, 'e, 'k) transport \<Rightarrow> (('n, 'b) client, 'k mqtt_error, fixed_header) comp" where
  "poll_header tr = bnd (receive_header tr) (\<lambda>header.
     if header_packet_type header = None then reject RcMalformedPacket MeServer
     else bnd (gets (\<lambda>c. cfg_maximum_accepted_remaining_length (cl_client_config c))) (\<lambda>m.
       if vbi_value (remaining_len header) > m then reject RcPacketTooLarge MeServer
       else ret header))"

text \<open>Reason strings and user properties that were not asked for.\<close>

definition check_problem_information ::
    "mqtt_string option \<Rightarrow> mqtt_string_pair list \<Rightarrow> (('n, 'b) client, 'k mqtt_error, unit) comp" where
  "check_problem_information reason_string user_properties =
     bnd (gets (\<lambda>c. cfg_request_problem_information (cl_client_config c))) (\<lambda>request_problem_information.
       if \<not> request_problem_information \<and> (reason_string \<noteq> None \<or> user_properties \<noteq> [])
       then reject RcProtocolError MeServer else ret ())"

text \<open>The arms of \<open>poll_body\<close>, one per kind of packet.\<close>

definition remove_awaited :: "remover \<Rightarrow> suback_kind \<Rightarrow> pid \<Rightarrow> session \<Rightarrow> (bool \<times> session) option" where
  "remove_awaited sr k p s = (case k of
      Suback \<Rightarrow> (case get_sub_handle s p of
          Some h \<Rightarrow> map_option (Pair True) (sub_remove sr h)
        | None \<Rightarrow> Some (False, s))
    | Unsuback \<Rightarrow> (case get_unsub_handle s p of
          Some h \<Rightarrow> map_option (Pair True) (unsub_remove sr h)
        | None \<Rightarrow> Some (False, s)))"

definition poll_suback ::
    "remover \<Rightarrow> ('n, 'e, 'k) transport \<Rightarrow> (nat \<Rightarrow> ('b, 'p, 'm) comp) \<Rightarrow> suback_kind \<Rightarrow> fixed_header
     \<Rightarrow> (('n, 'b) client, 'k mqtt_error, event) comp" where
  "poll_suback sr tr pb k header =
     bnd (gets MAX_USER_PROPERTIES) (\<lambda>maxu.
     bnd (on_raw (recv_body tr (suback_receive k 1 maxu (tr_read tr) pb) header)) (\<lambda>suback.
     thn (check_problem_information (sa_reason_string suback) (sa_user_properties suback))
     (let p = sa_packet_identifier suback in
      bnd (on_session (remove_awaited sr k p)) (\<lambda>found.
      if \<not> found then ret EvIgnored
      else (case sa_reason_codes suback of
          [r] \<Rightarrow> let e = \<lparr>se_packet_identifier = p, se_reason_string = sa_reason_string suback,
                         se_user_properties = sa_user_properties suback, se_reason_code = r\<rparr>
                 in ret (case k of Suback \<Rightarrow> EvSuback e | Unsuback \<Rightarrow> EvUnsuback e)
        | _ \<Rightarrow> reject RcProtocolError MeServer)))))"

definition publish_event_of :: "ack_mode \<Rightarrow> topic_name \<Rightarrow> publish_packet \<Rightarrow> publish_event" where
  "publish_event_of mode topic publish =
     \<lparr>pe_ack_mode = mode, pe_dup = pu_dup publish, pe_identified_qos = pu_identified_qos publish,
      pe_retain = pu_retain publish, pe_topic = topic,
      pe_payload_format_indicator = pu_payload_format_indicator publish,
      pe_message_expiry_interval = pu_message_expiry_interval publish,
      pe_response_topic = pu_response_topic publish,
      pe_correlation_data = pu_correlation_data publish,
      pe_user_properties = pu_user_properties publish,
      pe_subscription_identifiers = pu_subscription_identifiers publish,
      pe_content_type = pu_content_type publish, pe_message = pu_message publish\<rparr>"

text \<open>An acknowledgement sent on behalf of the user: \<open>minimal\<close>, \<open>send\<close>, \<open>flush\<close>.\<close>

definition respond ::
    "('n, 'e, 'k) transport \<Rightarrow> puback_kind \<Rightarrow> pid \<Rightarrow> reason_code \<Rightarrow> (('n, 'b) client, 'k mqtt_error, unit) comp"
  where
  "respond tr k p reason_code =
     send_packet tr (\<lambda>wr. puback_send wr k (puback_minimal p reason_code))"

definition poll_publish ::
    "('n, 'e, 'k) transport \<Rightarrow> (nat \<Rightarrow> ('b, 'p, 'm) comp) \<Rightarrow> fixed_header
     \<Rightarrow> (('n, 'b) client, 'k mqtt_error, event) comp" where
  "poll_publish tr pb header =
     bnd (gets MAX_SUBSCRIPTION_IDENTIFIERS) (\<lambda>maxs.
     bnd (gets MAX_USER_PROPERTIES) (\<lambda>maxu.
     bnd (on_raw (recv_body tr (publish_receive maxs maxu (tr_read tr) pb) header)) (\<lambda>packet.
     case pu_topic packet of
       TrName topic \<Rightarrow>
         bnd (gets cl_manual_ack_when) (\<lambda>manual_ack_when.
         let publish = publish_event_of Automatic topic packet;
             ack_mode = (if manual_ack_when publish then Manual else Automatic);
             publish = publish\<lparr>pe_ack_mode := ack_mode\<rparr>
         in
         bnd (on_session (\<lambda>s. inbound_publish s (pe_identified_qos publish) (pe_ack_mode publish)))
         (\<lambda>(action, event).
         thn (case action of
                Release _ \<Rightarrow> crash
              | Complete _ \<Rightarrow> crash
              | RNone \<Rightarrow> ret ()
              | Acknowledge reason_code \<Rightarrow>
                  unwrap (packet_identifier (pe_identified_qos publish)) (\<lambda>p. respond tr Ack p reason_code)
              | Receive reason_code \<Rightarrow>
                  unwrap (packet_identifier (pe_identified_qos publish)) (\<lambda>p. respond tr Rec p reason_code)
              | RDisconnect reason_code \<Rightarrow> close (Some reason_code))
         (case event of
            SmPublish \<Rightarrow> ret (EvPublish publish)
          | SmDuplicate ack_mode \<Rightarrow> ret (EvDuplicate (publish\<lparr>pe_ack_mode := ack_mode\<rparr>))
          | SmIgnored \<Rightarrow> ret EvIgnored
          | SmServerError \<Rightarrow> fail MeServer
          | _ \<Rightarrow> crash)))
     | _ \<Rightarrow> reject RcTopicAliasInvalid MeServer)))"

text \<open>The packet that the four arms for PUBACK, PUBREC, PUBREL and PUBCOMP start with.\<close>

definition receive_ack ::
    "('n, 'e, 'k) transport \<Rightarrow> (nat \<Rightarrow> ('b, 'p, 'm) comp) \<Rightarrow> puback_kind \<Rightarrow> fixed_header
     \<Rightarrow> (('n, 'b) client, 'k mqtt_error, puback_packet) comp" where
  "receive_ack tr pb k header =
     bnd (gets MAX_USER_PROPERTIES) (\<lambda>maxu.
     bnd (on_raw (recv_body tr (puback_receive k maxu (tr_read tr) pb) header)) (\<lambda>packet.
     thn (check_problem_information (pa_reason_string packet) (pa_user_properties packet))
       (ret packet)))"

definition poll_puback ::
    "remover \<Rightarrow> ('n, 'e, 'k) transport \<Rightarrow> (nat \<Rightarrow> ('b, 'p, 'm) comp) \<Rightarrow> fixed_header
     \<Rightarrow> (('n, 'b) client, 'k mqtt_error, event) comp" where
  "poll_puback sr tr pb header =
     bnd (receive_ack tr pb Ack header) (\<lambda>puback.
     bnd (on_session (\<lambda>s. inbound_puback sr s (pa_packet_identifier puback) (pa_reason_code puback)))
     (\<lambda>(action, event).
     thn (case action of
            RNone \<Rightarrow> ret ()
          | RDisconnect reason_code \<Rightarrow> close (Some reason_code)
          | _ \<Rightarrow> crash)
     (case event of
        SmIgnored \<Rightarrow> ret EvIgnored
      | SmRejected \<Rightarrow> unwrap (pubrej_from puback) (\<lambda>e. ret (EvPublishRejected e))
      | SmAcknowledged \<Rightarrow> unwrap (puback_event_new puback Automatic) (\<lambda>e. ret (EvPublishAcknowledged e))
      | SmServerError \<Rightarrow> fail MeServer
      | _ \<Rightarrow> crash)))"

definition poll_pubrec ::
    "remover \<Rightarrow> ('n, 'e, 'k) transport \<Rightarrow> (nat \<Rightarrow> ('b, 'p, 'm) comp) \<Rightarrow> fixed_header
     \<Rightarrow> (('n, 'b) client, 'k mqtt_error, event) comp" where
  "poll_pubrec sr tr pb header =
     bnd (receive_ack tr pb Rec header) (\<lambda>pubrec.
     bnd (on_session (\<lambda>s. inbound_pubrec sr s (pa_packet_identifier pubrec) (pa_reason_code pubrec)))
     (\<lambda>(action, event).
     thn (case action of
            RNone \<Rightarrow> ret ()
          | Release reason_code \<Rightarrow> respond tr Rel (pa_packet_identifier pubrec) reason_code
          | RDisconnect reason_code \<Rightarrow> close (Some reason_code)
          | _ \<Rightarrow> crash)
     (case event of
        SmIgnored \<Rightarrow> ret EvIgnored
      | SmRejected \<Rightarrow> unwrap (pubrej_from pubrec) (\<lambda>e. ret (EvPublishRejected e))
      | SmReceived mode \<Rightarrow> unwrap (puback_event_new pubrec mode) (\<lambda>e. ret (EvPublishReceived e))
      | SmServerError \<Rightarrow> fail MeServer
      | _ \<Rightarrow> crash)))"

definition poll_pubrel ::
    "remover \<Rightarrow> ('n, 'e, 'k) transport \<Rightarrow> (nat \<Rightarrow> ('b, 'p, 'm) comp) \<Rightarrow> fixed_header
     \<Rightarrow> (('n, 'b) client, 'k mqtt_error, event) comp" where
  "poll_pubrel sr tr pb header =
     bnd (receive_ack tr pb Rel header) (\<lambda>pubrel.
     bnd (on_session (\<lambda>s. inbound_pubrel sr s (pa_packet_identifier pubrel) (pa_reason_code pubrel)))
     (\<lambda>(action, event).
     thn (case action of
            RNone \<Rightarrow> ret ()
          | Complete reason_code \<Rightarrow> respond tr Comp (pa_packet_identifier pubrel) reason_code
          | RDisconnect reason_code \<Rightarrow> close (Some reason_code)
          | _ \<Rightarrow> crash)
     (case event of
        SmIgnored \<Rightarrow> ret EvIgnored
      | SmAborted \<Rightarrow> unwrap (pubrej_from pubrel) (\<lambda>e. ret (EvPublishAborted e))
      | SmReleased mode \<Rightarrow> unwrap (puback_event_new pubrel mode) (\<lambda>e. ret (EvPublishReleased e))
      | SmServerError \<Rightarrow> fail MeServer
      | _ \<Rightarrow> crash)))"

definition poll_pubcomp ::
    "remover \<Rightarrow> ('n, 'e, 'k) transport \<Rightarrow> (nat \<Rightarrow> ('b, 'p, 'm) comp) \<Rightarrow> fixed_header
     \<Rightarrow> (('n, 'b) client, 'k mqtt_error, event) comp" where
  "poll_pubcomp sr tr pb header =
     bnd (receive_ack tr pb Comp header) (\<lambda>pubcomp.
     bnd (on_session (\<lambda>s. inbound_pubcomp sr s (pa_packet_identifier pubcomp) (pa_reason_code pubcomp)))
     (\<lambda>(action, event).
     thn (case action of
            RNone \<Rightarrow> ret ()
          | RDisconnect reason_code \<Rightarrow> close (Some reason_code)
          | _ \<Rightarrow> crash)
     (case event of
        SmIgnored \<Rightarrow> ret EvIgnored
      | SmCompleted \<Rightarrow> unwrap (puback_event_new pubcomp Automatic) (\<lambda>e. ret (EvPublishComplete e))
      | SmServerError \<Rightarrow> fail MeServer
      | _ \<Rightarrow> crash)))"

definition poll_body ::
    "remover \<Rightarrow> ('n, 'e, 'k) transport \<Rightarrow> (nat \<Rightarrow> ('b, 'p, 'm) comp) \<Rightarrow> fixed_header
     \<Rightarrow> (('n, 'b) client, 'k mqtt_error, event) comp" where
  "poll_body sr tr pb header =
     bnd (ok_or MeServer (header_packet_type header)) (\<lambda>packet_type. case packet_type of
        PtPingresp \<Rightarrow>
          thn (on_raw (recv_body tr (ping_receive Resp :: _ \<Rightarrow> (_, (_, 'p) rx_error, _) comp) header))
            (ret EvPingresp)
      | PtSuback \<Rightarrow> poll_suback sr tr pb Suback header
      | PtUnsuback \<Rightarrow> poll_suback sr tr pb Unsuback header
      | PtPublish \<Rightarrow> poll_publish tr pb header
      | PtPuback \<Rightarrow> poll_puback sr tr pb header
      | PtPubrec \<Rightarrow> poll_pubrec sr tr pb header
      | PtPubrel \<Rightarrow> poll_pubrel sr tr pb header
      | PtPubcomp \<Rightarrow> poll_pubcomp sr tr pb header
      | PtDisconnect \<Rightarrow>
          bnd (gets MAX_USER_PROPERTIES) (\<lambda>maxu.
          bnd (on_raw (recv_body tr (disconnect_receive maxu (tr_read tr) pb) header)) (\<lambda>disconnect.
          thn (close None)
            (fail (MeDisconnect (dp_reason_code disconnect) (dp_reason_string disconnect)
                     (dp_user_properties disconnect) (dp_server_reference disconnect)))))
      | PtConnect \<Rightarrow> reject RcProtocolError MeServer
      | PtSubscribe \<Rightarrow> reject RcProtocolError MeServer
      | PtUnsubscribe \<Rightarrow> reject RcProtocolError MeServer
      | PtPingreq \<Rightarrow> reject RcProtocolError MeServer
      | PtConnack \<Rightarrow> reject RcProtocolError MeServer
      | PtAuth \<Rightarrow> reject RcProtocolError MeAuthPacketReceived)"

definition poll ::
    "remover \<Rightarrow> ('n, 'e, 'k) transport \<Rightarrow> (nat \<Rightarrow> ('b, 'p, 'm) comp)
     \<Rightarrow> (('n, 'b) client, 'k mqtt_error, event) comp" where
  "poll sr tr pb = bnd (poll_header tr) (poll_body sr tr pb)"

end
