(* ===== verification/Mqtt_Client_Calls.thy ===== *)
theory Mqtt_Client_Calls
  imports Mqtt_Client
begin

text \<open>
  What every call of the client promises about its connection, whatever the transport, the buffer
  provider and the server do. The errors of \<open>src/client/err.rs\<close> are of two kinds. After a
  recoverable one the connection is untouched. After any other one the client has given the
  connection up, and \<open>abort\<close> and \<open>connect\<close> find it in the state that they assert.
\<close>

section \<open>Calls\<close>

datatype 'n call =
    CConnect 'n connect_options "mqtt_string option"
  | CPing
  | CSubscribe topic_filter subscription_options
  | CUnsubscribe topic_filter unsubscription_options
  | CPublish publication_options "u8 list"
  | CRepublish pid publication_options "u8 list"
  | CRerelease
  | CAcknowledge pid reason_code ack_options
  | CReceive pid reason_code ack_options
  | CRelease pid ack_options
  | CComplete pid ack_options
  | CAbort
  | CDisconnect disconnect_options
  | CPollHeader
  | CPollBody fixed_header
  | CPoll

datatype answer =
    ADone
  | AConnected connected
  | APid pid
  | APublished "pid option"
  | AHeader fixed_header
  | AEvent event

abbreviation answers :: "('a \<Rightarrow> answer) \<Rightarrow> ('s, 'x, 'a) comp \<Rightarrow> ('s, 'x, answer) comp" where
  "answers f m \<equiv> bnd m (\<lambda>a. ret (f a))"

definition exec_call ::
    "remover \<Rightarrow> ('n, 'e, 'k) transport \<Rightarrow> (nat \<Rightarrow> ('b, 'p, 'm) comp) \<Rightarrow> 'n call
     \<Rightarrow> (('n, 'b) client, 'k mqtt_error, answer) comp" where
  "exec_call sr tr pb k = (case k of
      CConnect n options i \<Rightarrow> answers AConnected (client_connect tr pb n options i)
    | CPing \<Rightarrow> answers (\<lambda>_. ADone) (client_ping tr)
    | CSubscribe f options \<Rightarrow> answers APid (client_subscribe tr f options)
    | CUnsubscribe f options \<Rightarrow> answers APid (client_unsubscribe tr f options)
    | CPublish options m \<Rightarrow> answers APublished (client_publish tr options m)
    | CRepublish p options m \<Rightarrow> answers (\<lambda>_. ADone) (client_republish tr p options m)
    | CRerelease \<Rightarrow> answers (\<lambda>_. ADone) (client_rerelease tr)
    | CAcknowledge p rc options \<Rightarrow> answers (\<lambda>_. ADone) (manual_acknowledge sr tr p rc options)
    | CReceive p rc options \<Rightarrow> answers (\<lambda>_. ADone) (manual_receive sr tr p rc options)
    | CRelease p options \<Rightarrow> answers (\<lambda>_. ADone) (manual_release tr p options)
    | CComplete p options \<Rightarrow> answers (\<lambda>_. ADone) (manual_complete sr tr p options)
    | CAbort \<Rightarrow> answers (\<lambda>_. ADone) (client_abort tr)
    | CDisconnect options \<Rightarrow> answers (\<lambda>_. ADone) (client_disconnect tr options)
    | CPollHeader \<Rightarrow> answers AHeader (poll_header tr)
    | CPollBody header \<Rightarrow> answers AEvent (poll_body sr tr pb header)
    | CPoll \<Rightarrow> answers AEvent (poll sr tr pb))"

text \<open>\<open>poll_body\<close> is documented for headers that were received, which are not reserved.\<close>

fun call_ok :: "'n call \<Rightarrow> bool" where
  "call_ok (CPollBody header) = (header_packet_type header \<noteq> None)"
| "call_ok _ = True"

section \<open>Errors and the connection\<close>

abbreviation online :: "('n, 'b) client \<Rightarrow> bool" where
  "online c \<equiv> net_is_ok (ra_n (cl_raw c))"

text \<open>
  \<open>quiet\<close>: before the first byte; \<open>strict\<close>: from the first byte on; \<open>fair\<close>: a call. A call that is
  \<open>steady\<close> does not lose its connection when it succeeds.
\<close>

definition quiet :: "(('n, 'b) client, 'k mqtt_error, 'a) comp \<Rightarrow> bool" where
  "quiet m \<longleftrightarrow> (\<forall>c x c'. m c = (x, c') \<longrightarrow> cl_raw c' = cl_raw c \<and> (\<forall>e. x = Err e \<longrightarrow> is_recoverable e))"

definition strict :: "(('n, 'b) client, 'k mqtt_error, 'a) comp \<Rightarrow> bool" where
  "strict m \<longleftrightarrow> (\<forall>c e c'. m c = (Err e, c') \<longrightarrow> \<not> is_recoverable e \<and> \<not> online c')"

definition fair :: "(('n, 'b) client, 'k mqtt_error, 'a) comp \<Rightarrow> bool" where
  "fair m \<longleftrightarrow> (\<forall>c e c'. m c = (Err e, c') \<longrightarrow>
     (if is_recoverable e then cl_raw c' = cl_raw c else \<not> online c'))"

definition steady :: "(('n, 'b) client, 'k mqtt_error, 'a) comp \<Rightarrow> bool" where
  "steady m \<longleftrightarrow> (\<forall>c a c'. m c = (Ok a, c') \<longrightarrow> online c \<longrightarrow> online c')"

named_theorems quiet_rules
named_theorems strict_rules
named_theorems steady_rules

lemma quiet_bnd: "quiet m \<Longrightarrow> (\<And>a. quiet (f a)) \<Longrightarrow> quiet (bnd m f)"
  unfolding quiet_def bnd_def by (auto split: prod.splits res.splits)

lemma strict_bnd: "strict m \<Longrightarrow> (\<And>a. strict (f a)) \<Longrightarrow> strict (bnd m f)"
  unfolding strict_def bnd_def by (auto split: prod.splits res.splits)

lemma fair_bnd: "quiet m \<Longrightarrow> (\<And>a. fair (f a)) \<Longrightarrow> fair (bnd m f)"
  unfolding fair_def quiet_def bnd_def by (auto split: prod.splits res.splits if_splits)

lemma fair_strict: "strict m \<Longrightarrow> fair m"
  by (auto simp: strict_def fair_def)

lemma steady_bnd [steady_rules]: "steady m \<Longrightarrow> (\<And>a. steady (f a)) \<Longrightarrow> steady (bnd m f)"
  unfolding steady_def bnd_def by (auto split: prod.splits res.splits)

lemmas run_defs = ret_def fail_def crash_def gets_def modify_def asserts_def ensure_def

lemma quiet_basic [quiet_rules]:
  "quiet (ret a)" "quiet crash" "quiet (gets g)" "quiet (asserts b)" "quiet (on_session f)"
  "is_recoverable e \<Longrightarrow> quiet (ensure b e)" "is_recoverable e \<Longrightarrow> quiet (fail e)"
  "is_recoverable e \<Longrightarrow> quiet (ok_or e v)"
  by (auto simp: quiet_def run_defs on_session_def ok_or_def split: option.splits)

lemma strict_basic [strict_rules]:
  "strict (ret a)" "strict crash" "strict (gets g)" "strict (asserts b)" "strict (on_session f)"
  "strict (modify h)" "strict (close r)" "\<not> is_recoverable e \<Longrightarrow> strict (reject rc e)"
  by (auto simp: strict_def run_defs on_session_def close_def reject_def bnd_def split: option.splits)

lemma strict_on_raw [strict_rules]: "net_strict m \<Longrightarrow> strict (on_raw m)"
  by (auto simp: strict_def net_strict_def on_raw_def split: prod.splits res.splits)

lemma steady_basic [steady_rules]:
  "steady (ret a)" "steady crash" "steady (gets g)" "steady (asserts b)" "steady (on_session f)"
  "steady (ensure b e)" "steady (fail e)" "steady (ok_or e v)" "steady (reject rc e)"
  by (auto simp: steady_def run_defs on_session_def ok_or_def reject_def close_def bnd_def split: option.splits if_splits)

lemma steady_on_raw [steady_rules]: "net_strict m \<Longrightarrow> steady (on_raw m)"
  by (auto simp: steady_def net_strict_def on_raw_def split: prod.splits res.splits)

lemma unwrap_rules:
  "(\<And>v. quiet (f v)) \<Longrightarrow> quiet (unwrap y f)" "(\<And>v. strict (g v)) \<Longrightarrow> strict (unwrap y g)"
  "(\<And>v. fair (h v)) \<Longrightarrow> fair (unwrap y h)" "(\<And>v. steady (i v)) \<Longrightarrow> steady (unwrap y i)"
  by (cases y; simp add: unwrap_def quiet_basic strict_basic steady_basic fair_strict)+

lemma if_rules:
  "quiet m \<Longrightarrow> quiet m' \<Longrightarrow> quiet (if b then m else m')"
  "(b \<Longrightarrow> strict m) \<Longrightarrow> (\<not> b \<Longrightarrow> strict m') \<Longrightarrow> strict (if b then m else m')"
  "steady m \<Longrightarrow> steady m' \<Longrightarrow> steady (if b then m else m')"
  by simp_all

lemma strict_sends [strict_rules]:
  "strict (send_only tr s)" "strict (flush tr)" "strict (send_packet tr s)" "strict (respond tr k p rc)"
  "strict (receive_header tr)"
  unfolding send_packet_def send_only_def flush_def respond_def receive_header_def
  by (intro strict_bnd strict_on_raw net_strict_raw)+

lemma steady_sends [steady_rules]:
  "steady (send_only tr s)" "steady (flush tr)" "steady (send_packet tr s)" "steady (respond tr k p rc)"
  "steady (receive_header tr)"
  unfolding send_packet_def send_only_def flush_def respond_def receive_header_def
  by (intro steady_bnd steady_on_raw net_strict_raw)+

lemma recoverable [simp]:
  "is_recoverable MePacketIdentifierNotInFlight" "is_recoverable MeAllPacketIdentifiersUsed"
  "is_recoverable MeManualAckNotAllowed" "is_recoverable MeQoSMismatched"
  "is_recoverable MeHandshakeStateMismatched" "is_recoverable MeIllegalReasonCode"
  "is_recoverable MePacketMaximumLengthExceeded" "is_recoverable MeServerMaximumPacketSizeExceeded"
  "is_recoverable MeSessionBuffer" "is_recoverable MeSendQuotaExceeded"
  "is_recoverable MeUnsupportedByServer" "is_recoverable MeIllegalNoLocalSharedSubscription"
  "is_recoverable MeIllegalDisconnectSessionExpiryInterval"
  "\<not> is_recoverable MeServer" "\<not> is_recoverable MeAuthPacketReceived"
  "\<not> is_recoverable (MeDisconnect a b d e)"
  by (simp_all add: is_recoverable_def)

lemma quiet_checks [quiet_rules]:
  "quiet (check_size l)" "quiet (assert_user_properties us)" "quiet (check_supported options)"
  "quiet (refused x)"
  unfolding check_size_def assert_user_properties_def check_supported_def refused_def
  by (auto intro!: quiet_bnd quiet_rules unwrap_rules split: sum.split sm_error.split)

lemma steady_checks [steady_rules]:
  "steady (check_size l)" "steady (assert_user_properties us)" "steady (check_supported options)"
  "steady (refused x)" "steady (check_problem_information rs us)"
  unfolding check_size_def assert_user_properties_def check_supported_def refused_def
    check_problem_information_def
  by (auto intro!: steady_rules unwrap_rules split: sum.split sm_error.split)

lemma strict_checks [strict_rules]: "strict (check_problem_information rs us)"
  unfolding check_problem_information_def by (auto intro!: strict_bnd strict_rules)

text \<open>A call that checks first and then sends.\<close>

lemma fair_sends:
  "fair (send_packet tr s)" "fair (thn (send_packet tr s) (ret x))"
  "fair (thn (send_packet tr s) (close r))"
  by (intro fair_strict strict_bnd strict_rules)+

lemmas fair_intros = fair_sends fair_bnd quiet_bnd quiet_rules unwrap_rules(1,3)

lemma fair_calls:
  "fair (client_subscribe tr f so)" "fair (client_unsubscribe tr f uo)"
  "fair (manual_acknowledge sr tr p rc ao)" "fair (manual_receive sr tr p rc ao)"
  "fair (manual_release tr p ao)" "fair (manual_complete sr tr p ao)"
  "fair (client_disconnect tr dis)" "fair (client_ping tr)"
  unfolding client_subscribe_def client_unsubscribe_def manual_acknowledge_def manual_receive_def
    manual_release_def manual_complete_def client_disconnect_def client_ping_def Let_def
  by (intro fair_intros; simp)+

lemma steady_calls:
  "steady (client_subscribe tr f so)" "steady (client_unsubscribe tr f uo)"
  "steady (manual_acknowledge sr tr p rc ao)" "steady (manual_receive sr tr p rc ao)"
  "steady (manual_release tr p ao)" "steady (manual_complete sr tr p ao)" "steady (client_ping tr)"
  unfolding client_subscribe_def client_unsubscribe_def manual_acknowledge_def manual_receive_def
    manual_release_def manual_complete_def client_ping_def Let_def
  by (intro steady_rules unwrap_rules)+

lemma quiet_case_qos:
  "quiet a \<Longrightarrow> quiet b \<Longrightarrow> quiet d
   \<Longrightarrow> quiet (case q of AtMostOnce \<Rightarrow> a | AtLeastOnce \<Rightarrow> b | ExactlyOnce \<Rightarrow> d)"
  by (cases q) simp_all

lemma fair_case_prod: "(\<And>a b. fair (f a b)) \<Longrightarrow> fair (case v of (a, b) \<Rightarrow> f a b)"
  by (cases v) simp

lemma steady_case_qos:
  "steady a \<Longrightarrow> steady b \<Longrightarrow> steady d
   \<Longrightarrow> steady (case q of AtMostOnce \<Rightarrow> a | AtLeastOnce \<Rightarrow> b | ExactlyOnce \<Rightarrow> d)"
  by (cases q) simp_all

lemma steady_case_prod: "(\<And>a b. steady (f a b)) \<Longrightarrow> steady (case v of (a, b) \<Rightarrow> f a b)"
  by (cases v) simp

lemma fair_republish: "fair (client_republish tr p options m)"
  unfolding client_republish_def by (intro fair_intros quiet_case_qos quiet_bnd; simp)

lemma fair_publish: "fair (client_publish tr options m)"
proof -
  have h: "quiet (case handle of
      None \<Rightarrow> ret ()
    | Some handle \<Rightarrow> bnd (on_session (\<lambda>_. outbound_publish handle q mode)) (\<lambda>x. case x of
         Inl NoCapacity \<Rightarrow> fail MeSessionBuffer | Inl _ \<Rightarrow> crash | Inr _ \<Rightarrow> ret ()))" for handle q mode
    by (auto intro!: quiet_bnd quiet_rules split: option.split sum.split sm_error.split)
  show ?thesis
    unfolding client_publish_def
    by (intro fair_intros if_rules(1) quiet_case_qos fair_case_prod h; simp)
qed

lemma steady_publishes: "steady (client_publish tr options m)" "steady (client_republish tr p options m)"
proof -
  have h: "steady (case handle of
      None \<Rightarrow> ret ()
    | Some handle \<Rightarrow> bnd (on_session (\<lambda>_. outbound_publish handle q mode)) (\<lambda>x. case x of
         Inl NoCapacity \<Rightarrow> fail MeSessionBuffer | Inl _ \<Rightarrow> crash | Inr _ \<Rightarrow> ret ()))" for handle q mode
    by (auto intro!: steady_rules split: option.split sum.split sm_error.split)
  show "steady (client_publish tr options m)" "steady (client_republish tr p options m)"
    unfolding client_publish_def client_republish_def
    by (intro steady_rules unwrap_rules if_rules(3) steady_case_qos steady_case_prod h)+
qed

section \<open>Connecting, retransmitting and polling\<close>

lemma strict_set_net: "strict (on_raw (set_net n))" "steady (on_raw (set_net n))"
  by (auto simp: strict_def steady_def on_raw_def set_net_def split: if_splits)

lemma strict_case_type:
  "strict a \<Longrightarrow> (\<And>t. strict (f t)) \<Longrightarrow> strict (case v of None \<Rightarrow> a | Some t \<Rightarrow> f t)"
  "steady a' \<Longrightarrow> (\<And>t. steady (f' t)) \<Longrightarrow> steady (case v of None \<Rightarrow> a' | Some t \<Rightarrow> f' t)"
  by (cases v; simp)+

lemma close_fail:
  "\<not> is_recoverable e \<Longrightarrow> strict (thn (close r) (fail e))" "steady (thn (close r) (fail e))"
  by (auto simp: strict_def steady_def close_def run_defs bnd_def)

lemma steady_modify:
  "steady (modify (\<lambda>c. c\<lparr>cl_client_config := f c\<rparr>))"
  "steady (modify (\<lambda>c. c\<lparr>cl_shared_config := g c, cl_server_config := h c\<rparr>))"
  by (auto simp: steady_def modify_def)

lemma handle_connack_rules: "strict (handle_connack options i ca)" "steady (handle_connack options i ca)"
  unfolding handle_connack_def
  by (intro close_fail strict_case_type if_rules strict_bnd strict_rules steady_rules steady_modify; simp)+

lemma assert_user_properties_strict [strict_rules]: "strict (assert_user_properties us)"
  unfolding assert_user_properties_def by (intro strict_bnd strict_rules)

lemma strict_connect: "strict (client_connect tr pb n options i)"
  unfolding client_connect_def
  by (intro strict_bnd strict_rules strict_set_net unwrap_rules strict_case_type if_rules(2) net_strict_raw
      handle_connack_rules; simp)

lemma steady_connect: "steady (client_connect tr pb n options i)"
  unfolding client_connect_def
  by (intro steady_rules steady_modify strict_set_net unwrap_rules strict_case_type if_rules(3)
      net_strict_raw handle_connack_rules)

lemma rerelease_step_rules: "strict (rerelease_step tr i)" "steady (rerelease_step tr i)"
  unfolding rerelease_step_def
  by (auto intro!: strict_bnd strict_rules steady_rules)

lemma rerelease_loop_rules: "strict (rerelease_loop tr i)" "steady (rerelease_loop tr i)"
proof -
  have "(\<forall>e c'. rerelease_loop tr i c = (Err e, c') \<longrightarrow> \<not> is_recoverable e \<and> \<not> online c')
      \<and> (\<forall>a c'. rerelease_loop tr i c = (Ok a, c') \<longrightarrow> online c \<longrightarrow> online c')" for c
  proof (induction tr i c rule: rerelease_loop.induct)
    case (1 tr i c)
    obtain x c1 where x: "rerelease_step tr i c = (x, c1)" by fastforce
    have "\<forall>e. x = Err e \<longrightarrow> \<not> is_recoverable e \<and> \<not> online c1" "\<forall>a. x = Ok a \<longrightarrow> online c \<longrightarrow> online c1"
      using rerelease_step_rules [of tr i] x unfolding strict_def steady_def by auto
    then show ?case
      using 1 x by (subst (1 2) rerelease_loop.simps) (auto split: res.splits option.splits)
  qed
  then show "strict (rerelease_loop tr i)" "steady (rerelease_loop tr i)"
    by (auto simp: strict_def steady_def)
qed

lemma rerelease_rules: "strict (client_rerelease tr)" "steady (client_rerelease tr)"
  unfolding client_rerelease_def
  by (intro strict_bnd strict_rules steady_rules strict_case_type rerelease_loop_rules)+

text \<open>The session asks for a disconnection exactly when it reports an error of the server.\<close>

definition paired :: "response \<times> sm_event \<Rightarrow> bool" where
  "paired r \<longleftrightarrow> (snd r = SmServerError \<longleftrightarrow> (\<exists>rc. fst r = RDisconnect rc))"

lemmas session_splits = if_splits option.splits peer_publish_state.splits local_publish_state.splits
  ack_mode.splits identified_qos.splits bool.splits

lemma inbound_paired:
  "inbound_publish s iq mode = Some (r, s') \<Longrightarrow> paired r"
  "inbound_puback sr s p rc = Some (r, s') \<Longrightarrow> paired r"
  "inbound_pubrec sr s p rc = Some (r, s') \<Longrightarrow> paired r"
  "inbound_pubrel sr s p rc = Some (r, s') \<Longrightarrow> paired r"
  "inbound_pubcomp sr s p rc = Some (r, s') \<Longrightarrow> paired r"
proof -
  have "ih_inbound_republish h q = Some (r, s') \<Longrightarrow> paired r" for h q
    by (cases q) (auto simp: paired_def split: session_splits)
  then show "inbound_publish s iq mode = Some (r, s') \<Longrightarrow> paired r"
    by (auto simp: inbound_publish_def paired_def split: session_splits)
qed (auto simp: inbound_puback_def oh_inbound_puback_def inbound_pubrec_def oh_inbound_pubrec_def
    inbound_pubrel_def ih_inbound_pubrel_def inbound_pubcomp_def oh_inbound_pubcomp_def paired_def
    split: session_splits)

lemma session_bnd:
  "(\<And>s a s'. f s = Some (a, s') \<Longrightarrow> strict (g a)) \<Longrightarrow> strict (bnd (on_session f) g)"
  "(\<And>s a s'. f s = Some (a, s') \<Longrightarrow> steady (h a)) \<Longrightarrow> steady (bnd (on_session f) h)"
  by (auto simp: strict_def steady_def bnd_def on_session_def split: option.splits prod.splits)

text \<open>The shape of the arms of \<open>poll_body\<close>: react to the answer of the session, then tell the user.\<close>

lemma react_rules:
  fixes react :: "response \<Rightarrow> (('n, 'b) client, 'k mqtt_error, unit) comp"
    and tell :: "sm_event \<Rightarrow> (('n, 'b) client, 'k mqtt_error, event) comp"
  assumes "paired r" and "\<And>rc. react (RDisconnect rc) = close (Some rc)" and "tell SmServerError = fail MeServer"
    and "\<And>a. (\<forall>rc. a \<noteq> RDisconnect rc) \<Longrightarrow> strict (react a) \<and> steady (react a)"
    and "\<And>e. e \<noteq> SmServerError \<Longrightarrow> strict (tell e) \<and> steady (tell e)"
  shows "strict (case r of (a, e) \<Rightarrow> thn (react a) (tell e))" "steady (case r of (a, e) \<Rightarrow> thn (react a) (tell e))"
proof -
  obtain a e where r: "r = (a, e)" by fastforce
  have "strict (thn (react a) (tell e)) \<and> steady (thn (react a) (tell e))"
  proof (cases "e = SmServerError")
    case True
    then obtain rc where "a = RDisconnect rc" using assms(1) r by (auto simp: paired_def)
    then show ?thesis using True assms(2,3) by (simp add: close_fail)
  next
    case False
    then have "\<forall>rc. a \<noteq> RDisconnect rc" using assms(1) r by (auto simp: paired_def)
    then have "strict (react a)" "steady (react a)" "strict (tell e)" "steady (tell e)"
      using False assms(4,5) by blast+
    then show ?thesis by (intro conjI strict_bnd steady_bnd)
  qed
  then show "strict (case r of (a, e) \<Rightarrow> thn (react a) (tell e))"
    "steady (case r of (a, e) \<Rightarrow> thn (react a) (tell e))" by (simp_all add: r)
qed

lemma receive_ack_rules: "strict (receive_ack tr pb k h)" "steady (receive_ack tr pb k h)"
  unfolding receive_ack_def by (intro strict_bnd strict_rules steady_rules net_strict_raw)+

lemma poll_ack_rules:
  "strict (poll_puback sr tr pb h)" "strict (poll_pubrec sr tr pb h)" "strict (poll_pubrel sr tr pb h)"
  "strict (poll_pubcomp sr tr pb h)" "steady (poll_puback sr tr pb h)" "steady (poll_pubrec sr tr pb h)"
  "steady (poll_pubrel sr tr pb h)" "steady (poll_pubcomp sr tr pb h)"
  unfolding poll_puback_def poll_pubrec_def poll_pubrel_def poll_pubcomp_def
  by (intro strict_bnd [OF receive_ack_rules(1)] steady_bnd [OF receive_ack_rules(2)] session_bnd
      react_rules; (erule inbound_paired
      | auto intro!: strict_rules steady_rules unwrap_rules split: response.split sm_event.split))+

lemma case_topic:
  "(\<And>t. strict (f t)) \<Longrightarrow> strict g \<Longrightarrow> strict (case r of TrName t \<Rightarrow> f t | TrAlias _ \<Rightarrow> g | TrMapping _ _ \<Rightarrow> g)"
  "(\<And>t. steady (f t)) \<Longrightarrow> steady g \<Longrightarrow> steady (case r of TrName t \<Rightarrow> f t | TrAlias _ \<Rightarrow> g | TrMapping _ _ \<Rightarrow> g)"
  by (cases r; simp)+

lemma poll_publish_rules: "strict (poll_publish tr pb h)" "steady (poll_publish tr pb h)"
  unfolding poll_publish_def Let_def
  by (intro case_topic session_bnd react_rules strict_bnd strict_rules steady_rules net_strict_raw;
      (erule inbound_paired
       | auto intro!: strict_rules steady_rules unwrap_rules split: response.split sm_event.split))+

lemma poll_suback_rules: "strict (poll_suback sr tr pb k h)" "steady (poll_suback sr tr pb k h)"
  unfolding poll_suback_def Let_def
  by (auto intro!: strict_bnd strict_rules steady_rules net_strict_raw split: list.split)

lemma poll_header_rules: "strict (poll_header tr)" "steady (poll_header tr)"
  unfolding poll_header_def
  by (intro strict_bnd strict_rules steady_rules if_rules; simp)+

lemmas poll_rules = poll_ack_rules poll_publish_rules poll_suback_rules

lemma poll_body_rules:
  assumes "header_packet_type h \<noteq> None"
  shows "strict (poll_body sr tr pb h)" "steady (poll_body sr tr pb h)"
proof -
  obtain t where t: "header_packet_type h = Some t" using assms by auto
  show "strict (poll_body sr tr pb h)"
    unfolding poll_body_def t ok_or_def option.case bnd_ret
    by (cases t) (simp_all, (intro close_fail(1) strict_bnd strict_rules net_strict_raw poll_rules; simp)+)
  show "steady (poll_body sr tr pb h)"
    unfolding poll_body_def t ok_or_def option.case bnd_ret
    by (cases t) (simp_all, (intro close_fail(2) steady_rules net_strict_raw poll_rules)+)
qed

lemma poll_header_type:
  assumes "poll_header tr c = (Ok h, c')"
  shows "header_packet_type h \<noteq> None"
  using assms unfolding poll_header_def
  by (auto simp: reject_def close_def run_defs bnd_def split: if_splits prod.splits res.splits)

lemma bnd_when:
  assumes "\<And>c a c'. m c = (Ok a, c') \<Longrightarrow> P a"
  shows "strict m \<Longrightarrow> (\<And>a. P a \<Longrightarrow> strict (f a)) \<Longrightarrow> strict (bnd m f)"
    and "steady m \<Longrightarrow> (\<And>a. P a \<Longrightarrow> steady (g a)) \<Longrightarrow> steady (bnd m g)"
  using assms unfolding strict_def steady_def bnd_def by (fastforce split: prod.splits res.splits)+

lemma poll_strict: "strict (poll sr tr pb)" "steady (poll sr tr pb)"
  unfolding poll_def
  by (rule bnd_when [OF poll_header_type], assumption, rule poll_header_rules, erule poll_body_rules)+

lemma abort_run:
  "client_abort tr c = (x, c') \<Longrightarrow> (\<forall>e. x \<noteq> Err e) \<and> (\<forall>a. x = Ok a \<longrightarrow> ra_n (cl_raw c') = NTerminated)"
  by (auto simp: client_abort_def raw_abort_def close_with_def Let_def
      split: prod.splits res.splits net_state.splits if_splits)

lemma fair_answers: "fair m \<Longrightarrow> fair (answers f m)"
  unfolding fair_def bnd_def ret_def by (auto split: prod.splits res.splits)

lemma abort_online: "online c \<Longrightarrow> client_abort tr c = (Panic, c)"
  by (cases "ra_n (cl_raw c)") (simp_all add: client_abort_def raw_abort_def)

lemma fair_abort: "fair (client_abort tr)" "steady (client_abort tr)"
  unfolding fair_def steady_def using abort_run [of tr] abort_online by fastforce+

lemmas fair_all = fair_calls fair_publish fair_republish fair_abort(1)
  strict_connect [THEN fair_strict] rerelease_rules(1) [THEN fair_strict]
  poll_header_rules(1) [THEN fair_strict] poll_body_rules(1) [THEN fair_strict]
  poll_strict(1) [THEN fair_strict]

lemmas steady_all = steady_calls steady_publishes fair_abort(2) steady_connect rerelease_rules(2)
  poll_header_rules(2) poll_body_rules(2) poll_strict(2)

lemma exec_call_fair: "call_ok k \<Longrightarrow> fair (exec_call sr tr pb k)"
  by (cases k) (simp_all add: exec_call_def fair_answers fair_all)

lemma exec_call_steady:
  "call_ok k \<Longrightarrow> (\<forall>options. k \<noteq> CDisconnect options) \<Longrightarrow> steady (exec_call sr tr pb k)"
  by (cases k) (simp_all add: exec_call_def steady_bnd steady_basic steady_all)

section \<open>Properties\<close>

text \<open>A client that is not connected, for the witnesses.\<close>

definition idle_client :: "(slice_reader \<times> slice_writer, unit) client" where
  "idle_client =
     \<lparr>MAX_SUBSCRIPTION_IDENTIFIERS = 1, MAX_USER_PROPERTIES = 1,
      cl_client_config = client_config_default, cl_shared_config = shared_config_default,
      cl_server_config = server_config_default, cl_session = session_default 1 2 2,
      cl_raw = new_disconnected (), cl_manual_ack_when = (\<lambda>_. False)\<rparr>"

text \<open>C31: Every call of the client keeps the promise of its error. When the error is recoverable, the
  connection is as it was before the call: nothing was read, nothing was written. When it is not,
  the client has given the connection up, so that \<open>connect\<close> with a new one passes its assertion.
  This holds for every transport, buffer provider, server and state of the client, and for
  \<open>poll_body\<close> when its header has no reserved packet type.\<close>

theorem errors_and_connection:
  assumes "call_ok k" and "exec_call sr tr pb k c = (Err e, c')"
  shows "(is_recoverable e \<longrightarrow> cl_raw c' = cl_raw c)
    \<and> (\<not> is_recoverable e \<longrightarrow> \<not> net_is_ok (ra_n (cl_raw c'))
         \<and> (\<forall>n. \<exists>r. set_net n (cl_raw c') = (Ok () :: ('x, unit) res, r) \<and> ra_n r = NOk n))"
  using exec_call_fair [OF assms(1), of sr tr pb] assms(2)
  by (auto simp: fair_def set_net_def split: if_splits)

theorem errors_and_connection_witness:
  "exec_call last_takes_place slice_connection (alloc_provide :: nat \<Rightarrow> (unit, unit, u8 list) comp) CPing idle_client
     = (Err MeRecoveryRequired, idle_client)
   \<and> \<not> is_recoverable (MeRecoveryRequired :: bool mqtt_error) \<and> \<not> net_is_ok (ra_n (cl_raw idle_client))
   \<and> (\<forall>n. \<exists>r. set_net n (cl_raw idle_client) = (Ok () :: (unit, unit) res, r) \<and> ra_n r = NOk n)"
proof -
  have run: "exec_call last_takes_place slice_connection (alloc_provide :: nat \<Rightarrow> (unit, unit, u8 list) comp) CPing idle_client
      = (Err MeRecoveryRequired, idle_client)"
    by (simp add: exec_call_def client_ping_def send_packet_def send_only_def on_raw_def raw_send_def
        with_net_def idle_client_def new_disconnected_def bnd_def)
  have no: "\<not> is_recoverable (MeRecoveryRequired :: bool mqtt_error)"
    by (simp add: is_recoverable_def)
  have ok: "call_ok CPing" by simp
  show ?thesis
    using errors_and_connection [OF ok run, THEN conjunct2, THEN mp, OF no] no run by (intro conjI) blast+
qed

text \<open>C32: A call that succeeds does not lose the connection, with the exception of \<open>disconnect\<close>, which is
  there to close it.\<close>

theorem success_keeps_connection:
  assumes "call_ok k" and "\<forall>options. k \<noteq> CDisconnect options" and "net_is_ok (ra_n (cl_raw c))"
    and "exec_call sr tr pb k c = (Ok a, c')"
  shows "net_is_ok (ra_n (cl_raw c'))"
  using exec_call_steady [OF assms(1,2), of sr tr pb] assms(3,4) by (auto simp: steady_def)

text \<open>The same client after \<open>set_net\<close>.\<close>

definition busy_client :: "(slice_reader \<times> slice_writer, unit) client" where
  "busy_client = idle_client\<lparr>cl_raw := (cl_raw idle_client)\<lparr>ra_n := NOk (slice_reader_new [], slice_writer_new [0, 0, 0, 0])\<rparr>\<rparr>"

theorem success_keeps_connection_witness:
  "let c' = snd (exec_call last_takes_place slice_connection (alloc_provide :: nat \<Rightarrow> (unit, unit, u8 list) comp) CPing busy_client) in
   exec_call last_takes_place slice_connection (alloc_provide :: nat \<Rightarrow> (unit, unit, u8 list) comp) CPing busy_client = (Ok ADone, c')
   \<and> net_is_ok (ra_n (cl_raw busy_client)) \<and> net_is_ok (ra_n (cl_raw c'))"
proof -
  let ?run = "exec_call last_takes_place slice_connection (alloc_provide :: nat \<Rightarrow> (unit, unit, u8 list) comp) CPing busy_client"
  have "fst ?run = Ok ADone" and on: "online busy_client" by code_simp+
  hence run: "?run = (Ok ADone, snd ?run)" by (simp add: prod_eq_iff)
  show ?thesis using success_keeps_connection [OF _ _ on run] run on by simp
qed

end
