(* ===== verification/Mqtt_Received.thy ===== *)
theory Mqtt_Received
  imports Mqtt_Client_Calls
begin

text \<open>
  What the library hands to its user is well-formed, whatever the server sends. A computation
  \<^emph>\<open>gives\<close> a property when every value it returns has it. The rules follow the readers of
  \<open>src/io/read.rs\<close>, the packets of \<open>src/v5/packet\<close> and the arms of \<open>poll_body\<close>.
\<close>

section \<open>Values that a computation returns\<close>

definition gives :: "('a \<Rightarrow> bool) \<Rightarrow> ('s, 'e, 'a) comp \<Rightarrow> bool" where
  "gives P m \<longleftrightarrow> (\<forall>s a s'. m s = (Ok a, s') \<longrightarrow> P a)"

named_theorems gives_rules

lemma givesD: "gives P m \<Longrightarrow> m s = (Ok a, s') \<Longrightarrow> P a"
  by (auto simp: gives_def)

lemma gives_weaken: "gives P m \<Longrightarrow> (\<And>a. P a \<Longrightarrow> Q a) \<Longrightarrow> gives Q m"
  by (auto simp: gives_def)

lemma gives_any [gives_rules]: "gives (\<lambda>_. True) m"
  by (simp add: gives_def)

lemma gives_basic:
  "gives P (ret a) \<longleftrightarrow> P a" "gives P (fail e)" "gives P crash" "gives P (reject rc e)"
  by (auto simp: gives_def run_defs reject_def close_def bnd_def)

lemma gives_bnd: "gives P m \<Longrightarrow> (\<And>a. P a \<Longrightarrow> gives Q (f a)) \<Longrightarrow> gives Q (bnd m f)"
  unfolding gives_def bnd_def by (fastforce split: prod.splits res.splits)

lemma gives_then: "(\<And>a. gives Q (f a)) \<Longrightarrow> gives Q (bnd m f)"
  by (rule gives_bnd [OF gives_any])

lemma gives_map_err [gives_rules]: "gives P m \<Longrightarrow> gives P (map_err f m)"
  by (auto simp: gives_def)

lemma gives_ok_or: "(\<And>a. v = Some a \<Longrightarrow> P a) \<Longrightarrow> gives P (ok_or e v)"
  by (cases v) (auto simp: gives_basic)

lemma gives_unwrap: "(\<And>a. v = Some a \<Longrightarrow> gives P (f a)) \<Longrightarrow> gives P (unwrap v f)"
  by (cases v) (auto simp: gives_basic unwrap_def)

lemma gives_if: "(b \<Longrightarrow> gives P m) \<Longrightarrow> (\<not> b \<Longrightarrow> gives P m') \<Longrightarrow> gives P (if b then m else m')"
  by simp

lemma gives_guard:
  "(\<And>s. gives P (f s)) \<Longrightarrow> gives P (\<lambda>s. f s s)"
  "gives P m \<Longrightarrow> gives P (\<lambda>s. if b s then (Err e, s) else m s)"
  by (auto simp: gives_def split: if_splits)

lemma gives_body_while:
  assumes "\<And>acc. I acc \<Longrightarrow> gives I (step acc)" and "I acc"
  shows "gives I (body_while cond step acc)"
proof -
  have "I acc \<Longrightarrow> body_loop n cond step acc r = (Ok x, r') \<Longrightarrow> I x" for n acc r x r'
  proof (induction n arbitrary: acc r)
    case (Suc n)
    show ?case
    proof (cases "cond acc r")
      case True
      with Suc.prems(2) obtain a s where a: "step acc r = (Ok a, s)" "body_loop n cond step a s = (Ok x, r')"
        by (auto elim!: bnd_OkE)
      then show ?thesis using Suc.IH [OF _ a(2)] givesD [OF assms(1) [OF Suc.prems(1)] a(1)] by blast
    qed (use Suc.prems in auto)
  qed (auto split: if_splits)
  then show ?thesis using assms(2) unfolding gives_def body_while_def by blast
qed

section \<open>Readers\<close>

lemma gives_fill: "gives (\<lambda>bs. length bs = n) (fill conv rd n)"
proof (induction n rule: less_induct)
  case (less n)
  show ?case
    unfolding gives_def
  proof (intro allI impI)
    fix s a s'
    assume run: "fill conv rd n s = (Ok a, s')"
    show "length a = n"
    proof (cases "n = 0")
      case False
      with run obtain bs s1 where bs: "bs \<noteq> []" "length bs \<le> n"
        "bnd (fill conv rd (n - length bs)) (\<lambda>more. ret (bs @ more)) s1 = (Ok a, s')"
        by (subst (asm) fill.simps) (auto split: prod.splits res.splits if_splits)
      from bs(3) obtain more s2 where m: "fill conv rd (n - length bs) s1 = (Ok more, s2)" "a = bs @ more"
        by (auto elim!: bnd_OkE simp: ret_def)
      then show ?thesis using givesD [OF less [of "n - length bs"] m(1)] bs(1,2) False by simp
    qed (use run in \<open>simp add: fill.simps\<close>)
  qed
qed

lemma gives_store: "gives (\<lambda>bs. length bs = n) (body_store rd pb n)"
  unfolding gives_def body_store_def
  by (auto split: if_splits prod.splits res.splits dest: givesD [OF gives_fill])

lemma gives_read_binary [gives_rules]: "gives (\<lambda>b. length b \<le> MAX_LENGTH) (read_binary rd (body_store rd' pb))"
  unfolding read_binary_def
  by (rule gives_then, rule gives_weaken [OF gives_store])
     (simp add: MAX_LENGTH_def u16_unat_lt [THEN less_Suc_eq_le [THEN iffD1, OF less_le_trans]])

lemma gives_read_string [gives_rules]: "gives string_ok (read_string rd (body_store rd' pb))"
  unfolding read_string_def
  by (rule gives_bnd [OF gives_read_binary])
     (auto simp: gives_basic from_utf8_binary_ok split: sum.split)

lemma gives_read_string_pair [gives_rules]: "gives string_pair_ok (read_string_pair rd (body_store rd' pb))"
  unfolding read_string_pair_def
  by (intro gives_bnd [OF gives_read_string]) (simp add: gives_basic string_pair_ok_def)

lemma gives_read_topic_name [gives_rules]:
  "gives (\<lambda>t. string_ok t \<and> topic_name_is_valid t) (read_topic_name rd (body_store rd' pb))"
  unfolding read_topic_name_def
  by (rule gives_bnd [OF gives_read_string], rule gives_ok_or) (auto simp: topic_name_new_def split: if_splits)

lemma gives_read_pid [gives_rules]: "gives pid_valid (read_pid rd)"
  unfolding read_pid_def
  by (intro gives_then gives_ok_or) (auto simp: nonzero_def pid_valid_def split: if_splits)

lemma gives_read_vbi [gives_rules]: "gives (\<lambda>v. vbi_value v \<le> MAX_ENCODABLE) (read_vbi rd)"
proof -
  have "read_vbi_loop rd buf s = (Ok v, s') \<Longrightarrow> vbi_value v \<le> MAX_ENCODABLE" for buf s v s'
  proof (induction rd buf s rule: read_vbi_loop.induct)
    case (1 rd buf s)
    from "1.prems" obtain b s1 where b: "\<not> 3 < length buf" "rd 1 s = (Ok [b], s1)"
      by (subst (asm) read_vbi_loop.simps) (auto split: if_splits prod.splits res.splits list.splits)
    show ?case
    proof (cases "b \<ge> 128")
      case True
      then show ?thesis
        using "1.prems" "1.IH" [OF b(1) b(2) [symmetric]] b
        by (subst (asm) read_vbi_loop.simps) (auto split: if_splits)
    next
      case False
      then have "last (buf @ [b]) AND 128 = 0" by (simp add: continuation_iff)
      then obtain v' where "from_slice_unchecked (buf @ [b]) = Some (VarByteInt v')" "v' \<le> MAX_ENCODABLE"
        using from_slice_Some [of "buf @ [b]"] b(1) by auto
      then show ?thesis
        using "1.prems" b False by (subst (asm) read_vbi_loop.simps) auto
    qed
  qed
  then show ?thesis by (auto simp: gives_def read_vbi_def)
qed

lemma gives_try_set:
  "gives P m \<Longrightarrow> gives (\<lambda>v. \<exists>a. v = Some a \<and> P a) (try_set cur m)"
  by (cases cur) (auto simp: try_set_def gives_basic intro!: gives_bnd gives_map_err)


section \<open>Packets\<close>

definition texts_ok :: "nat \<Rightarrow> mqtt_string option \<Rightarrow> mqtt_string_pair list \<Rightarrow> bool" where
  "texts_ok maxu s us \<longleftrightarrow> pred_option string_ok s \<and> list_all string_pair_ok us \<and> length us \<le> maxu"

lemmas gives_intros = gives_bnd [OF gives_map_err [OF gives_try_set]] gives_bnd [OF gives_map_err]
  gives_if gives_unwrap gives_then

lemma texts_ok_simps [simp]:
  "texts_ok maxu None []"
  "texts_ok maxu (Some s) us \<longleftrightarrow> string_ok s \<and> texts_ok maxu None us"
  "texts_ok maxu t (us @ [u]) \<longleftrightarrow> string_pair_ok u \<and> length us < maxu \<and> texts_ok maxu t us"
  by (auto simp: texts_ok_def)

lemma texts_ok_None: "texts_ok maxu s us \<Longrightarrow> texts_ok maxu None us"
  by (simp add: texts_ok_def)

lemma gives_puback_property:
  assumes "texts_ok maxu (fst acc) (snd acc)"
  shows "gives (\<lambda>(s, us). texts_ok maxu s us) (puback_property maxu rd pb acc)"
  unfolding puback_property_def Let_def split_def
  by (intro gives_then gives_if gives_bnd [OF gives_map_err [OF gives_try_set [OF gives_read_string]]]
      gives_bnd [OF gives_map_err [OF gives_read_string_pair]])
     (use assms in \<open>auto simp: gives_basic dest: texts_ok_None\<close>)

lemma gives_suback_property:
  assumes "texts_ok maxu (fst (snd acc)) (snd (snd acc))"
  shows "gives (\<lambda>(n, s, us). texts_ok maxu s us) (suback_property maxu rd pb acc)"
  unfolding suback_property_def Let_def split_def suback_consume_def
  by (intro gives_then gives_if gives_bnd [OF gives_map_err [OF gives_try_set [OF gives_read_string]]]
      gives_bnd [OF gives_map_err [OF gives_read_string_pair]] gives_unwrap)
     (use assms in \<open>auto simp: gives_basic dest: texts_ok_None\<close>)

definition puback_wf :: "puback_kind \<Rightarrow> nat \<Rightarrow> puback_packet \<Rightarrow> bool" where
  "puback_wf k maxu p \<longleftrightarrow> pid_valid (pa_packet_identifier p) \<and> pk_reason_code_allowed k (pa_reason_code p)
     \<and> texts_ok maxu (pa_reason_string p) (pa_user_properties p)"

lemma success_allowed [simp]: "pk_reason_code_allowed k RcSuccess"
  by (cases k) (simp_all add: pk_reason_code_allowed_def is_ack_rec_reason_code_def is_rel_comp_reason_code_def)

lemma gives_puback_receive: "gives (puback_wf k maxu) (puback_receive k maxu rd pb h)"
proof -
  have code: "gives (pk_reason_code_allowed k) (if b then ret RcSuccess
      else bnd (map_err f (read_reason_code (body_read rd))) (\<lambda>c.
        if \<not> pk_reason_code_allowed k c then fail e else ret c))" for b f e
    by (intro gives_if gives_then) (auto simp: gives_basic)
  have loop: "gives (\<lambda>(s, us). texts_ok maxu s us) (body_while cond (puback_property maxu rd pb) (None, []))"
    for cond by (rule gives_body_while) (auto intro: gives_puback_property)
  show ?thesis
    unfolding puback_receive_def
    by (intro gives_if gives_bnd [OF gives_map_err [OF gives_read_pid]] gives_bnd [OF code] gives_then
        gives_guard(2) gives_bnd [OF loop]) (auto simp: gives_basic puback_wf_def split: prod.splits)
qed

definition suback_wf :: "suback_kind \<Rightarrow> nat \<Rightarrow> suback_packet \<Rightarrow> bool" where
  "suback_wf k maxu p \<longleftrightarrow> pid_valid (sa_packet_identifier p)
     \<and> list_all (sk_reason_code_allowed k) (sa_reason_codes p)
     \<and> texts_ok maxu (sa_reason_string p) (sa_user_properties p)"

lemma gives_suback_receive: "gives (suback_wf k maxu) (suback_receive k maxf maxu rd pb h)"
proof -
  have loop: "gives (\<lambda>(n, s, us). texts_ok maxu s us) (body_while cond (suback_property maxu rd pb) (n, None, []))"
    for cond n by (rule gives_body_while) (auto intro: gives_suback_property)
  have codes: "gives (list_all (sk_reason_code_allowed k)) (body_while cond (suback_reason_code k maxf rd) [])"
    for cond
    by (rule gives_body_while)
       (auto simp: suback_reason_code_def gives_basic intro!: gives_then gives_if)
  show ?thesis
    unfolding suback_receive_def
    by (intro gives_if gives_bnd [OF gives_map_err [OF gives_read_pid]] gives_then
        gives_guard(2) gives_bnd [OF loop])
       (auto simp: gives_basic suback_wf_def split: prod.splits intro!: gives_bnd [OF codes])
qed

definition pprops_wf :: "nat \<Rightarrow> nat \<Rightarrow> publish_props \<Rightarrow> bool" where
  "pprops_wf maxs maxu a \<longleftrightarrow>
     pred_option (\<lambda>t. string_ok t \<and> topic_name_is_valid t) (pp_response_topic a)
   \<and> pred_option (\<lambda>d. length d \<le> MAX_LENGTH) (pp_correlation_data a)
   \<and> texts_ok maxu (pp_content_type a) (pp_user_properties a)
   \<and> length (pp_subscription_identifiers a) \<le> maxs
   \<and> list_all (\<lambda>v. vbi_value v \<le> MAX_ENCODABLE) (pp_subscription_identifiers a)"

lemma gives_consume: "pprops_wf maxs maxu a \<Longrightarrow> gives (pprops_wf maxs maxu) (consume n a)"
  by (auto simp: consume_def gives_basic pprops_wf_def)

lemma gives_publish_property:
  assumes "pprops_wf maxs maxu acc"
  shows "gives (pprops_wf maxs maxu) (publish_property maxs maxu rd pb acc)"
proof -
  have user: "gives (pprops_wf maxs maxu)
      (bnd (consume n a) (\<lambda>acc. ret (acc\<lparr>pp_user_properties := pp_user_properties acc @ [u]\<rparr>)))"
    if "pprops_wf maxs maxu a" "length (pp_user_properties a) < maxu" "string_pair_ok u" for n a u
    using that by (auto simp: consume_def gives_basic pprops_wf_def)
  show ?thesis
    unfolding publish_property_def Let_def
    by (intro gives_then [of _ _ "map_err rx_of_body_read (read_property_type (body_read rd))"] gives_if
        gives_bnd [OF gives_map_err [OF gives_try_set [OF gives_read_topic_name]]]
        gives_bnd [OF gives_map_err [OF gives_try_set [OF gives_read_string]]]
        gives_bnd [OF gives_map_err [OF gives_try_set [OF gives_read_binary]]]
        gives_bnd [OF gives_map_err [OF gives_read_string_pair]]
        gives_bnd [OF gives_map_err [OF gives_read_vbi]] gives_then gives_unwrap gives_consume user)
       (use assms in \<open>auto simp: gives_basic pprops_wf_def dest: texts_ok_None\<close>)
qed

definition publish_wf :: "nat \<Rightarrow> nat \<Rightarrow> publish_packet \<Rightarrow> bool" where
  "publish_wf maxs maxu p \<longleftrightarrow>
     pred_option pid_valid (packet_identifier (pu_identified_qos p))
   \<and> pred_option (\<lambda>t. string_ok t \<and> topic_name_is_valid t) (topic_name_of (pu_topic p))
   \<and> pred_option (\<lambda>t. string_ok t \<and> topic_name_is_valid t) (pu_response_topic p)
   \<and> pred_option (\<lambda>d. length d \<le> MAX_LENGTH) (pu_correlation_data p)
   \<and> texts_ok maxu (pu_content_type p) (pu_user_properties p)
   \<and> length (pu_subscription_identifiers p) \<le> maxs
   \<and> list_all (\<lambda>v. vbi_value v \<le> MAX_ENCODABLE) (pu_subscription_identifiers p)"

lemma gives_publish_receive: "gives (publish_wf maxs maxu) (publish_receive maxs maxu rd pb h)"
proof -
  let ?topic = "\<lambda>t. string_ok t \<and> topic_name_is_valid t"
  have topic: "gives (pred_option ?topic) (if t = [] then ret None
      else bnd (ok_or e (topic_name_new t)) (\<lambda>t. ret (Some t)))" if "string_ok t" for t e
    using that
    by (intro gives_if gives_bnd [OF gives_ok_or [where P = ?topic]])
       (auto simp: gives_basic topic_name_new_def split: if_splits)
  have ident: "gives (\<lambda>i. pred_option pid_valid (packet_identifier i)) (case q of
        AtMostOnce \<Rightarrow> ret IdAtMostOnce
      | AtLeastOnce \<Rightarrow> bnd (map_err f (read_pid (body_read rd))) (\<lambda>p. ret (IdAtLeastOnce p))
      | ExactlyOnce \<Rightarrow> bnd (map_err f (read_pid (body_read rd))) (\<lambda>p. ret (IdExactlyOnce p)))" for q f
    by (cases q) (auto simp: gives_basic intro!: gives_bnd [OF gives_map_err [OF gives_read_pid]])
  have props: "gives (pprops_wf maxs maxu) (body_while cond (publish_property maxs maxu rd pb) (publish_props_init n))"
    for cond n
    by (rule gives_body_while [OF gives_publish_property]) (simp_all add: pprops_wf_def publish_props_init_def)
  have ref: "gives (\<lambda>r. pred_option ?topic (topic_name_of r)) (case (t, a) of
        (None, None) \<Rightarrow> fail e
      | (None, Some alias) \<Rightarrow> ret (TrAlias alias)
      | (Some name, None) \<Rightarrow> ret (TrName name)
      | (Some name, Some alias) \<Rightarrow> ret (TrMapping name alias))" if "pred_option ?topic t" for t a e
    using that by (auto simp: gives_basic topic_name_of_def split: option.split)
  show ?thesis
    unfolding publish_receive_def Let_def
    by (intro gives_then [of _ _ "ok_or _ _"] gives_bnd [OF gives_map_err [OF gives_read_string]]
        gives_bnd [OF topic] gives_bnd [OF ident] gives_then [of _ _ "map_err _ (read_vbi _)"]
        gives_bnd [OF props] gives_bnd [OF ref] gives_then)
       (auto simp: gives_basic publish_wf_def pprops_wf_def)
qed

section \<open>Events\<close>

definition publish_event_wf :: "nat \<Rightarrow> nat \<Rightarrow> publish_event \<Rightarrow> bool" where
  "publish_event_wf maxs maxu e \<longleftrightarrow>
     pred_option pid_valid (packet_identifier (pe_identified_qos e))
   \<and> string_ok (pe_topic e) \<and> topic_name_is_valid (pe_topic e)
   \<and> pred_option (\<lambda>t. string_ok t \<and> topic_name_is_valid t) (pe_response_topic e)
   \<and> pred_option (\<lambda>d. length d \<le> MAX_LENGTH) (pe_correlation_data e)
   \<and> texts_ok maxu (pe_content_type e) (pe_user_properties e)
   \<and> length (pe_subscription_identifiers e) \<le> maxs
   \<and> list_all (\<lambda>v. vbi_value v \<le> MAX_ENCODABLE) (pe_subscription_identifiers e)"

definition suback_event_wf :: "suback_kind \<Rightarrow> nat \<Rightarrow> suback_event \<Rightarrow> bool" where
  "suback_event_wf k maxu e \<longleftrightarrow> pid_valid (se_packet_identifier e)
     \<and> sk_reason_code_allowed k (se_reason_code e)
     \<and> texts_ok maxu (se_reason_string e) (se_user_properties e)"

definition puback_event_wf :: "puback_kind \<Rightarrow> nat \<Rightarrow> puback_event \<Rightarrow> bool" where
  "puback_event_wf k maxu e \<longleftrightarrow> pid_valid (ae_packet_identifier e) \<and> is_success (ae_reason_code e)
     \<and> pk_reason_code_allowed k (ae_reason_code e)
     \<and> texts_ok maxu (ae_reason_string e) (ae_user_properties e)"

definition pubrej_event_wf :: "puback_kind set \<Rightarrow> nat \<Rightarrow> pubrej_event \<Rightarrow> bool" where
  "pubrej_event_wf ks maxu e \<longleftrightarrow> pid_valid (re_packet_identifier e) \<and> is_erroneous (re_reason_code e)
     \<and> (\<exists>k \<in> ks. pk_reason_code_allowed k (re_reason_code e))
     \<and> texts_ok maxu (re_reason_string e) (re_user_properties e)"

fun event_wf :: "nat \<Rightarrow> nat \<Rightarrow> event \<Rightarrow> bool" where
  "event_wf maxs maxu (EvPublish e) = publish_event_wf maxs maxu e"
| "event_wf maxs maxu (EvDuplicate e) =
     (publish_event_wf maxs maxu e \<and> qos_of (pe_identified_qos e) = ExactlyOnce)"
| "event_wf maxs maxu (EvSuback e) = suback_event_wf Suback maxu e"
| "event_wf maxs maxu (EvUnsuback e) = suback_event_wf Unsuback maxu e"
| "event_wf maxs maxu (EvPublishRejected e) = pubrej_event_wf {Ack, Rec} maxu e"
| "event_wf maxs maxu (EvPublishAborted e) = pubrej_event_wf {Rel} maxu e"
| "event_wf maxs maxu (EvPublishAcknowledged e) = puback_event_wf Ack maxu e"
| "event_wf maxs maxu (EvPublishReceived e) = puback_event_wf Rec maxu e"
| "event_wf maxs maxu (EvPublishReleased e) = puback_event_wf Rel maxu e"
| "event_wf maxs maxu (EvPublishComplete e) = puback_event_wf Comp maxu e"
| "event_wf maxs maxu EvPingresp = True"
| "event_wf maxs maxu EvIgnored = True"

lemma gives_recv_body:
  assumes "gives P (receive h)"
  shows "gives P (on_raw (recv_body tr receive h))"
  unfolding gives_def
  by (auto simp: on_raw_def recv_body_def with_net_def Let_def handle_rx_def
      split: prod.splits res.splits sum.splits raw_error.splits dest!: givesD [OF assms])

lemma bnd_gets [simp]: "bnd (gets g) f c = f (g c) c"
  by (simp add: bnd_def gets_def)

lemma receive_ack_wf:
  assumes "receive_ack tr pb k h c = (Ok p, c')"
  shows "puback_wf k (MAX_USER_PROPERTIES c) p"
  using assms gives_recv_body [where receive = "puback_receive k (MAX_USER_PROPERTIES c) (tr_read tr) pb",
      OF gives_puback_receive, THEN givesD]
  by (auto simp: receive_ack_def ret_def elim!: bnd_OkE)

lemma puback_event_new_wf:
  "puback_wf k maxu p \<Longrightarrow> puback_event_new p mode = Some e \<Longrightarrow> puback_event_wf k maxu e"
  by (auto simp: puback_wf_def puback_event_new_def puback_event_wf_def split: if_splits)

lemma pubrej_from_wf:
  "puback_wf k maxu p \<Longrightarrow> pubrej_from p = Some e \<Longrightarrow> k \<in> ks \<Longrightarrow> pubrej_event_wf ks maxu e"
  by (auto simp: puback_wf_def pubrej_from_def pubrej_event_wf_def split: if_splits)

lemma poll_acks_wf:
  "poll_puback sr tr pb h c = (Ok ev, c') \<Longrightarrow> event_wf maxs (MAX_USER_PROPERTIES c) ev"
  "poll_pubrec sr tr pb h c = (Ok ev, c') \<Longrightarrow> event_wf maxs (MAX_USER_PROPERTIES c) ev"
  "poll_pubrel sr tr pb h c = (Ok ev, c') \<Longrightarrow> event_wf maxs (MAX_USER_PROPERTIES c) ev"
  "poll_pubcomp sr tr pb h c = (Ok ev, c') \<Longrightarrow> event_wf maxs (MAX_USER_PROPERTIES c) ev"
  unfolding poll_puback_def poll_pubrec_def poll_pubrel_def poll_pubcomp_def
  by (auto simp: run_defs unwrap_def elim!: bnd_OkE split: sm_event.splits option.splits dest!: receive_ack_wf;
      (erule (1) puback_event_new_wf | erule (1) pubrej_from_wf, simp))+

lemma poll_suback_wf:
  assumes "poll_suback sr tr pb k h c = (Ok ev, c')"
  shows "event_wf maxs (MAX_USER_PROPERTIES c) ev"
proof -
  let ?receive = "suback_receive k 1 (MAX_USER_PROPERTIES c) (tr_read tr) pb"
  obtain p c1 where p: "on_raw (recv_body tr ?receive h) c = (Ok p, c1)"
    using assms by (auto simp: poll_suback_def elim!: bnd_OkE)
  have "suback_wf k (MAX_USER_PROPERTIES c) p"
    using gives_recv_body [where receive = ?receive, OF gives_suback_receive, THEN givesD] p by blast
  with assms p show ?thesis
    by (auto simp: poll_suback_def run_defs reject_def close_def suback_wf_def suback_event_wf_def Let_def
        elim!: bnd_OkE split: if_splits list.splits suback_kind.splits)
qed

lemma inbound_duplicate:
  "inbound_publish s iq mode = Some ((resp, SmDuplicate m), s') \<Longrightarrow> qos_of iq = ExactlyOnce"
proof -
  have "ih_inbound_republish h q = Some ((resp, SmDuplicate m), s') \<Longrightarrow> q = ExactlyOnce" for h q
    by (cases q) (auto split: session_splits)
  then show "inbound_publish s iq mode = Some ((resp, SmDuplicate m), s') \<Longrightarrow> qos_of iq = ExactlyOnce"
    by (auto simp: inbound_publish_def split: session_splits)
qed

lemma on_session_Ok: "on_session f c = (Ok a, c') \<longleftrightarrow> (\<exists>s. f (cl_session c) = Some (a, s) \<and> c' = c\<lparr>cl_session := s\<rparr>)"
  by (auto simp: on_session_def split: option.splits)

lemma poll_publish_wf:
  assumes "poll_publish tr pb h c = (Ok ev, c')"
  shows "event_wf (MAX_SUBSCRIPTION_IDENTIFIERS c) (MAX_USER_PROPERTIES c) ev"
proof -
  let ?receive = "publish_receive (MAX_SUBSCRIPTION_IDENTIFIERS c) (MAX_USER_PROPERTIES c) (tr_read tr) pb"
  obtain p c1 where p: "on_raw (recv_body tr ?receive h) c = (Ok p, c1)"
    using assms by (auto simp: poll_publish_def elim!: bnd_OkE)
  have wf: "publish_wf (MAX_SUBSCRIPTION_IDENTIFIERS c) (MAX_USER_PROPERTIES c) p"
    using gives_recv_body [where receive = ?receive, OF gives_publish_receive, THEN givesD] p by blast
  show ?thesis
  proof (cases "pu_topic p")
    case (TrName t)
    then have e: "publish_event_wf (MAX_SUBSCRIPTION_IDENTIFIERS c) (MAX_USER_PROPERTIES c)
        ((publish_event_of Automatic t p)\<lparr>pe_ack_mode := m\<rparr>)" for m
      using wf by (simp add: publish_wf_def publish_event_wf_def publish_event_of_def topic_name_of_def)
    show ?thesis
      using assms p TrName e
      by (auto simp: poll_publish_def run_defs Let_def on_session_Ok elim!: bnd_OkE
          split: sm_event.splits dest!: inbound_duplicate)
  qed (use assms p in \<open>auto simp: poll_publish_def reject_def close_def run_defs elim!: bnd_OkE\<close>)
qed

lemma poll_body_wf:
  assumes "poll_body sr tr pb h c = (Ok ev, c')"
  shows "event_wf (MAX_SUBSCRIPTION_IDENTIFIERS c) (MAX_USER_PROPERTIES c) ev"
proof -
  obtain t where t: "header_packet_type h = Some t" using assms
    by (cases "header_packet_type h") (auto simp: poll_body_def fail_def)
  show ?thesis
    using assms t
    by (cases t)
       (auto simp: poll_body_def reject_def close_def run_defs elim!: bnd_OkE
        dest: poll_suback_wf poll_publish_wf poll_acks_wf)
qed

lemma poll_header_limits:
  assumes "poll_header tr c = (x, c')"
  shows "MAX_SUBSCRIPTION_IDENTIFIERS c' = MAX_SUBSCRIPTION_IDENTIFIERS c"
    and "MAX_USER_PROPERTIES c' = MAX_USER_PROPERTIES c" and "cl_session c' = cl_session c"
  using assms
  by (auto simp: poll_header_def receive_header_def on_raw_def bnd_def reject_def close_def run_defs
      split: prod.splits res.splits if_splits)

section \<open>Property\<close>

text \<open>C16: Every event that \<open>poll\<close> hands to the user is well-formed, whatever bytes the server sends and
  whatever the state of the client is: packet identifiers are not zero; topics are valid topic names
  and all texts are valid UTF-8 without null character of at most 65535 bytes; subscription
  identifiers are encodable; reason codes are among those that MQTT 5 allows for the packet, with
  success and error codes in the events that report success and failure; vectors stay within the
  capacities of the client; and only Quality of Service 2 messages are reported as duplicates.\<close>

theorem events_well_formed:
  assumes "poll sr tr pb c = (Ok ev, c')"
  shows "event_wf (MAX_SUBSCRIPTION_IDENTIFIERS c) (MAX_USER_PROPERTIES c) ev"
proof -
  obtain h c1 where h: "poll_header tr c = (Ok h, c1)" and b: "poll_body sr tr pb h c1 = (Ok ev, c')"
    using assms unfolding poll_def by (auto elim!: bnd_OkE)
  show ?thesis using poll_body_wf [OF b] poll_header_limits [OF h] by simp
qed

text \<open>A client with a publication under way, on a connection that holds its PUBACK packet.\<close>

definition receiving_client :: "(slice_reader \<times> slice_writer, unit) client" where
  "receiving_client = idle_client
     \<lparr>cl_session := (session_default 1 2 2)\<lparr>outbound_publishes := [(5, AwaitAck)]\<rparr>,
      cl_raw := (cl_raw idle_client)\<lparr>ra_n :=
        NOk (slice_reader_new [0x40, 2, 0, 5], slice_writer_new [])\<rparr>\<rparr>"

definition received_event :: event where
  "received_event = EvPublishAcknowledged
     \<lparr>ae_ack_mode = Automatic, ae_packet_identifier = 5, ae_reason_code = RcSuccess,
      ae_reason_string = None, ae_user_properties = []\<rparr>"

theorem events_well_formed_witness:
  "fst (poll last_takes_place slice_connection (alloc_provide :: nat \<Rightarrow> (unit, unit, u8 list) comp)
      receiving_client) = Ok received_event
   \<and> event_wf 1 1 received_event"
proof -
  let ?run = "poll last_takes_place slice_connection (alloc_provide :: nat \<Rightarrow> (unit, unit, u8 list) comp)
      receiving_client"
  have f: "fst ?run = Ok received_event" by code_simp
  then have "?run = (Ok received_event, snd ?run)" by (simp add: prod_eq_iff)
  from events_well_formed [OF this] f show ?thesis by (simp add: receiving_client_def idle_client_def)
qed

end
