(* ===== verification/Mqtt_Exchange.thy ===== *)
theory Mqtt_Exchange
  imports Mqtt_Received
begin

text \<open>
  What the calls of the client do on a connection that works: which bytes they take from it, which
  they write to it, and what becomes of the session. Every law is about any transport and buffer
  provider that keep the contract \<open>connection\<close> of \<open>Mqtt_Raw\<close>.
\<close>

section \<open>The state of a connection\<close>

text \<open>
  The connection of the raw client holds the bytes \<open>inp\<close> of the server, has been written \<open>sent\<close>, takes
  \<open>j\<close> bytes more, and the provider has \<open>l\<close> bytes of memory; the header state is between packets.
\<close>

definition conn_at ::
    "('n \<Rightarrow> u8 list) \<Rightarrow> ('n \<Rightarrow> u8 list) \<Rightarrow> ('n \<Rightarrow> nat \<Rightarrow> bool) \<Rightarrow> ('b \<Rightarrow> nat \<Rightarrow> bool)
     \<Rightarrow> u8 list \<Rightarrow> u8 list \<Rightarrow> nat \<Rightarrow> nat \<Rightarrow> ('n, 'b) raw \<Rightarrow> bool" where
  "conn_at bytes out room free inp sent j l r \<longleftrightarrow>
     (\<exists>n. ra_n r = NOk n \<and> header_fresh (ra_header r) \<and> bytes n = inp \<and> out n = sent \<and> room n j
        \<and> free (ra_buf r) l)"

text \<open>The bytes of a packet: fixed header and body.\<close>

definition publish_bytes :: "publish_packet \<Rightarrow> u8 list" where
  "publish_bytes p = fixed_header_bytes (publish_header p) @ publish_body_bytes p"

definition puback_bytes :: "puback_kind \<Rightarrow> puback_packet \<Rightarrow> u8 list" where
  "puback_bytes k p = fixed_header_bytes (puback_header k p) @ puback_body_bytes p"

context packet_body
begin

lemma parses_run_free:
  assumes "body.parses m bs k v" and "bytes s = bs @ tail" and "free b (k + l)"
  shows "\<exists>r'. m (body_reader_new s b (length bs)) = (Ok v, r') \<and> bytes (br_r r') = tail \<and> free (br_buffer r') l"
proof -
  let ?r = "body_reader_new s b (length bs)"
  have "body_bytes bytes ?r = bs" "body_fits bytes free tail ?r (k + l)"
    using assms(2,3) by (simp_all add: body_bytes_def body_fits_def body_reader_new_def)
  then obtain r' where r': "m ?r = (Ok v, r')" "body_bytes bytes r' = []" "body_fits bytes free tail r' l"
    using assms(1) unfolding body.parses_def by blast
  have "br_remaining_len r' = 0" using body_remaining [OF r'(3)] r'(2) by simp
  then show ?thesis using r' by (auto simp: body_fits_def)
qed

end

context connection
begin

abbreviation c_at :: "u8 list \<Rightarrow> u8 list \<Rightarrow> nat \<Rightarrow> nat \<Rightarrow> ('n, 'b) raw \<Rightarrow> bool" where
  "c_at \<equiv> conn_at bytes out room free"

lemma recv_header_at:
  assumes "c_at (fixed_header_bytes h @ inp) sent j l r"
    and "header_packet_type h \<noteq> None" and "vbi_value (remaining_len h) \<le> MAX_ENCODABLE"
  shows "\<exists>r'. recv_header tr r = (Ok h :: (('k, 'q) raw_error, _) res, r') \<and> c_at inp sent j l r'"
proof -
  obtain n where n: "ra_n r = NOk n" "header_fresh (ra_header r)" "bytes n = fixed_header_bytes h @ inp"
    "out n = sent" "room n j" "free (ra_buf r) l"
    using assms(1) by (auto simp: conn_at_def)
  from recv_header_run [OF n(1-3) assms(2,3)] obtain n' hs where
    "recv_header tr r = (Ok h :: (('k, 'q) raw_error, _) res, r\<lparr>ra_n := NOk n', ra_header := hs\<rparr>)" "header_fresh hs" "same_output n inp n'"
    by blast
  then show ?thesis using n by (auto simp: conn_at_def same_output_def)
qed

lemma recv_body_at:
  assumes "c_at (bs @ tail) sent j (k + l) r" and "body.parses (receive h) bs k v"
    and "written.along.keeps (receive h)" and "vbi_size (remaining_len h) = length bs"
  shows "\<exists>r'. recv_body tr receive h r = (Ok v, r') \<and> c_at tail sent j l r'"
proof -
  obtain n where n: "ra_n r = NOk n" "header_fresh (ra_header r)" "bytes n = bs @ tail" "out n = sent"
    "room n j" "free (ra_buf r) (k + l)"
    using assms(1) by (auto simp: conn_at_def)
  obtain br where br: "receive h (body_reader_new n (ra_buf r) (vbi_size (remaining_len h))) = (Ok v, br)"
    "bytes (br_r br) = tail" "free (br_buffer br) l"
    using parses_run_free [OF assms(2) n(3,6)] assms(4) by auto
  then show ?thesis
    using recv_body_run [where receive = receive, OF n(1) assms(3) br(1)] n
    by (auto simp: conn_at_def same_output_def)
qed

lemma send_flush_at:
  assumes "c_at inp sent (length bs + j) l r" and "writes (pw (tr_write tr)) bs"
    and "unread.keeps (map_err f (pw (tr_write tr)))"
  shows "\<exists>r'. bnd (raw_send tr (\<lambda>wr. map_err f (pw wr))) (\<lambda>_. raw_flush tr) r
      = (Ok () :: (('k, 'q) raw_error, _) res, r') \<and> c_at inp (sent @ bs) j l r'"
proof -
  obtain n where n: "ra_n r = NOk n" "header_fresh (ra_header r)" "bytes n = inp" "out n = sent"
    "room n (length bs + j)" "free (ra_buf r) l"
    using assms(1) by (auto simp: conn_at_def)
  obtain n1 where n1: "pw (tr_write tr) n = (Ok (), n1)" "out n1 = sent @ bs" "room n1 j"
    using writesD [OF assms(2) n(5)] n(4) by metis
  then have m: "map_err f (pw (tr_write tr)) n = (Ok (), n1)" by simp
  have "bytes n1 = bytes n" using unread.keepsD [OF assms(3) m] by simp
  from send_flush_run [where ps = "\<lambda>wr. map_err f (pw wr)", OF n(1) m this] obtain n' where
    "bnd (raw_send tr (\<lambda>wr. map_err f (pw wr))) (\<lambda>_. raw_flush tr) r
      = (Ok () :: (('k, 'q) raw_error, _) res, r\<lparr>ra_n := NOk n'\<rparr>)"
    "same_output n1 (bytes n) n'"
    by blast
  then show ?thesis using n n1 by (auto simp: conn_at_def same_output_def)
qed

end

section \<open>Calls on a connection\<close>

lemma minimal_ok: "pid_valid p \<Longrightarrow> pk_reason_code_allowed k rc \<Longrightarrow> puback_ok k (puback_minimal p rc)"
  by (simp add: puback_ok_def puback_minimal_def)

lemma minimal_body: "length (puback_body_bytes (puback_minimal p rc)) = 4"
  by (simp add: puback_body_bytes_def puback_props_bytes_def puback_minimal_def opt_bytes_def
      user_properties_bytes_def vbi_bytes.simps)

lemma minimal_fields [simp]:
  "pa_packet_identifier (puback_minimal p rc) = p" "pa_reason_code (puback_minimal p rc) = rc"
  "pa_reason_string (puback_minimal p rc) = None" "pa_user_properties (puback_minimal p rc) = []"
  "puback_memory (puback_minimal p rc) = 0"
  by (simp_all add: puback_minimal_def puback_memory_def)

lemma length_minimal [simp]: "length (puback_bytes k (puback_minimal p rc)) = 6"
  by (simp add: puback_bytes_def fixed_header_bytes_def puback_header_def fixed_header_new_def minimal_body
      vbi_bytes.simps)

text \<open>What the client answers to a PUBLISH packet, and what it tells the user.\<close>

fun answer_bytes :: "identified_qos \<Rightarrow> response \<Rightarrow> u8 list option" where
  "answer_bytes iq RNone = Some []"
| "answer_bytes iq (Acknowledge rc) = map_option (\<lambda>p. puback_bytes Ack (puback_minimal p rc)) (packet_identifier iq)"
| "answer_bytes iq (Receive rc) = map_option (\<lambda>p. puback_bytes Rec (puback_minimal p rc)) (packet_identifier iq)"
| "answer_bytes iq _ = None"

fun told_of :: "publish_event \<Rightarrow> sm_event \<Rightarrow> event option" where
  "told_of e SmPublish = Some (EvPublish e)"
| "told_of e (SmDuplicate m) = Some (EvDuplicate (e\<lparr>pe_ack_mode := m\<rparr>))"
| "told_of e SmIgnored = Some EvIgnored"
| "told_of e _ = None"

definition chosen_mode :: "('n, 'b) client \<Rightarrow> publish_event \<Rightarrow> ack_mode" where
  "chosen_mode c e = (if cl_manual_ack_when c e then Manual else Automatic)"

lemma client_updates [simp]: "c\<lparr>cl_raw := r, cl_session := s\<rparr> = c\<lparr>cl_session := s, cl_raw := r\<rparr>"
  by (cases c) simp

lemma poll_publish_run:
  fixes tr :: "('n, 'e, 'k) transport" and c :: "('n, 'b) client"
  assumes "on_raw (recv_body tr (publish_receive (MAX_SUBSCRIPTION_IDENTIFIERS c) (MAX_USER_PROPERTIES c)
      (tr_read tr) pb) h) c = (Ok p, c1)"
    and "pu_topic p = TrName t" and "mode = chosen_mode c1 (publish_event_of Automatic t p)"
    and "inbound_publish (cl_session c1) (pu_identified_qos p) mode = Some ((a, sm), s')"
    and "(case a of
            Release _ \<Rightarrow> crash | Complete _ \<Rightarrow> crash | RNone \<Rightarrow> ret ()
          | Acknowledge rc \<Rightarrow> unwrap (packet_identifier (pu_identified_qos p)) (\<lambda>p. respond tr Ack p rc)
          | Receive rc \<Rightarrow> unwrap (packet_identifier (pu_identified_qos p)) (\<lambda>p. respond tr Rec p rc)
          | RDisconnect rc \<Rightarrow> close (Some rc)) (c1\<lparr>cl_session := s'\<rparr>) = (Ok (), c2)"
    and "told_of ((publish_event_of Automatic t p)\<lparr>pe_ack_mode := mode\<rparr>) sm = Some ev"
  shows "poll_publish tr pb h c = (Ok ev, c2)"
proof -
  let ?e = "publish_event_of Automatic t p"
  define act :: "(('n, 'b) client, 'k mqtt_error, unit) comp" where
    "act = (case a of
            Release _ \<Rightarrow> crash | Complete _ \<Rightarrow> crash | RNone \<Rightarrow> ret ()
          | Acknowledge rc \<Rightarrow> unwrap (packet_identifier (pu_identified_qos p)) (\<lambda>p. respond tr Ack p rc)
          | Receive rc \<Rightarrow> unwrap (packet_identifier (pu_identified_qos p)) (\<lambda>p. respond tr Rec p rc)
          | RDisconnect rc \<Rightarrow> close (Some rc))"
  have act: "act (c1\<lparr>cl_session := s'\<rparr>) = (Ok (), c2)" using assms(5) by (simp only: act_def)
  have e: "(?e\<lparr>pe_ack_mode := mode\<rparr>)\<lparr>pe_ack_mode := m\<rparr> = ?e\<lparr>pe_ack_mode := m\<rparr>"
    "pe_identified_qos (?e\<lparr>pe_ack_mode := mode\<rparr>) = pu_identified_qos p" "pe_ack_mode (?e\<lparr>pe_ack_mode := mode\<rparr>) = mode" for m
    by (simp_all add: publish_event_of_def)
  have s: "on_session (\<lambda>s. inbound_publish s (pu_identified_qos p) mode) c1
      = (Ok (a, sm) :: ('k mqtt_error, _) res, c1\<lparr>cl_session := s'\<rparr>)"
    using assms(4) by (simp add: on_session_def)
  have "poll_publish tr pb h c = thn act (case sm of
            SmPublish \<Rightarrow> ret (EvPublish (?e\<lparr>pe_ack_mode := mode\<rparr>))
          | SmDuplicate m \<Rightarrow> ret (EvDuplicate (?e\<lparr>pe_ack_mode := m\<rparr>))
          | SmIgnored \<Rightarrow> ret EvIgnored | SmServerError \<Rightarrow> fail MeServer | _ \<Rightarrow> crash) (c1\<lparr>cl_session := s'\<rparr>)"
    unfolding poll_publish_def Let_def act_def
    by (simp only: bnd_gets bnd_Ok assms(1,2) topic_reference.case s
        chosen_mode_def [symmetric] assms(3) [symmetric] e prod.case)
  also have "\<dots> = (Ok ev, c2)"
    using assms(6) act by (cases sm) (simp_all add: ret_def)
  finally show ?thesis .
qed

context connection
begin

lemma receive_header_at:
  assumes "c_at (fixed_header_bytes h @ inp) sent j l (cl_raw c)"
    and "header_packet_type h \<noteq> None" and "vbi_value (remaining_len h) \<le> MAX_ENCODABLE"
  shows "\<exists>r'. receive_header tr c = (Ok h, c\<lparr>cl_raw := r'\<rparr>) \<and> c_at inp sent j l r'"
  using recv_header_at [where 'q = unit, OF assms] by (auto simp: receive_header_def on_raw_def)

lemma poll_header_at:
  assumes "c_at (fixed_header_bytes h @ inp) sent j l (cl_raw c)"
    and "header_packet_type h \<noteq> None" and "vbi_value (remaining_len h) \<le> MAX_ENCODABLE"
    and "vbi_value (remaining_len h) \<le> cfg_maximum_accepted_remaining_length (cl_client_config c)"
  shows "\<exists>r'. poll_header tr c = (Ok h, c\<lparr>cl_raw := r'\<rparr>) \<and> c_at inp sent j l r'"
proof -
  obtain r' where r: "receive_header tr c = (Ok h, c\<lparr>cl_raw := r'\<rparr>)" "c_at inp sent j l r'"
    using receive_header_at [OF assms(1-3)] by blast
  then have "poll_header tr c = (Ok h, c\<lparr>cl_raw := r'\<rparr>)"
    using assms(2) leD [OF assms(4)] by (auto simp: poll_header_def ret_def)
  then show ?thesis using r(2) by blast
qed

lemma on_recv_body_at:
  assumes "c_at (bs @ tail) sent j (k + l) (cl_raw c)" and "body.parses (receive h) bs k v"
    and "written.along.keeps (receive h)" and "vbi_size (remaining_len h) = length bs"
  shows "\<exists>r'. on_raw (recv_body tr receive h) c = (Ok v, c\<lparr>cl_raw := r'\<rparr>) \<and> c_at tail sent j l r'"
  using recv_body_at [where receive = receive, OF assms] by (auto simp: on_raw_def)

lemma send_packet_at:
  assumes "c_at inp sent (length bs + j) l (cl_raw c)" and "writes (pw (tr_write tr)) bs"
    and "unread.keeps (map_err f (pw (tr_write tr)))"
  shows "\<exists>r'. send_packet tr (\<lambda>wr. map_err f (pw wr)) c = (Ok (), c\<lparr>cl_raw := r'\<rparr>)
    \<and> c_at inp (sent @ bs) j l r'"
proof -
  obtain r' where "bnd (raw_send tr (\<lambda>wr. map_err f (pw wr))) (\<lambda>_. raw_flush tr) (cl_raw c)
      = (Ok () :: (('k, unit) raw_error, _) res, r')" "c_at inp (sent @ bs) j l r'"
    using send_flush_at [where 'q = unit and pw = pw, OF assms] by blast
  then show ?thesis
    by (auto simp: send_packet_def send_only_def flush_def on_raw_def bnd_def split: prod.splits res.splits)
qed

lemma respond_at:
  assumes "c_at inp sent (length (puback_bytes k (puback_minimal p rc)) + j) l (cl_raw c)"
    and "pid_valid p" and "pk_reason_code_allowed k rc"
  shows "\<exists>r'. respond tr k p rc c = (Ok (), c\<lparr>cl_raw := r'\<rparr>)
    \<and> c_at inp (sent @ puback_bytes k (puback_minimal p rc)) j l r'"
  using send_packet_at [where pw = "\<lambda>wr. puback_write wr k (puback_minimal p rc)" and f = tx_of_write,
      OF assms(1) writes_puback [OF minimal_ok [OF assms(2,3)], folded puback_bytes_def]]
    unread.keeps_sends(3)
  by (simp add: respond_def puback_send_def)

lemma publish_answer_at:
  assumes "c_at inp sent (length ack + j) l (cl_raw c)" and "answer_bytes iq a = Some ack"
    and pid: "\<And>i. packet_identifier iq = Some i \<Longrightarrow> pid_valid i"
    and code: "\<And>rc. a = Acknowledge rc \<or> a = Receive rc \<Longrightarrow> rc = RcSuccess"
  shows "\<exists>r'. (case a of
       Release _ \<Rightarrow> crash | Complete _ \<Rightarrow> crash | RNone \<Rightarrow> ret ()
     | Acknowledge rc \<Rightarrow> unwrap (packet_identifier iq) (\<lambda>p. respond tr Ack p rc)
     | Receive rc \<Rightarrow> unwrap (packet_identifier iq) (\<lambda>p. respond tr Rec p rc)
     | RDisconnect rc \<Rightarrow> close (Some rc)) c = (Ok (), c\<lparr>cl_raw := r'\<rparr>) \<and> c_at inp (sent @ ack) j l r'"
proof (cases a)
  case RNone
  then show ?thesis using assms(1,2) by (auto simp: ret_def intro!: exI [of _ "cl_raw c"])
next
  case (Acknowledge rc)
  then obtain i where "packet_identifier iq = Some i" "ack = puback_bytes Ack (puback_minimal i rc)"
    using assms(2) by auto
  then show ?thesis using Acknowledge respond_at [of inp sent Ack i rc j l c] assms(1) pid code by simp
next
  case (Receive rc)
  then obtain i where "packet_identifier iq = Some i" "ack = puback_bytes Rec (puback_minimal i rc)"
    using assms(2) by auto
  then show ?thesis using Receive respond_at [of inp sent Rec i rc j l c] assms(1) pid code by simp
qed (use assms(2) in auto)

lemma poll_publish_at:
  assumes at: "c_at (publish_bytes p @ tail) sent (length ack + j) (publish_memory p + l) (cl_raw c)"
    and ok: "publish_ok p" "pu_topic p = TrName t" "length (pu_user_properties p) \<le> MAX_USER_PROPERTIES c"
    and size: "word_of_nat (length (publish_body_bytes p))
        \<le> cfg_maximum_accepted_remaining_length (cl_client_config c)"
    and e: "e = (publish_event_of Automatic t p)\<lparr>pe_ack_mode := mode\<rparr>"
    and mode: "mode = chosen_mode c (publish_event_of Automatic t p)"
    and s: "inbound_publish (cl_session c) (pu_identified_qos p) mode = Some ((a, sm), s')"
    and ack: "answer_bytes (pu_identified_qos p) a = Some ack" and told: "told_of e sm = Some ev"
    and code: "\<And>rc. a = Acknowledge rc \<or> a = Receive rc \<Longrightarrow> rc = RcSuccess"
  shows "\<exists>r'. poll sr tr pb c = (Ok ev, c\<lparr>cl_session := s', cl_raw := r'\<rparr>) \<and> c_at tail (sent @ ack) j l r'"
proof -
  let ?h = "publish_header p" and ?b = "publish_body_bytes p"
  have len: "length ?b \<le> 268435455" using ok(1) by (simp add: publish_ok_def)
  then have h: "vbi_value (remaining_len ?h) = word_of_nat (length ?b)" "vbi_size (remaining_len ?h) = length ?b"
    by (simp_all add: publish_header_def fixed_header_new_def vbi_size_def unat_small)
  obtain r1 where r1: "poll_header tr c = (Ok ?h, c\<lparr>cl_raw := r1\<rparr>)"
    "c_at (?b @ tail) sent (length ack + j) (publish_memory p + l) r1"
    using poll_header_at [of ?h "?b @ tail" sent "length ack + j" "publish_memory p + l" c] at size h(1) vbi_small [OF len]
    by (auto simp: publish_bytes_def publish_header_flags)
  have "c_at (?b @ tail) sent (length ack + j) (publish_memory p + l) (cl_raw (c\<lparr>cl_raw := r1\<rparr>))"
    using r1(2) by simp
  from on_recv_body_at [where receive = "publish_receive (MAX_SUBSCRIPTION_IDENTIFIERS c)
        (MAX_USER_PROPERTIES c) (tr_read tr) pb", OF this parses_publish [OF ok(1,3)]
        written.along.keeps_publish_receive h(2)]
  obtain r2 where r2: "on_raw (recv_body tr (publish_receive (MAX_SUBSCRIPTION_IDENTIFIERS c)
      (MAX_USER_PROPERTIES c) (tr_read tr) pb) ?h) (c\<lparr>cl_raw := r1\<rparr>) = (Ok p, c\<lparr>cl_raw := r2\<rparr>)"
    "c_at tail sent (length ack + j) l r2"
    by auto
  have pid: "pid_valid i" if "packet_identifier (pu_identified_qos p) = Some i" for i
    using ok(1) that by (simp add: publish_ok_def)
  let ?c = "c\<lparr>cl_session := s', cl_raw := r2\<rparr>"
  have m: "mode = chosen_mode (c\<lparr>cl_raw := r2\<rparr>) (publish_event_of Automatic t p)"
    using mode by (simp add: chosen_mode_def)
  have "c_at tail sent (length ack + j) l (cl_raw ?c)" using r2(2) by simp
  from publish_answer_at [OF this ack pid code] obtain r' where
    r': "(case a of
         Release _ \<Rightarrow> crash | Complete _ \<Rightarrow> crash | RNone \<Rightarrow> ret ()
       | Acknowledge rc \<Rightarrow> unwrap (packet_identifier (pu_identified_qos p)) (\<lambda>p. respond tr Ack p rc)
       | Receive rc \<Rightarrow> unwrap (packet_identifier (pu_identified_qos p)) (\<lambda>p. respond tr Rec p rc)
       | RDisconnect rc \<Rightarrow> close (Some rc)) ?c = (Ok (), ?c\<lparr>cl_raw := r'\<rparr>)"
      "c_at tail (sent @ ack) j l r'" by blast
  have "poll_publish tr pb ?h (c\<lparr>cl_raw := r1\<rparr>) = (Ok ev, ?c\<lparr>cl_raw := r'\<rparr>)"
    using told
    by (intro poll_publish_run [where p = p, OF _ ok(2) m]) (use r2(1) s r'(1) in \<open>simp_all add: e\<close>)
  then have "poll sr tr pb c = (Ok ev, c\<lparr>cl_session := s', cl_raw := r'\<rparr>)"
    using r1(1) by (simp add: poll_def poll_body_def publish_header_flags)
  then show ?thesis using r'(2) by blast
qed

end


section \<open>Acknowledgements on a connection\<close>

text \<open>The operation of the session for an acknowledgement of each kind, the answer and the event.\<close>

definition ack_op ::
    "puback_kind \<Rightarrow> remover \<Rightarrow> session \<Rightarrow> pid \<Rightarrow> reason_code \<Rightarrow> ((response \<times> sm_event) \<times> session) option" where
  "ack_op k = (case k of Ack \<Rightarrow> inbound_puback | Rec \<Rightarrow> inbound_pubrec | Rel \<Rightarrow> inbound_pubrel
     | Comp \<Rightarrow> inbound_pubcomp)"

fun ack_answer :: "puback_kind \<Rightarrow> pid \<Rightarrow> response \<Rightarrow> u8 list option" where
  "ack_answer k p RNone = Some []"
| "ack_answer Rec p (Release rc) = Some (puback_bytes Rel (puback_minimal p rc))"
| "ack_answer Rel p (Complete rc) = Some (puback_bytes Comp (puback_minimal p rc))"
| "ack_answer k p _ = None"

fun ack_told :: "puback_kind \<Rightarrow> puback_packet \<Rightarrow> sm_event \<Rightarrow> event option" where
  "ack_told k q SmIgnored = Some EvIgnored"
| "ack_told Ack q SmAcknowledged = map_option EvPublishAcknowledged (puback_event_new q Automatic)"
| "ack_told Ack q SmRejected = map_option EvPublishRejected (pubrej_from q)"
| "ack_told Rec q SmRejected = map_option EvPublishRejected (pubrej_from q)"
| "ack_told Rec q (SmReceived m) = map_option EvPublishReceived (puback_event_new q m)"
| "ack_told Rel q SmAborted = map_option EvPublishAborted (pubrej_from q)"
| "ack_told Rel q (SmReleased m) = map_option EvPublishReleased (puback_event_new q m)"
| "ack_told Comp q SmCompleted = map_option EvPublishComplete (puback_event_new q Automatic)"
| "ack_told k q _ = None"

text \<open>The answer is sent with \<open>respond\<close>.\<close>

definition ack_act ::
    "('n, 'e, 'k) transport \<Rightarrow> pid \<Rightarrow> response \<Rightarrow> (('n, 'b) client, 'k mqtt_error, unit) comp" where
  "ack_act tr p a = (case a of
      Release rc \<Rightarrow> respond tr Rel p rc | Complete rc \<Rightarrow> respond tr Comp p rc | _ \<Rightarrow> ret ())"

lemma poll_ack_run:
  fixes tr :: "('n, 'e, 'k) transport"
  assumes "header_packet_type h = Some (pk_packet_type k)"
    and "receive_ack tr pb k h c = (Ok q, c1)"
    and "ack_op k sr (cl_session c1) (pa_packet_identifier q) (pa_reason_code q) = Some ((a, sm), s')"
    and "ack_answer k (pa_packet_identifier q) a \<noteq> None"
    and "ack_act tr (pa_packet_identifier q) a (c1\<lparr>cl_session := s'\<rparr>) = (Ok (), c2)"
    and "ack_told k q sm = Some ev"
  shows "poll_body sr tr pb h c = (Ok ev, c2)"
proof -
  have "on_session (\<lambda>s. ack_op k sr s (pa_packet_identifier q) (pa_reason_code q)) c1
      = (Ok (a, sm) :: ('k mqtt_error, _) res, c1\<lparr>cl_session := s'\<rparr>)"
    using assms(3) by (simp add: on_session_def)
  then have s: "on_session (\<lambda>s. (case k of Ack \<Rightarrow> inbound_puback | Rec \<Rightarrow> inbound_pubrec | Rel \<Rightarrow> inbound_pubrel
      | Comp \<Rightarrow> inbound_pubcomp) sr s (pa_packet_identifier q) (pa_reason_code q)) c1
      = (Ok (a, sm) :: ('k mqtt_error, _) res, c1\<lparr>cl_session := s'\<rparr>)"
    by (simp only: ack_op_def)
  note defs = poll_body_def pk_packet_type_def ack_act_def ret_def
  show ?thesis
  proof (cases k)
    case Ack
    then have "a = RNone" using assms(4) by (cases a) simp_all
    then show ?thesis using assms(1,2,5,6) s Ack
      by (cases sm) (auto simp: defs poll_puback_def)
  next
    case Rec
    then have "a = RNone \<or> (\<exists>rc. a = Release rc)" using assms(4) by (cases a) simp_all
    then show ?thesis using assms(1,2,5,6) s Rec
      by (cases sm) (auto simp: defs poll_pubrec_def)
  next
    case Rel
    then have "a = RNone \<or> (\<exists>rc. a = Complete rc)" using assms(4) by (cases a) simp_all
    then show ?thesis using assms(1,2,5,6) s Rel
      by (cases sm) (auto simp: defs poll_pubrel_def)
  next
    case Comp
    then have "a = RNone" using assms(4) by (cases a) simp_all
    then show ?thesis using assms(1,2,5,6) s Comp
      by (cases sm) (auto simp: defs poll_pubcomp_def)
  qed
qed

context connection
begin

lemma receive_ack_at:
  assumes "c_at (puback_body_bytes q @ tail) sent j (puback_memory q + l) (cl_raw c)"
    and "puback_ok k q" and "length (pa_user_properties q) \<le> MAX_USER_PROPERTIES c"
    and "cfg_request_problem_information (cl_client_config c)
       \<or> pa_reason_string q = None \<and> pa_user_properties q = []"
  shows "\<exists>r'. receive_ack tr pb k (puback_header k q) c = (Ok q, c\<lparr>cl_raw := r'\<rparr>) \<and> c_at tail sent j l r'"
proof -
  have "vbi_size (remaining_len (puback_header k q)) = length (puback_body_bytes q)"
    using puback_lengths [OF assms(2)]
    by (simp add: puback_header_def fixed_header_new_def vbi_size_def unat_small)
  from on_recv_body_at [where receive = "puback_receive k (MAX_USER_PROPERTIES c) (tr_read tr) pb",
      OF assms(1) parses_puback [OF assms(2,3)] written.along.keeps_puback_receive this]
  obtain r' where "on_raw (recv_body tr (puback_receive k (MAX_USER_PROPERTIES c) (tr_read tr) pb)
      (puback_header k q)) c = (Ok q, c\<lparr>cl_raw := r'\<rparr>)" "c_at tail sent j l r'"
    by blast
  then show ?thesis
    using assms(4) by (auto simp: receive_ack_def check_problem_information_def ret_def)
qed

lemma ack_act_at:
  assumes "c_at inp sent (length ans + j) l (cl_raw c)" and "ack_answer k p a = Some ans" and "pid_valid p"
    and "\<And>rc. a = Release rc \<or> a = Complete rc \<Longrightarrow> is_rel_comp_reason_code rc"
  shows "\<exists>r'. ack_act tr p a c = (Ok (), c\<lparr>cl_raw := r'\<rparr>) \<and> c_at inp (sent @ ans) j l r'"
proof (cases a)
  case RNone
  then show ?thesis using assms(1,2) by (auto simp: ack_act_def ret_def intro!: exI [of _ "cl_raw c"])
next
  case (Release rc)
  then have "ans = puback_bytes Rel (puback_minimal p rc)" using assms(2) by (cases k) auto
  then show ?thesis using Release respond_at [of inp sent Rel p rc j l c] assms
    by (simp add: ack_act_def pk_reason_code_allowed_def)
next
  case (Complete rc)
  then have "ans = puback_bytes Comp (puback_minimal p rc)" using assms(2) by (cases k) auto
  then show ?thesis using Complete respond_at [of inp sent Comp p rc j l c] assms
    by (simp add: ack_act_def pk_reason_code_allowed_def)
qed (use assms(2) in \<open>cases k; simp\<close>)+

lemma poll_ack_at:
  assumes at: "c_at (puback_bytes k q @ tail) sent (length ans + j) (puback_memory q + l) (cl_raw c)"
    and ok: "puback_ok k q" "length (pa_user_properties q) \<le> MAX_USER_PROPERTIES c"
      "cfg_request_problem_information (cl_client_config c) \<or> pa_reason_string q = None \<and> pa_user_properties q = []"
    and size: "word_of_nat (length (puback_body_bytes q))
        \<le> cfg_maximum_accepted_remaining_length (cl_client_config c)"
    and s: "ack_op k sr (cl_session c) (pa_packet_identifier q) (pa_reason_code q) = Some ((a, sm), s')"
    and ans: "ack_answer k (pa_packet_identifier q) a = Some ans"
      "\<And>rc. a = Release rc \<or> a = Complete rc \<Longrightarrow> is_rel_comp_reason_code rc"
    and told: "ack_told k q sm = Some ev"
  shows "\<exists>r'. poll sr tr pb c = (Ok ev, c\<lparr>cl_session := s', cl_raw := r'\<rparr>) \<and> c_at tail (sent @ ans) j l r'"
proof -
  let ?h = "puback_header k q" and ?b = "puback_body_bytes q"
  have len: "length ?b \<le> 268435455" using puback_lengths [OF ok(1)] by simp
  then have "vbi_value (remaining_len ?h) = word_of_nat (length ?b)"
    by (simp add: puback_header_def fixed_header_new_def)
  then obtain r1 where r1: "poll_header tr c = (Ok ?h, c\<lparr>cl_raw := r1\<rparr>)"
    "c_at (?b @ tail) sent (length ans + j) (puback_memory q + l) r1"
    using poll_header_at [of ?h "?b @ tail" sent "length ans + j" "puback_memory q + l" c] at size vbi_small [OF len]
    by (auto simp: puback_bytes_def header_type_puback)
  obtain r2 where r2: "receive_ack tr pb k ?h (c\<lparr>cl_raw := r1\<rparr>) = (Ok q, c\<lparr>cl_raw := r2\<rparr>)"
    "c_at tail sent (length ans + j) l r2"
    using receive_ack_at [of q sent "length ans + j" l "c\<lparr>cl_raw := r1\<rparr>" k] r1(2) ok by auto
  let ?c = "c\<lparr>cl_session := s', cl_raw := r2\<rparr>"
  have "pid_valid (pa_packet_identifier q)" using ok(1) by (simp add: puback_ok_def)
  then obtain r' where r': "ack_act tr (pa_packet_identifier q) a ?c = (Ok (), ?c\<lparr>cl_raw := r'\<rparr>)"
    "c_at tail (sent @ ans) j l r'"
    using ack_act_at [where c = ?c, OF _ ans(1) _ ans(2)] r2(2) by fastforce
  have "poll_body sr tr pb ?h (c\<lparr>cl_raw := r1\<rparr>) = (Ok ev, ?c\<lparr>cl_raw := r'\<rparr>)"
    by (rule poll_ack_run [OF header_type_puback r2(1)]) (use s ans(1) r'(1) told in simp_all)
  then have "poll sr tr pb c = (Ok ev, c\<lparr>cl_session := s', cl_raw := r'\<rparr>)"
    using r1(1) by (simp add: poll_def)
  then show ?thesis using r'(2) by blast
qed

end

end
