(* ===== verification/Mqtt_Completion.thy ===== *)
theory Mqtt_Completion
  imports Mqtt_Exchange
begin

text \<open>
  Handshakes that come to their end, and messages that arrive: what the calls of the client achieve
  when the server answers and the connection works.
\<close>

section \<open>Packets that the client takes\<close>

definition accepts_ack :: "('n, 'b) client \<Rightarrow> puback_kind \<Rightarrow> puback_packet \<Rightarrow> bool" where
  "accepts_ack c k q \<longleftrightarrow> puback_ok k q \<and> length (pa_user_properties q) \<le> MAX_USER_PROPERTIES c
     \<and> (cfg_request_problem_information (cl_client_config c)
        \<or> pa_reason_string q = None \<and> pa_user_properties q = [])
     \<and> word_of_nat (length (puback_body_bytes q))
         \<le> cfg_maximum_accepted_remaining_length (cl_client_config c)"

definition accepts_publish :: "('n, 'b) client \<Rightarrow> topic_name \<Rightarrow> publish_packet \<Rightarrow> bool" where
  "accepts_publish c t p \<longleftrightarrow> publish_ok p \<and> pu_topic p = TrName t
     \<and> length (pu_user_properties p) \<le> MAX_USER_PROPERTIES c
     \<and> word_of_nat (length (publish_body_bytes p))
         \<le> cfg_maximum_accepted_remaining_length (cl_client_config c)"

lemma accepts_same [simp]:
  "accepts_ack (c\<lparr>cl_session := s, cl_raw := r\<rparr>) k q = accepts_ack c k q"
  "accepts_publish (c\<lparr>cl_session := s, cl_raw := r\<rparr>) t p = accepts_publish c t p"
  by (simp_all add: accepts_ack_def accepts_publish_def)

lemma ack_poll:
  assumes "connection tr out room bytes pb free" and "accepts_ack c k q"
    and "conn_at bytes out room free (puback_bytes k q @ rest) sent (length ans + j) (puback_memory q + l) (cl_raw c)"
    and "ack_op k sr (cl_session c) (pa_packet_identifier q) (pa_reason_code q) = Some ((a, sm), s')"
    and "ack_answer k (pa_packet_identifier q) a = Some ans" and "ack_told k q sm = Some ev"
    and "\<And>rc. a = Release rc \<or> a = Complete rc \<Longrightarrow> is_rel_comp_reason_code rc"
  shows "\<exists>r'. poll sr tr pb c = (Ok ev, c\<lparr>cl_session := s', cl_raw := r'\<rparr>)
    \<and> conn_at bytes out room free rest (sent @ ans) j l r'"
  using assms(2) by (intro connection.poll_ack_at [OF assms(1,3) _ _ _ _ assms(4,5,7,6)]) (auto simp: accepts_ack_def)

lemma publish_poll:
  assumes "connection tr out room bytes pb free" and "accepts_publish c t p"
    and "conn_at bytes out room free (publish_bytes p @ rest) sent (length ans + j) (publish_memory p + l) (cl_raw c)"
    and "inbound_publish (cl_session c) (pu_identified_qos p)
        (chosen_mode c (publish_event_of Automatic t p)) = Some ((a, sm), s')"
    and "answer_bytes (pu_identified_qos p) a = Some ans"
    and "told_of (publish_event_of (chosen_mode c (publish_event_of Automatic t p)) t p) sm = Some ev"
    and "\<And>rc. a = Acknowledge rc \<or> a = Receive rc \<Longrightarrow> rc = RcSuccess"
  shows "\<exists>r'. poll sr tr pb c = (Ok ev, c\<lparr>cl_session := s', cl_raw := r'\<rparr>)
    \<and> conn_at bytes out room free rest (sent @ ans) j l r'"
proof -
  have e: "publish_event_of m t p = (publish_event_of Automatic t p)\<lparr>pe_ack_mode := m\<rparr>" for m
    by (simp add: publish_event_of_def)
  show ?thesis
    using assms(2) by (intro connection.poll_publish_at [OF assms(1,3) _ _ _ _ e refl assms(4,5,6,7)])
      (auto simp: accepts_publish_def)
qed

section \<open>Steps of the session\<close>

lemma pubrec_step:
  assumes "swap_remove_ok sr" and "session_inv s" and "is_success rc"
    and "local_entry s p = Some (AwaitRec Automatic) \<or> local_entry s p = Some (DuePublishExactlyOnce Automatic)"
  shows "\<exists>s'. ack_op Rec sr s p rc = Some ((Release RcSuccess, SmReceived Automatic), s')
    \<and> local_update s p (Some (AwaitComp Automatic)) s'"
  using vector_removal.inbound_pubrec_refines [OF vector_removal.intro [OF assms(1)] assms(2), of p rc] assms(3,4)
  by (auto simp: ack_op_def local_pubrec_def)

lemma pubcomp_step:
  assumes "swap_remove_ok sr" and "session_inv s" and "is_success rc" and "local_entry s p = Some (AwaitComp m)"
  shows "\<exists>s'. ack_op Comp sr s p rc = Some ((RNone, SmCompleted), s') \<and> local_update s p None s'"
  using vector_removal.inbound_pubcomp_refines [OF vector_removal.intro [OF assms(1)] assms(2), of p rc] assms(3,4)
  by (auto simp: ack_op_def local_pubcomp_def)

lemma publish2_step:
  assumes "swap_remove_ok sr" and "session_inv s" and "peer_entry s p = None" and "inbound_room s" and "pid_valid p"
  shows "\<exists>s'. inbound_publish s (IdExactlyOnce p) Automatic = Some ((Receive RcSuccess, SmPublish), s')
    \<and> peer_update s p (Some (AwaitRel Automatic)) s'"
  using vector_removal.inbound_publish_refines [OF vector_removal.intro [OF assms(1)] assms(2) _ assms(5),
      of "IdExactlyOnce p" Automatic] assms(3,4)
  by (auto simp: peer_publish_def)

lemma pubrel_step:
  assumes "swap_remove_ok sr" and "session_inv s" and "is_success rc" and "peer_entry s p = Some (AwaitRel Automatic)"
  shows "\<exists>s'. ack_op Rel sr s p rc = Some ((Complete RcSuccess, SmReleased Automatic), s') \<and> peer_update s p None s'"
  using vector_removal.inbound_pubrel_refines [OF vector_removal.intro [OF assms(1)] assms(2), of p rc] assms(3,4)
  by (auto simp: ack_op_def peer_pubrel_def ack_mode_of_peer_def)

lemma success_event: "is_success (pa_reason_code q) \<Longrightarrow> \<exists>e. puback_event_new q m = Some e"
  by (simp add: puback_event_new_def)

lemma local_update_other: "local_update s p eo s' \<Longrightarrow> inbound_publishes s' = inbound_publishes s"
  unfolding local_update_def by (metis session.select_convs(6) session.surjective session.update_convs(7))

lemma peer_update_other: "peer_update s p eo s' \<Longrightarrow> outbound_publishes s' = outbound_publishes s"
  unfolding peer_update_def by (metis session.select_convs(7) session.surjective session.update_convs(6))

section \<open>A client on slices\<close>

text \<open>A client with an empty session whose connection holds the bytes \<open>inp\<close> and takes \<open>k\<close> bytes.\<close>

definition slice_client :: "u8 list \<Rightarrow> nat \<Rightarrow> (slice_reader \<times> slice_writer, unit) client" where
  "slice_client inp k = idle_client\<lparr>cl_raw := (cl_raw idle_client)
     \<lparr>ra_n := NOk (slice_reader_new inp, slice_writer_new (replicate k 0))\<rparr>\<rparr>"

abbreviation slice_conn_at ::
    "u8 list \<Rightarrow> u8 list \<Rightarrow> nat \<Rightarrow> nat \<Rightarrow> (slice_reader \<times> slice_writer, unit) raw \<Rightarrow> bool" where
  "slice_conn_at \<equiv> conn_at (\<lambda>n. slice_bytes (fst n)) (\<lambda>n. slice_out (snd n)) (\<lambda>n. slice_room (snd n)) (\<lambda>b k. True)"

abbreviation slice_poll ::
    "(slice_reader \<times> slice_writer, unit) client
     \<Rightarrow> (bool mqtt_error, event) res \<times> (slice_reader \<times> slice_writer, unit) client" where
  "slice_poll \<equiv> poll last_takes_place slice_connection (alloc_provide :: nat \<Rightarrow> (unit, unit, u8 list) comp)"

lemma slice_contract:
  "connection slice_connection (\<lambda>n. slice_out (snd n)) (\<lambda>n. slice_room (snd n)) (\<lambda>n. slice_bytes (fst n))
     (alloc_provide :: nat \<Rightarrow> (unit, unit, u8 list) comp) (\<lambda>b k. True)"
  by (rule slice_conn.connection_axioms)

lemma slice_client_at: "j \<le> k \<Longrightarrow> slice_conn_at inp [] j l (cl_raw (slice_client inp k))"
  by (simp add: conn_at_def slice_client_def idle_client_def new_disconnected_def slice_bytes_def slice_reader_new_def
      slice_out_def slice_writer_new_def slice_room_def)

lemma slice_client_accepts_ack:
  "pid_valid p \<Longrightarrow> pk_reason_code_allowed k rc \<Longrightarrow> accepts_ack (slice_client inp n) k (puback_minimal p rc)"
  by (simp add: accepts_ack_def minimal_ok minimal_body slice_client_def idle_client_def client_config_default_def
      MAX_ENCODABLE_def)

text \<open>A message of one byte to the topic \<open>a\<close>.\<close>

definition memo :: "identified_qos \<Rightarrow> publish_packet" where
  "memo iq =
     \<lparr>pu_dup = False, pu_identified_qos = iq, pu_retain = False, pu_topic = TrName [0x61],
      pu_payload_format_indicator = None, pu_message_expiry_interval = None, pu_response_topic = None,
      pu_correlation_data = None, pu_user_properties = [], pu_subscription_identifiers = [],
      pu_content_type = None, pu_message = [1]\<rparr>"

lemma memo_body: "length (publish_body_bytes (memo (IdExactlyOnce i))) = 7"
  by (simp add: publish_body_bytes_def publish_props_bytes_def memo_def publish_topic_string_def opt_bytes_def
      binary_bytes_def user_properties_bytes_def vbi_bytes.simps)

lemma memo_ok: "pid_valid i \<Longrightarrow> publish_ok (memo (IdExactlyOnce i))"
  by (simp add: publish_ok_def memo_body)
     (simp add: memo_def topic_name_is_valid_def string_ok_def MAX_LENGTH_def)

lemma slice_client_accepts_memo:
  "pid_valid i \<Longrightarrow> accepts_publish (slice_client inp n) [0x61] (memo (IdExactlyOnce i))"
  by (simp add: accepts_publish_def memo_ok memo_body)
     (simp add: memo_def slice_client_def idle_client_def client_config_default_def MAX_ENCODABLE_def)

lemma slice_client_fields [simp]:
  "cl_session (slice_client inp k) = session_default 1 2 2" "\<not> cl_manual_ack_when (slice_client inp k) e"
  by (simp_all add: slice_client_def idle_client_def)

section \<open>Handshakes\<close>

text \<open>C5: An outgoing publication of Quality of Service 2 comes to its end. When the server answers with a
  PUBREC and, after the PUBREL, with a PUBCOMP, both reporting success, then the first \<open>poll\<close> writes the
  PUBREL and reports the PUBREC, the second reports the completion, and the packet identifier is free
  again; every other publication is as it was. So for any transport and buffer provider that keep
  their contracts, whatever else is in flight and whatever properties the packets carry.\<close>

theorem qos2_publication_completes:
  assumes "connection tr out room bytes pb free" and "swap_remove_ok sr" and "session_inv (cl_session c)"
    and "local_entry (cl_session c) p = Some (AwaitRec Automatic)
       \<or> local_entry (cl_session c) p = Some (DuePublishExactlyOnce Automatic)"
    and "accepts_ack c Rec rcv" and "pa_packet_identifier rcv = p" and "is_success (pa_reason_code rcv)"
    and "accepts_ack c Comp cmp" and "pa_packet_identifier cmp = p" and "is_success (pa_reason_code cmp)"
    and "conn_at bytes out room free (puback_bytes Rec rcv @ puback_bytes Comp cmp @ rest) sent (6 + j)
        (puback_memory rcv + (puback_memory cmp + l)) (cl_raw c)"
  shows "\<exists>e1 c1 e2 c2. poll sr tr pb c = (Ok (EvPublishReceived e1), c1)
      \<and> poll sr tr pb c1 = (Ok (EvPublishComplete e2), c2)
      \<and> puback_event_new rcv Automatic = Some e1 \<and> puback_event_new cmp Automatic = Some e2
      \<and> local_entry (cl_session c2) = (local_entry (cl_session c))(p := None)
      \<and> peer_entry (cl_session c2) = peer_entry (cl_session c)
      \<and> conn_at bytes out room free rest (sent @ puback_bytes Rel (puback_minimal p RcSuccess)) j l (cl_raw c2)"
proof -
  obtain e1 where e1: "puback_event_new rcv Automatic = Some e1" using success_event [OF assms(7)] by blast
  obtain e2 where e2: "puback_event_new cmp Automatic = Some e2" using success_event [OF assms(10)] by blast
  obtain s1 where s1: "ack_op Rec sr (cl_session c) p (pa_reason_code rcv)
      = Some ((Release RcSuccess, SmReceived Automatic), s1)"
    "local_update (cl_session c) p (Some (AwaitComp Automatic)) s1"
    using pubrec_step [OF assms(2,3,7,4)] by blast
  have inv: "session_inv s1" and "local_entry s1 p = Some (AwaitComp Automatic)"
    using s1(2) by (auto simp: local_update_def)
  then obtain s2 where s2: "ack_op Comp sr s1 p (pa_reason_code cmp) = Some ((RNone, SmCompleted), s2)"
    "local_update s1 p None s2"
    using pubcomp_step [OF assms(2) _ assms(10)] by blast
  let ?rel = "puback_bytes Rel (puback_minimal p RcSuccess)"
  obtain r1 where r1: "poll sr tr pb c = (Ok (EvPublishReceived e1), c\<lparr>cl_session := s1, cl_raw := r1\<rparr>)"
    "conn_at bytes out room free (puback_bytes Comp cmp @ rest) (sent @ ?rel) j (puback_memory cmp + l) r1"
    using ack_poll [OF assms(1,5), of "puback_bytes Comp cmp @ rest" sent ?rel j "puback_memory cmp + l" sr
        "Release RcSuccess" "SmReceived Automatic" s1 "EvPublishReceived e1"] assms(6,11) s1(1) e1
    by (auto simp: is_rel_comp_reason_code_def)
  obtain r2 where "poll sr tr pb (c\<lparr>cl_session := s1, cl_raw := r1\<rparr>)
      = (Ok (EvPublishComplete e2), c\<lparr>cl_session := s2, cl_raw := r2\<rparr>)"
    "conn_at bytes out room free rest (sent @ ?rel) j l r2"
    using ack_poll [OF assms(1), of "c\<lparr>cl_session := s1, cl_raw := r1\<rparr>" Comp cmp rest "sent @ ?rel" "[]" j l sr
        RNone SmCompleted s2 "EvPublishComplete e2"] assms(8,9) s2(1) e2 r1(2)
    by auto
  moreover have "local_entry s2 = (local_entry (cl_session c))(p := None)"
    "peer_entry s2 = peer_entry (cl_session c)"
    using local_update_other [OF s1(2)] local_update_other [OF s2(2)] s1(2) s2(2)
    by (simp_all add: local_update_def)
  ultimately show ?thesis using r1(1) e1 e2
    by (intro exI [of _ e1] exI [of _ e2] exI [of _ "c\<lparr>cl_session := s1, cl_raw := r1\<rparr>"]
        exI [of _ "c\<lparr>cl_session := s2, cl_raw := r2\<rparr>"]) simp
qed

theorem qos2_publication_completes_witness:
  "\<exists>e1 c1 e2 c2. slice_poll ((slice_client (puback_bytes Rec (puback_minimal 5 RcSuccess)
          @ puback_bytes Comp (puback_minimal 5 RcSuccess) @ []) 6)
        \<lparr>cl_session := (session_default 1 2 2)\<lparr>outbound_publishes := [(5, AwaitRec Automatic)]\<rparr>\<rparr>)
        = (Ok (EvPublishReceived e1), c1)
      \<and> slice_poll c1 = (Ok (EvPublishComplete e2), c2)
      \<and> puback_event_new (puback_minimal 5 RcSuccess) Automatic = Some e1
      \<and> puback_event_new (puback_minimal 5 RcSuccess) Automatic = Some e2
      \<and> local_entry (cl_session c2) = [5 \<mapsto> AwaitRec Automatic](5 := None)
      \<and> peer_entry (cl_session c2) = Map.empty
      \<and> slice_conn_at [] ([] @ puback_bytes Rel (puback_minimal 5 RcSuccess)) 0 0 (cl_raw c2)"
proof -
  let ?q = "puback_minimal 5 RcSuccess"
  let ?c = "(slice_client (puback_bytes Rec ?q @ puback_bytes Comp ?q @ []) 6)
        \<lparr>cl_session := (session_default 1 2 2)\<lparr>outbound_publishes := [(5, AwaitRec Automatic)]\<rparr>\<rparr>"
  have inv: "session_inv (cl_session ?c)" by (simp add: session_inv_def session_default_def pid_valid_def)
  have entry: "local_entry (cl_session ?c) 5 = Some (AwaitRec Automatic)
      \<or> local_entry (cl_session ?c) 5 = Some (DuePublishExactlyOnce Automatic)" by simp
  have acc: "accepts_ack ?c k ?q" for k
    using slice_client_accepts_ack [of 5 k RcSuccess "puback_bytes Rec ?q @ puback_bytes Comp ?q @ []" 6]
    by (cases k) (simp_all add: accepts_ack_def pid_valid_def pk_reason_code_allowed_def is_ack_rec_reason_code_def
        is_rel_comp_reason_code_def)
  have at: "slice_conn_at (puback_bytes Rec ?q @ puback_bytes Comp ?q @ []) [] (6 + 0)
      (puback_memory ?q + (puback_memory ?q + 0)) (cl_raw ?c)"
    using slice_client_at [of "6 + 0" 6] by simp
  have ok: "is_success (pa_reason_code ?q)" by (simp add: is_success_def is_erroneous_def)
  from qos2_publication_completes [OF slice_contract last_takes_place_ok inv entry acc _ ok acc _ ok at]
  show ?thesis by (simp add: session_default_def)
qed

lemma qos2_message_run:
  assumes "connection tr out room bytes pb free" and "swap_remove_ok sr" and "session_inv (cl_session c)"
    and "accepts_publish c t p" and "pu_identified_qos p = IdExactlyOnce i"
    and "\<not> cl_manual_ack_when c (publish_event_of Automatic t p)"
    and "peer_entry (cl_session c) i = None" and "inbound_room (cl_session c)"
    and "accepts_ack c Rel rel" and "pa_packet_identifier rel = i" and "is_success (pa_reason_code rel)"
    and "conn_at bytes out room free (publish_bytes p @ puback_bytes Rel rel @ rest) sent (12 + j)
        (publish_memory p + (puback_memory rel + l)) (cl_raw c)"
  shows "\<exists>s1 r1 e s2 r2. poll sr tr pb c = (Ok (EvPublish (publish_event_of Automatic t p)), c\<lparr>cl_session := s1, cl_raw := r1\<rparr>)
      \<and> poll sr tr pb (c\<lparr>cl_session := s1, cl_raw := r1\<rparr>) = (Ok (EvPublishReleased e), c\<lparr>cl_session := s2, cl_raw := r2\<rparr>)
      \<and> puback_event_new rel Automatic = Some e
      \<and> peer_update (cl_session c) i (Some (AwaitRel Automatic)) s1 \<and> peer_update s1 i None s2
      \<and> conn_at bytes out room free rest
          (sent @ puback_bytes Rec (puback_minimal i RcSuccess) @ puback_bytes Comp (puback_minimal i RcSuccess))
          j l r2"
proof -
  let ?rec = "puback_bytes Rec (puback_minimal i RcSuccess)" and ?comp = "puback_bytes Comp (puback_minimal i RcSuccess)"
  obtain e where e: "puback_event_new rel Automatic = Some e" using success_event [OF assms(11)] by blast
  have v: "pid_valid i" using assms(4,5) by (simp add: accepts_publish_def publish_ok_def)
  obtain s1 where s1: "inbound_publish (cl_session c) (IdExactlyOnce i) Automatic = Some ((Receive RcSuccess, SmPublish), s1)"
    "peer_update (cl_session c) i (Some (AwaitRel Automatic)) s1"
    using publish2_step [OF assms(2,3,7,8) v] by blast
  have "session_inv s1" "peer_entry s1 i = Some (AwaitRel Automatic)"
    using s1(2) by (auto simp: peer_update_def)
  then obtain s2 where s2: "ack_op Rel sr s1 i (pa_reason_code rel) = Some ((Complete RcSuccess, SmReleased Automatic), s2)"
    "peer_update s1 i None s2"
    using pubrel_step [OF assms(2) _ assms(11)] by blast
  have m: "chosen_mode c (publish_event_of Automatic t p) = Automatic" using assms(6) by (simp add: chosen_mode_def)
  obtain r1 where r1: "poll sr tr pb c = (Ok (EvPublish (publish_event_of Automatic t p)), c\<lparr>cl_session := s1, cl_raw := r1\<rparr>)"
    "conn_at bytes out room free (puback_bytes Rel rel @ rest) (sent @ ?rec) (6 + j) (puback_memory rel + l) r1"
    using publish_poll [OF assms(1,4), of "puback_bytes Rel rel @ rest" sent ?rec "6 + j" "puback_memory rel + l"
        "Receive RcSuccess" SmPublish s1 "EvPublish (publish_event_of Automatic t p)" sr] assms(5,12) s1(1) m
    by auto
  obtain r2 where "poll sr tr pb (c\<lparr>cl_session := s1, cl_raw := r1\<rparr>)
      = (Ok (EvPublishReleased e), c\<lparr>cl_session := s2, cl_raw := r2\<rparr>)"
    "conn_at bytes out room free rest (sent @ ?rec @ ?comp) j l r2"
    using ack_poll [OF assms(1), of "c\<lparr>cl_session := s1, cl_raw := r1\<rparr>" Rel rel rest "sent @ ?rec" ?comp j l sr
        "Complete RcSuccess" "SmReleased Automatic" s2 "EvPublishReleased e"] assms(9,10) s2(1) e r1(2)
    by (auto simp: is_rel_comp_reason_code_def)
  then show ?thesis using r1(1) e s1(2) s2(2) by blast
qed

text \<open>C6: An incoming message of Quality of Service 2 comes to its end. When the server sends a PUBLISH
  packet under an identifier that is not in use, the session has room, the user leaves the
  acknowledgement to the client, and the server sends a PUBREL after the PUBREC, then the first
  \<open>poll\<close> writes the PUBREC and returns the message with every field of the packet, the second writes
  the PUBCOMP and reports the release, and the session is as before: the identifier can carry the
  next message.\<close>

theorem qos2_message_completes:
  assumes "connection tr out room bytes pb free" and "swap_remove_ok sr" and "session_inv (cl_session c)"
    and "accepts_publish c t p" and "pu_identified_qos p = IdExactlyOnce i"
    and "\<not> cl_manual_ack_when c (publish_event_of Automatic t p)"
    and "peer_entry (cl_session c) i = None" and "inbound_room (cl_session c)"
    and "accepts_ack c Rel rel" and "pa_packet_identifier rel = i" and "is_success (pa_reason_code rel)"
    and "conn_at bytes out room free (publish_bytes p @ puback_bytes Rel rel @ rest) sent (12 + j)
        (publish_memory p + (puback_memory rel + l)) (cl_raw c)"
  shows "\<exists>c1 e c2. poll sr tr pb c = (Ok (EvPublish (publish_event_of Automatic t p)), c1)
      \<and> poll sr tr pb c1 = (Ok (EvPublishReleased e), c2)
      \<and> peer_entry (cl_session c1) i = Some (AwaitRel Automatic)
      \<and> puback_event_new rel Automatic = Some e
      \<and> peer_entry (cl_session c2) = peer_entry (cl_session c)
      \<and> local_entry (cl_session c2) = local_entry (cl_session c)
      \<and> conn_at bytes out room free rest
          (sent @ puback_bytes Rec (puback_minimal i RcSuccess) @ puback_bytes Comp (puback_minimal i RcSuccess))
          j l (cl_raw c2)"
proof -
  obtain s1 r1 e s2 r2 where r: "poll sr tr pb c = (Ok (EvPublish (publish_event_of Automatic t p)), c\<lparr>cl_session := s1, cl_raw := r1\<rparr>)"
    "poll sr tr pb (c\<lparr>cl_session := s1, cl_raw := r1\<rparr>) = (Ok (EvPublishReleased e), c\<lparr>cl_session := s2, cl_raw := r2\<rparr>)"
    "puback_event_new rel Automatic = Some e"
    "conn_at bytes out room free rest (sent @ puback_bytes Rec (puback_minimal i RcSuccess)
       @ puback_bytes Comp (puback_minimal i RcSuccess)) j l r2"
    and u: "peer_update (cl_session c) i (Some (AwaitRel Automatic)) s1" "peer_update s1 i None s2"
    using qos2_message_run [OF assms] by blast
  have "peer_entry s2 = peer_entry (cl_session c)" "local_entry s2 = local_entry (cl_session c)"
    "peer_entry s1 i = Some (AwaitRel Automatic)"
    using peer_update_other [OF u(1)] peer_update_other [OF u(2)] u assms(7)
    by (simp_all add: peer_update_def fun_upd_idem)
  then show ?thesis using r
    by (intro exI [of _ e] exI [of _ "c\<lparr>cl_session := s1, cl_raw := r1\<rparr>"]
        exI [of _ "c\<lparr>cl_session := s2, cl_raw := r2\<rparr>"]) simp
qed

theorem qos2_message_completes_witness:
  "let c = slice_client (publish_bytes (memo (IdExactlyOnce 5)) @ puback_bytes Rel (puback_minimal 5 RcSuccess) @ []) 12 in
   \<exists>c1 e c2. slice_poll c = (Ok (EvPublish (publish_event_of Automatic [0x61] (memo (IdExactlyOnce 5)))), c1)
      \<and> slice_poll c1 = (Ok (EvPublishReleased e), c2)
      \<and> peer_entry (cl_session c1) 5 = Some (AwaitRel Automatic)
      \<and> puback_event_new (puback_minimal 5 RcSuccess) Automatic = Some e
      \<and> peer_entry (cl_session c2) = peer_entry (cl_session c)
      \<and> local_entry (cl_session c2) = local_entry (cl_session c)
      \<and> slice_conn_at [] ([] @ puback_bytes Rec (puback_minimal 5 RcSuccess)
            @ puback_bytes Comp (puback_minimal 5 RcSuccess)) 0 0 (cl_raw c2)"
proof -
  let ?p = "memo (IdExactlyOnce 5)" and ?q = "puback_minimal 5 RcSuccess"
  let ?inp = "publish_bytes ?p @ puback_bytes Rel ?q @ []"
  let ?c = "slice_client ?inp 12"
  have v: "pid_valid 5" by (simp add: pid_valid_def)
  have inv: "session_inv (cl_session ?c)" and new: "peer_entry (cl_session ?c) 5 = None"
    and room: "inbound_room (cl_session ?c)"
    by (simp_all add: session_inv_def session_default_def inbound_room_def)
  have acc: "accepts_ack ?c Rel ?q"
    using slice_client_accepts_ack [OF v] by (simp add: pk_reason_code_allowed_def is_rel_comp_reason_code_def)
  have ok: "is_success (pa_reason_code ?q)" by (simp add: is_success_def is_erroneous_def)
  have iq: "pu_identified_qos ?p = IdExactlyOnce 5" and mode: "\<not> cl_manual_ack_when ?c (publish_event_of Automatic [0x61] ?p)"
    by (simp_all add: memo_def)
  have at: "slice_conn_at ?inp [] (12 + 0) (publish_memory ?p + (puback_memory ?q + 0)) (cl_raw ?c)"
    using slice_client_at [of "12 + 0" 12] by simp
  show ?thesis
    unfolding Let_def by (rule qos2_message_completes [OF slice_contract last_takes_place_ok inv
          slice_client_accepts_memo [OF v] iq mode new room acc _ ok at]) simp
qed

end
