(* ===== verification/Mqtt_Options.thy ===== *)
theory Mqtt_Options
  imports Mqtt_Config
begin

text \<open>
  The setters of the option records of \<open>src/client/options\<close>, which a user chains behind \<open>new\<close>. Each
  replaces one field and gives the record back. For every record, a lemma shows that the chain of
  setters gives every value of the record: the builders lose no option.
\<close>

text \<open>A setter that is applied or left out, and one that is given the value of an optional field.\<close>

definition applied_if :: "bool \<Rightarrow> ('o \<Rightarrow> 'o) \<Rightarrow> 'o \<Rightarrow> 'o" where
  "applied_if b f = (if b then f else id)"

definition applied_to :: "'a option \<Rightarrow> ('o \<Rightarrow> 'a \<Rightarrow> 'o) \<Rightarrow> 'o \<Rightarrow> 'o" where
  "applied_to v f x = (case v of None \<Rightarrow> x | Some a \<Rightarrow> f x a)"

section \<open>Acknowledgement modes\<close>

definition is_automatic :: "ack_mode \<Rightarrow> bool" where
  "is_automatic mode = (case mode of Automatic \<Rightarrow> True | Manual \<Rightarrow> False)"

lemma is_automatic_iff: "is_automatic mode \<longleftrightarrow> \<not> is_manual mode"
  by (cases mode) (simp_all add: is_automatic_def is_manual_def)

section \<open>CONNECT\<close>

definition connect_options_clean_start :: "connect_options \<Rightarrow> connect_options" where
  "connect_options_clean_start options = options\<lparr>co_clean_start := True\<rparr>"

definition connect_options_keep_alive :: "connect_options \<Rightarrow> keep_alive \<Rightarrow> connect_options" where
  "connect_options_keep_alive options v = options\<lparr>co_keep_alive := v\<rparr>"

definition connect_options_session_expiry_interval :: "connect_options \<Rightarrow> session_expiry_interval \<Rightarrow> connect_options" where
  "connect_options_session_expiry_interval options v = options\<lparr>co_session_expiry_interval := v\<rparr>"

definition connect_options_maximum_packet_size :: "connect_options \<Rightarrow> u32 \<Rightarrow> connect_options" where
  "connect_options_maximum_packet_size options v = options\<lparr>co_maximum_packet_size := MpsLimit v\<rparr>"

definition connect_options_request_response_information :: "connect_options \<Rightarrow> connect_options" where
  "connect_options_request_response_information options = options\<lparr>co_request_response_information := True\<rparr>"

definition connect_options_request_problem_information :: "connect_options \<Rightarrow> connect_options" where
  "connect_options_request_problem_information options = options\<lparr>co_request_problem_information := True\<rparr>"

definition connect_options_user_properties :: "connect_options \<Rightarrow> mqtt_string_pair list \<Rightarrow> connect_options" where
  "connect_options_user_properties options v = options\<lparr>co_user_properties := v\<rparr>"

definition connect_options_user_name :: "connect_options \<Rightarrow> mqtt_string \<Rightarrow> connect_options" where
  "connect_options_user_name options v = options\<lparr>co_user_name := Some v\<rparr>"

definition connect_options_password :: "connect_options \<Rightarrow> mqtt_binary \<Rightarrow> connect_options" where
  "connect_options_password options v = options\<lparr>co_password := Some v\<rparr>"

definition connect_options_will :: "connect_options \<Rightarrow> will_options \<Rightarrow> connect_options" where
  "connect_options_will options v = options\<lparr>co_will := Some v\<rparr>"

lemma connect_options_built:
  "x =
     (applied_to (co_will x) connect_options_will
       (applied_to (co_password x) connect_options_password
       (applied_to (co_user_name x) connect_options_user_name
       (applied_to (Some (co_user_properties x)) connect_options_user_properties
       (applied_if (co_request_problem_information x) connect_options_request_problem_information
       (applied_if (co_request_response_information x) connect_options_request_response_information
       (applied_to (case co_maximum_packet_size x of MpsUnlimited \<Rightarrow> None | MpsLimit l \<Rightarrow> Some l) connect_options_maximum_packet_size
       (applied_to (Some (co_session_expiry_interval x)) connect_options_session_expiry_interval
       (applied_to (Some (co_keep_alive x)) connect_options_keep_alive
       (applied_if (co_clean_start x) connect_options_clean_start
       (connect_options_new)))))))))))"
  by (cases x) (auto simp: connect_options_clean_start_def connect_options_keep_alive_def
      connect_options_session_expiry_interval_def connect_options_maximum_packet_size_def
      connect_options_request_response_information_def
      connect_options_request_problem_information_def connect_options_user_properties_def
      connect_options_user_name_def connect_options_password_def connect_options_will_def
      connect_options_new_def applied_if_def applied_to_def
      split: option.split maximum_packet_size.split)

section \<open>PUBLISH\<close>

definition publication_options_ack_manually :: "publication_options \<Rightarrow> publication_options" where
  "publication_options_ack_manually options = options\<lparr>po_ack_mode := Manual\<rparr>"

definition publication_options_qos :: "publication_options \<Rightarrow> qos \<Rightarrow> publication_options" where
  "publication_options_qos options v = options\<lparr>po_qos := v\<rparr>"

definition publication_options_at_least_once :: "publication_options \<Rightarrow> publication_options" where
  "publication_options_at_least_once options = publication_options_qos options AtLeastOnce"

definition publication_options_exactly_once :: "publication_options \<Rightarrow> publication_options" where
  "publication_options_exactly_once options = publication_options_qos options ExactlyOnce"

definition publication_options_retain :: "publication_options \<Rightarrow> publication_options" where
  "publication_options_retain options = options\<lparr>po_retain := True\<rparr>"

definition publication_options_payload_format_indicator :: "publication_options \<Rightarrow> bool \<Rightarrow> publication_options" where
  "publication_options_payload_format_indicator options v = options\<lparr>po_payload_format_indicator := Some v\<rparr>"

definition publication_options_message_expiry_interval :: "publication_options \<Rightarrow> u32 \<Rightarrow> publication_options" where
  "publication_options_message_expiry_interval options v = options\<lparr>po_message_expiry_interval := Some v\<rparr>"

definition publication_options_response_topic :: "publication_options \<Rightarrow> topic_name \<Rightarrow> publication_options" where
  "publication_options_response_topic options v = options\<lparr>po_response_topic := Some v\<rparr>"

definition publication_options_correlation_data :: "publication_options \<Rightarrow> mqtt_binary \<Rightarrow> publication_options" where
  "publication_options_correlation_data options v = options\<lparr>po_correlation_data := Some v\<rparr>"

definition publication_options_user_properties :: "publication_options \<Rightarrow> mqtt_string_pair list \<Rightarrow> publication_options" where
  "publication_options_user_properties options v = options\<lparr>po_user_properties := v\<rparr>"

definition publication_options_content_type :: "publication_options \<Rightarrow> mqtt_string \<Rightarrow> publication_options" where
  "publication_options_content_type options v = options\<lparr>po_content_type := Some v\<rparr>"

lemma publication_options_built:
  "x =
     (applied_to (po_content_type x) publication_options_content_type
       (applied_to (Some (po_user_properties x)) publication_options_user_properties
       (applied_to (po_correlation_data x) publication_options_correlation_data
       (applied_to (po_response_topic x) publication_options_response_topic
       (applied_to (po_message_expiry_interval x) publication_options_message_expiry_interval
       (applied_to (po_payload_format_indicator x) publication_options_payload_format_indicator
       (applied_if (po_retain x) publication_options_retain
       (applied_to (Some (po_qos x)) publication_options_qos
       (applied_if (po_ack_mode x = Manual) publication_options_ack_manually
       (publication_options_new (po_topic x)))))))))))"
  by (cases x; cases "po_ack_mode x") (auto simp: publication_options_ack_manually_def publication_options_qos_def publication_options_retain_def
      publication_options_payload_format_indicator_def
      publication_options_message_expiry_interval_def publication_options_response_topic_def
      publication_options_correlation_data_def publication_options_user_properties_def
      publication_options_content_type_def publication_options_new_def applied_if_def applied_to_def
      split: option.split)

section \<open>SUBSCRIBE\<close>

definition subscription_options_new :: subscription_options where
  "subscription_options_new = \<lparr>so_retain_handling = AlwaysSend, so_retain_as_published = False,
     so_no_local = False, so_qos = AtMostOnce, so_subscription_identifier = None, so_user_properties = []\<rparr>"

definition subscription_options_qos :: "subscription_options \<Rightarrow> qos \<Rightarrow> subscription_options" where
  "subscription_options_qos options v = options\<lparr>so_qos := v\<rparr>"

definition subscription_options_at_least_once :: "subscription_options \<Rightarrow> subscription_options" where
  "subscription_options_at_least_once options = subscription_options_qos options AtLeastOnce"

definition subscription_options_exactly_once :: "subscription_options \<Rightarrow> subscription_options" where
  "subscription_options_exactly_once options = subscription_options_qos options ExactlyOnce"

definition subscription_options_retain_handling :: "subscription_options \<Rightarrow> retain_handling \<Rightarrow> subscription_options" where
  "subscription_options_retain_handling options v = options\<lparr>so_retain_handling := v\<rparr>"

definition subscription_options_retain_as_published :: "subscription_options \<Rightarrow> subscription_options" where
  "subscription_options_retain_as_published options = options\<lparr>so_retain_as_published := True\<rparr>"

definition subscription_options_no_local :: "subscription_options \<Rightarrow> subscription_options" where
  "subscription_options_no_local options = options\<lparr>so_no_local := True\<rparr>"

definition subscription_options_subscription_identifier :: "subscription_options \<Rightarrow> var_byte_int \<Rightarrow> subscription_options" where
  "subscription_options_subscription_identifier options v = options\<lparr>so_subscription_identifier := Some v\<rparr>"

definition subscription_options_user_properties :: "subscription_options \<Rightarrow> mqtt_string_pair list \<Rightarrow> subscription_options" where
  "subscription_options_user_properties options v = options\<lparr>so_user_properties := v\<rparr>"

lemma subscription_options_built:
  "x =
     (applied_to (Some (so_user_properties x)) subscription_options_user_properties
       (applied_to (so_subscription_identifier x) subscription_options_subscription_identifier
       (applied_if (so_no_local x) subscription_options_no_local
       (applied_if (so_retain_as_published x) subscription_options_retain_as_published
       (applied_to (Some (so_retain_handling x)) subscription_options_retain_handling
       (applied_to (Some (so_qos x)) subscription_options_qos
       (subscription_options_new)))))))"
  by (cases x) (auto simp: subscription_options_qos_def subscription_options_retain_handling_def
      subscription_options_retain_as_published_def subscription_options_no_local_def
      subscription_options_subscription_identifier_def subscription_options_user_properties_def
      subscription_options_new_def applied_if_def applied_to_def
      split: option.split)

section \<open>UNSUBSCRIBE\<close>

definition unsubscription_options_new :: unsubscription_options where
  "unsubscription_options_new = \<lparr>uo_user_properties = []\<rparr>"

definition unsubscription_options_user_properties :: "unsubscription_options \<Rightarrow> mqtt_string_pair list \<Rightarrow> unsubscription_options" where
  "unsubscription_options_user_properties options v = options\<lparr>uo_user_properties := v\<rparr>"

lemma unsubscription_options_built:
  "x =
     (applied_to (Some (uo_user_properties x)) unsubscription_options_user_properties
       (unsubscription_options_new))"
  by (cases x) (auto simp: unsubscription_options_user_properties_def unsubscription_options_new_def applied_if_def
      applied_to_def
      split: option.split)

section \<open>Acknowledgements\<close>

definition ack_options_reason_string :: "ack_options \<Rightarrow> mqtt_string \<Rightarrow> ack_options" where
  "ack_options_reason_string options v = options\<lparr>ao_reason_string := Some v\<rparr>"

definition ack_options_user_properties :: "ack_options \<Rightarrow> mqtt_string_pair list \<Rightarrow> ack_options" where
  "ack_options_user_properties options v = options\<lparr>ao_user_properties := v\<rparr>"

lemma ack_options_built:
  "x =
     (applied_to (Some (ao_user_properties x)) ack_options_user_properties
       (applied_to (ao_reason_string x) ack_options_reason_string
       (ack_options_new)))"
  by (cases x) (auto simp: ack_options_reason_string_def ack_options_user_properties_def ack_options_new_def
      applied_if_def applied_to_def
      split: option.split)

section \<open>DISCONNECT\<close>

definition disconnect_options_reason_code :: "disconnect_options \<Rightarrow> reason_code \<Rightarrow> disconnect_options" where
  "disconnect_options_reason_code options v = options\<lparr>do_reason_code := v\<rparr>"

definition disconnect_options_publish_will :: "disconnect_options \<Rightarrow> disconnect_options" where
  "disconnect_options_publish_will options = disconnect_options_reason_code options RcDisconnectWithWillMessage"

definition disconnect_options_session_expiry_interval :: "disconnect_options \<Rightarrow> session_expiry_interval \<Rightarrow> disconnect_options" where
  "disconnect_options_session_expiry_interval options v = options\<lparr>do_session_expiry_interval := Some v\<rparr>"

definition disconnect_options_reason_string :: "disconnect_options \<Rightarrow> mqtt_string \<Rightarrow> disconnect_options" where
  "disconnect_options_reason_string options v = options\<lparr>do_reason_string := Some v\<rparr>"

definition disconnect_options_user_properties :: "disconnect_options \<Rightarrow> mqtt_string_pair list \<Rightarrow> disconnect_options" where
  "disconnect_options_user_properties options v = options\<lparr>do_user_properties := v\<rparr>"

lemma disconnect_options_built:
  "x =
     (applied_to (Some (do_user_properties x)) disconnect_options_user_properties
       (applied_to (do_reason_string x) disconnect_options_reason_string
       (applied_to (do_session_expiry_interval x) disconnect_options_session_expiry_interval
       (applied_to (Some (do_reason_code x)) disconnect_options_reason_code
       (disconnect_options_new)))))"
  by (cases x) (auto simp: disconnect_options_reason_code_def disconnect_options_session_expiry_interval_def
      disconnect_options_reason_string_def disconnect_options_user_properties_def
      disconnect_options_new_def applied_if_def applied_to_def
      split: option.split)

section \<open>Will\<close>

definition will_options_new :: "topic_name \<Rightarrow> mqtt_binary \<Rightarrow> will_options" where
  "will_options_new topic message =
     \<lparr>wo_will_qos = AtMostOnce, wo_will_retain = False, wo_will_topic = topic, wo_will_delay_interval = 0,
      wo_payload_format_indicator = None, wo_message_expiry_interval = None, wo_content_type = None,
      wo_response_topic = None, wo_correlation_data = None, wo_user_properties = [],
      wo_will_message = message\<rparr>"

definition will_options_qos :: "will_options \<Rightarrow> qos \<Rightarrow> will_options" where
  "will_options_qos options v = options\<lparr>wo_will_qos := v\<rparr>"

definition will_options_at_least_once :: "will_options \<Rightarrow> will_options" where
  "will_options_at_least_once options = will_options_qos options AtLeastOnce"

definition will_options_exactly_once :: "will_options \<Rightarrow> will_options" where
  "will_options_exactly_once options = will_options_qos options ExactlyOnce"

definition will_options_retain :: "will_options \<Rightarrow> will_options" where
  "will_options_retain options = options\<lparr>wo_will_retain := True\<rparr>"

definition will_options_delay_interval :: "will_options \<Rightarrow> u32 \<Rightarrow> will_options" where
  "will_options_delay_interval options v = options\<lparr>wo_will_delay_interval := v\<rparr>"

definition will_options_payload_format_indicator :: "will_options \<Rightarrow> bool \<Rightarrow> will_options" where
  "will_options_payload_format_indicator options v = options\<lparr>wo_payload_format_indicator := Some v\<rparr>"

definition will_options_message_expiry_interval :: "will_options \<Rightarrow> u32 \<Rightarrow> will_options" where
  "will_options_message_expiry_interval options v = options\<lparr>wo_message_expiry_interval := Some v\<rparr>"

definition will_options_content_type :: "will_options \<Rightarrow> mqtt_string \<Rightarrow> will_options" where
  "will_options_content_type options v = options\<lparr>wo_content_type := Some v\<rparr>"

definition will_options_response_topic :: "will_options \<Rightarrow> topic_name \<Rightarrow> will_options" where
  "will_options_response_topic options v = options\<lparr>wo_response_topic := Some v\<rparr>"

definition will_options_correlation_data :: "will_options \<Rightarrow> mqtt_binary \<Rightarrow> will_options" where
  "will_options_correlation_data options v = options\<lparr>wo_correlation_data := Some v\<rparr>"

definition will_options_user_properties :: "will_options \<Rightarrow> mqtt_string_pair list \<Rightarrow> will_options" where
  "will_options_user_properties options v = options\<lparr>wo_user_properties := v\<rparr>"

lemma will_options_built:
  "x =
     (applied_to (Some (wo_user_properties x)) will_options_user_properties
       (applied_to (wo_correlation_data x) will_options_correlation_data
       (applied_to (wo_response_topic x) will_options_response_topic
       (applied_to (wo_content_type x) will_options_content_type
       (applied_to (wo_message_expiry_interval x) will_options_message_expiry_interval
       (applied_to (wo_payload_format_indicator x) will_options_payload_format_indicator
       (applied_to (Some (wo_will_delay_interval x)) will_options_delay_interval
       (applied_if (wo_will_retain x) will_options_retain
       (applied_to (Some (wo_will_qos x)) will_options_qos
       (will_options_new (wo_will_topic x) (wo_will_message x)))))))))))"
  by (cases x) (auto simp: will_options_qos_def will_options_retain_def will_options_delay_interval_def
      will_options_payload_format_indicator_def will_options_message_expiry_interval_def
      will_options_content_type_def will_options_response_topic_def will_options_correlation_data_def
      will_options_user_properties_def will_options_new_def applied_if_def applied_to_def
      split: option.split)

end
