(* ===== verification/Mqtt_Arrival.thy ===== *)
theory Mqtt_Arrival
  imports Mqtt_Completion Mqtt_Options
begin

text \<open>
  A message from the \<open>publish\<close> of one client to the \<open>poll\<close> of another: \<open>publish\<close> succeeds when its
  conditions are met and the connection works, what it writes is the packet, and a client that is
  sent those bytes returns the message as it was published.
\<close>

section \<open>Publishing on a connection\<close>

text \<open>The options against the capabilities of the server.\<close>

definition supported :: "server_config \<Rightarrow> publication_options \<Rightarrow> bool" where
  "supported server options \<longleftrightarrow> po_qos options \<le> srv_maximum_qos server
     \<and> (po_retain options \<longrightarrow> srv_retain_supported server)
     \<and> (\<forall>a. topic_alias (po_topic options) = Some a \<longrightarrow> a \<le> srv_topic_alias_maximum server)"

text \<open>The identifier that \<open>publish\<close> takes, and whether the session and the server have room for it.\<close>

definition chosen_qos :: "session \<Rightarrow> qos \<Rightarrow> identified_qos option" where
  "chosen_qos s q = (case q of
      AtMostOnce \<Rightarrow> Some IdAtMostOnce
    | AtLeastOnce \<Rightarrow> map_option (\<lambda>h. IdAtLeastOnce (fh_packet_identifier h)) (get_free_handle s)
    | ExactlyOnce \<Rightarrow> map_option (\<lambda>h. IdExactlyOnce (fh_packet_identifier h)) (get_free_handle s))"

definition publish_room :: "('n, 'b) client \<Rightarrow> bool" where
  "publish_room c \<longleftrightarrow> outbound_room (cl_session c)
     \<and> length (outbound_publishes (cl_session c)) < unat (srv_receive_maximum (cl_server_config c))"

text \<open>All that \<open>publish\<close> asks for before it sends the packet \<open>p\<close>.\<close>

definition publishable ::
    "('n, 'b) client \<Rightarrow> publication_options \<Rightarrow> u8 list \<Rightarrow> identified_qos \<Rightarrow> publish_packet \<Rightarrow> bool" where
  "publishable c options message iq p \<longleftrightarrow>
     length (po_user_properties options) \<le> MAX_USER_PROPERTIES c
   \<and> (po_ack_mode options = Manual \<longrightarrow> po_qos options = ExactlyOnce)
   \<and> supported (cl_server_config c) options
   \<and> chosen_qos (cl_session c) (po_qos options) = Some iq
   \<and> publish_packet_of False iq options message = Some p \<and> publish_ok p
   \<and> word_of_nat (length (publish_bytes p))
       \<le> maximum_packet_size_as_u32 (srv_maximum_packet_size (cl_server_config c))
   \<and> (po_qos options \<noteq> AtMostOnce \<longrightarrow> publish_room c)"

lemma check_supported_ok: "supported (cl_server_config c) options \<Longrightarrow> check_supported options c = (Ok (), c)"
  by (auto simp: check_supported_def supported_def gets_def ensure_def ret_def not_less split: option.splits)

lemma check_size_ok:
  assumes "publish_ok p" and "word_of_nat (length (publish_bytes p))
      \<le> maximum_packet_size_as_u32 (srv_maximum_packet_size (cl_server_config c))"
  shows "check_size (publish_remaining_len_raw p) c = (Ok (), c)"
proof -
  have len: "length (publish_body_bytes p) \<le> 268435455" using assms(1) by (simp add: publish_ok_def)
  have "encoded_len (publish_remaining_len_raw p) = Some (length (publish_bytes p))"
    unfolding publish_lengths(2) [OF len] using encoded_len_bytes [OF len, of PtPublish "publish_flags p"]
    by (simp add: publish_bytes_def publish_header_def)
  then show ?thesis using assms(2) by (simp add: check_size_def gets_def ensure_def ret_def not_less)
qed

lemma quota_ok:
  assumes "session_inv (cl_session c)" and "publish_room c"
  shows "\<exists>q. remaining_send_quota c = Some q \<and> q \<noteq> 0"
proof -
  let ?n = "length (outbound_publishes (cl_session c))" and ?m = "srv_receive_maximum (cl_server_config c)"
  have n: "?n \<le> 65535" "?n < unat ?m" using assms by (auto simp: session_inv_def publish_room_def)
  then have "active_outbound_publishes (cl_session c) = Some (word_of_nat ?n)"
    by (simp add: active_outbound_publishes_def)
  moreover have "word_of_nat ?n < ?m" using n by (simp add: word_less_nat_alt unat_of_nat)
  ultimately show ?thesis by (auto simp: remaining_send_quota_def Let_def)
qed

lemma outbound_publish_ok:
  assumes "session_inv s" and "outbound_room s" and "get_free_handle s = Some h" and "q \<noteq> AtMostOnce"
    and "m = Manual \<longrightarrow> q = ExactlyOnce"
  shows "\<exists>s'. outbound_publish h q m = Some (Inr (), s')
    \<and> local_update s (fh_packet_identifier h) (Some (fresh_local q m)) s'"
proof -
  note h = get_free_handle_Some [OF assms(3)]
  obtain s' where "schedule_outbound s (fh_packet_identifier h) (fresh_local q m) = Some s'"
    "local_update s (fh_packet_identifier h) (Some (fresh_local q m)) s'"
    using schedule_outbound_ok [OF assms(1,2) h(2,3)] by blast
  then show ?thesis
    using h(1) outbound_capacity [OF assms(1)] assms(2,4,5)
    by (cases q; cases m) (auto simp: outbound_publish_def fresh_local_def is_manual_def)
qed

context connection
begin

lemma send_publish_at:
  assumes "c_at inp sent (length (publish_bytes p) + j) l (cl_raw c)" and "publish_ok p"
  shows "\<exists>r'. send_packet tr (\<lambda>wr. publish_send wr p) c = (Ok (), c\<lparr>cl_raw := r'\<rparr>)
    \<and> c_at inp (sent @ publish_bytes p) j l r'"
  using send_packet_at [where pw = "\<lambda>wr. publish_write wr p" and f = tx_of_write, OF assms(1)
      writes_publish [OF assms(2), folded publish_bytes_def]] unread.keeps_sends
  by (simp add: publish_send_def)

end

text \<open>What the publication leaves in the session.\<close>

definition published_in :: "session \<Rightarrow> identified_qos \<Rightarrow> ack_mode \<Rightarrow> session \<Rightarrow> bool" where
  "published_in s iq m s' \<longleftrightarrow> (case packet_identifier iq of
      None \<Rightarrow> s' = s
    | Some i \<Rightarrow> local_entry s i = None \<and> local_update s i (Some (fresh_local (qos_of iq) m)) s')"

lemma publish_at:
  fixes tr :: "('n, 'e, 'k) transport" and c :: "('n, 'b) client"
  assumes conn: "connection tr out room bytes pb free" and inv: "session_inv (cl_session c)"
    and p: "publishable c options message iq p"
    and at: "conn_at bytes out room free inp sent (length (publish_bytes p) + j) l (cl_raw c)"
  shows "\<exists>s' r'. client_publish tr options message c = (Ok (packet_identifier iq), c\<lparr>cl_session := s', cl_raw := r'\<rparr>)
    \<and> published_in (cl_session c) iq (po_ack_mode options) s'
    \<and> conn_at bytes out room free inp (sent @ publish_bytes p) j l r'"
proof -
  note p' = p [unfolded publishable_def]
  have sup: "check_supported options c = (Ok () :: ('k mqtt_error, _) res, c)" using p' by (simp add: check_supported_ok)
  have size: "check_size (publish_remaining_len_raw p) c = (Ok () :: ('k mqtt_error, _) res, c)"
    using p' by (simp add: check_size_ok)
  have send: "\<exists>r'. send_packet tr (\<lambda>wr. publish_send wr p) c' = (Ok (), c'\<lparr>cl_raw := r'\<rparr>)
      \<and> conn_at bytes out room free inp (sent @ publish_bytes p) j l r'" if "cl_raw c' = cl_raw c" for c' :: "('n, 'b) client"
    using connection.send_publish_at [OF conn, of inp sent p j l c'] at that p' by simp
  show ?thesis
  proof (cases "po_qos options = AtMostOnce")
    case True
    then have "iq = IdAtMostOnce" using p' by (simp add: chosen_qos_def)
    moreover obtain r' where "send_packet tr (\<lambda>wr. publish_send wr p) c = (Ok (), c\<lparr>cl_raw := r'\<rparr>)"
      "conn_at bytes out room free inp (sent @ publish_bytes p) j l r'" using send [of c] by auto
    ultimately show ?thesis using True p' sup size
      by (intro exI [of _ "cl_session c"] exI [of _ r'])
         (auto simp: client_publish_def assert_user_properties_def asserts_def ensure_def gets_def ret_def published_in_def)
  next
    case False
    then obtain h where h: "get_free_handle (cl_session c) = Some h"
      "packet_identifier iq = Some (fh_packet_identifier h)" "qos_of iq = po_qos options"
      "iq = (if po_qos options = AtLeastOnce then IdAtLeastOnce (fh_packet_identifier h)
             else IdExactlyOnce (fh_packet_identifier h))"
      using p' by (cases "po_qos options") (auto simp: chosen_qos_def)
    obtain q where q: "remaining_send_quota c = Some q" "q \<noteq> 0" using quota_ok [OF inv] p' False by blast
    obtain s' where s': "outbound_publish h (po_qos options) (po_ack_mode options) = Some (Inr (), s')"
      "local_update (cl_session c) (fh_packet_identifier h) (Some (fresh_local (po_qos options) (po_ack_mode options))) s'"
      using outbound_publish_ok [OF inv _ h(1) False] p' False unfolding publish_room_def by blast
    have fresh: "local_entry (cl_session c) (fh_packet_identifier h) = None"
      using get_free_handle_Some(3) [OF h(1)] by (auto simp: in_use_abs map_of_eq_None_iff)
    obtain r' where r': "send_packet tr (\<lambda>wr. publish_send wr p) (c\<lparr>cl_session := s'\<rparr>) = (Ok (), c\<lparr>cl_session := s', cl_raw := r'\<rparr>)"
      "conn_at bytes out room free inp (sent @ publish_bytes p) j l r'" using send [of "c\<lparr>cl_session := s'\<rparr>"] by auto
    have "po_qos options > AtMostOnce" using False by (cases "po_qos options") (simp_all add: less_qos_def)
    then have "client_publish tr options message c = (Ok (packet_identifier iq), c\<lparr>cl_session := s', cl_raw := r'\<rparr>)"
      using False p' sup size h q s'(1) r'(1)
      by (cases "po_qos options")
         (auto simp: client_publish_def assert_user_properties_def asserts_def ensure_def gets_def ret_def on_session_def)
    then show ?thesis using r'(2) s'(2) h(2,3) fresh by (auto simp: published_in_def)
  qed
qed

section \<open>Receiving what was published\<close>

text \<open>What the receiver of a new message sends back.\<close>

fun receipt :: "identified_qos \<Rightarrow> ack_mode \<Rightarrow> u8 list" where
  "receipt (IdAtLeastOnce i) Automatic = puback_bytes Ack (puback_minimal i RcSuccess)"
| "receipt (IdExactlyOnce i) Automatic = puback_bytes Rec (puback_minimal i RcSuccess)"
| "receipt _ _ = []"

definition takes_new :: "session \<Rightarrow> identified_qos \<Rightarrow> bool" where
  "takes_new s iq \<longleftrightarrow> (case packet_identifier iq of
      None \<Rightarrow> True | Some i \<Rightarrow> peer_entry s i = None \<and> inbound_room s \<and> pid_valid i)"

lemma inbound_publish_new:
  assumes "session_inv s" and "takes_new s iq"
  shows "\<exists>a s'. inbound_publish s iq m = Some ((a, SmPublish), s') \<and> answer_bytes iq a = Some (receipt iq m)
    \<and> (\<forall>rc. a = Acknowledge rc \<or> a = Receive rc \<longrightarrow> rc = RcSuccess)"
proof (cases "packet_identifier iq")
  case None
  then show ?thesis by (cases iq) (auto simp: inbound_publish_def)
next
  case (Some i)
  note r = vector_removal.inbound_publish_refines [OF vector_removal.intro [OF last_takes_place_ok] assms(1) Some]
  show ?thesis using r [of m] assms(2) Some
    by (cases iq; cases m) (auto simp: takes_new_def peer_publish_def)
qed

lemma arrives:
  assumes "connection tr out room bytes pb free" and "session_inv (cl_session c)"
    and "accepts_publish c t p" and "takes_new (cl_session c) (pu_identified_qos p)"
    and "m = chosen_mode c (publish_event_of Automatic t p)"
    and "conn_at bytes out room free (publish_bytes p @ rest) sent (length (receipt (pu_identified_qos p) m) + j)
        (publish_memory p + l) (cl_raw c)"
  shows "\<exists>s' r'. poll sr tr pb c = (Ok (EvPublish (publish_event_of m t p)), c\<lparr>cl_session := s', cl_raw := r'\<rparr>)
    \<and> conn_at bytes out room free rest (sent @ receipt (pu_identified_qos p) m) j l r'"
proof -
  obtain a s' where "inbound_publish (cl_session c) (pu_identified_qos p) m = Some ((a, SmPublish), s')"
    "answer_bytes (pu_identified_qos p) a = Some (receipt (pu_identified_qos p) m)"
    "\<And>rc. a = Acknowledge rc \<or> a = Receive rc \<Longrightarrow> rc = RcSuccess"
    using inbound_publish_new [OF assms(2,4)] by blast
  then show ?thesis
    using publish_poll [OF assms(1,3,6), of a SmPublish s' "EvPublish (publish_event_of m t p)" sr] assms(5) by auto
qed

text \<open>C4: A message arrives as it was published. When \<open>publish\<close> finds its conditions met (the options are
  supported by the server, an identifier is free and the quota leaves room, the packet is within the
  server's limit) and the connection works, it succeeds and has written the PUBLISH packet; and a client that
  is sent those bytes, with a free entry for the identifier, returns from \<open>poll\<close> a message whose topic,
  payload, Quality of Service, identifier, retain flag and properties are those that the sender
  gave, and answers with the PUBACK or PUBREC that the Quality of Service asks for. This holds for
  all transports and buffer providers that keep their contracts, on either side.\<close>

theorem message_arrives:
  assumes "connection tr out room bytes pb free" and "connection tr' out' room' bytes' pb' free'"
    and "session_inv (cl_session a)" and "session_inv (cl_session b)"
    and "publishable a options message iq p" and "po_topic options = TrName t"
    and "conn_at bytes out room free inp sent (length (publish_bytes p) + j) l (cl_raw a)"
    and "accepts_publish b t p" and "takes_new (cl_session b) iq"
    and "m = chosen_mode b (publish_event_of Automatic t p)"
    and "conn_at bytes' out' room' free' (publish_bytes p @ rest) sent' (length (receipt iq m) + j')
        (publish_memory p + l') (cl_raw b)"
  shows "\<exists>a' e b'. client_publish tr options message a = (Ok (packet_identifier iq), a')
    \<and> conn_at bytes out room free inp (sent @ publish_bytes p) j l (cl_raw a')
    \<and> published_in (cl_session a) iq (po_ack_mode options) (cl_session a')
    \<and> poll sr tr' pb' b = (Ok (EvPublish e), b')
    \<and> conn_at bytes' out' room' free' rest (sent' @ receipt iq m) j' l' (cl_raw b')
    \<and> pe_topic e = t \<and> pe_message e = message \<and> pe_identified_qos e = iq \<and> qos_of iq = po_qos options
    \<and> pe_retain e = po_retain options \<and> \<not> pe_dup e
    \<and> pe_payload_format_indicator e = po_payload_format_indicator options
    \<and> pe_message_expiry_interval e = po_message_expiry_interval options
    \<and> pe_response_topic e = po_response_topic options
    \<and> pe_correlation_data e = po_correlation_data options
    \<and> pe_user_properties e = po_user_properties options
    \<and> pe_content_type e = po_content_type options"
proof -
  have p: "publish_packet_of False iq options message = Some p" "chosen_qos (cl_session a) (po_qos options) = Some iq"
    using assms(5) by (auto simp: publishable_def)
  have iq: "pu_identified_qos p = iq" using p(1) by (auto simp: publish_packet_of_def publish_new_def Let_def)
  obtain s' r' where a': "client_publish tr options message a = (Ok (packet_identifier iq), a\<lparr>cl_session := s', cl_raw := r'\<rparr>)"
    "published_in (cl_session a) iq (po_ack_mode options) s'"
    "conn_at bytes out room free inp (sent @ publish_bytes p) j l r'"
    using publish_at [OF assms(1,3,5,7)] by blast
  obtain s'' r'' where b': "poll sr tr' pb' b = (Ok (EvPublish (publish_event_of m t p)), b\<lparr>cl_session := s'', cl_raw := r''\<rparr>)"
    "conn_at bytes' out' room' free' rest (sent' @ receipt iq m) j' l' r''"
    using arrives [OF assms(2,4,8) _ assms(10), of rest sent' j' l' sr] assms(9,11) iq by auto
  have "qos_of iq = po_qos options" using p(2) by (cases "po_qos options") (auto simp: chosen_qos_def)
  then show ?thesis
    using a' b' p(1) by (intro exI [of _ "a\<lparr>cl_session := s', cl_raw := r'\<rparr>"] exI [of _ "publish_event_of m t p"]
        exI [of _ "b\<lparr>cl_session := s'', cl_raw := r''\<rparr>"])
      (auto simp: publish_packet_of_def publish_new_def Let_def publish_event_of_def)
qed

definition memo_options :: publication_options where
  "memo_options = publication_options_exactly_once (publication_options_new (TrName [0x61]))"

lemmas memo_options_simps = memo_options_def publication_options_exactly_once_def publication_options_qos_def
  publication_options_new_def

lemma memo_packet: "publish_packet_of False (IdExactlyOnce 1) memo_options [1] = Some (memo (IdExactlyOnce 1))"
proof -
  have "length (publish_body_bytes (memo (IdExactlyOnce 1))) \<le> 268435455" by (simp add: memo_body)
  from publish_lengths(2) [OF this] show ?thesis
    by (simp add: publish_packet_of_def publish_new_def memo_options_simps memo_def Let_def)
qed

lemma memo_length: "length (publish_bytes (memo (IdExactlyOnce i))) = 9"
  by (simp add: publish_bytes_def fixed_header_bytes_def publish_header_def fixed_header_new_def memo_body
      vbi_bytes.simps)

lemma memo_publishable: "publishable (slice_client inp k) memo_options [1] (IdExactlyOnce 1) (memo (IdExactlyOnce 1))"
proof -
  have "get_free_handle (session_default 1 2 2) = Some \<lparr>fh_session = session_default 1 2 2, fh_packet_identifier = 1\<rparr>"
    by code_simp
  then have "chosen_qos (session_default 1 2 2) ExactlyOnce = Some (IdExactlyOnce 1)" by (simp add: chosen_qos_def)
  then show ?thesis
    using memo_packet
    by (simp add: publishable_def memo_ok memo_length pid_valid_def)
       (simp add: memo_options_simps supported_def slice_client_def idle_client_def
        server_config_default_def maximum_packet_size_as_u32_def publish_room_def outbound_room_def
        session_default_def)
qed

theorem message_arrives_witness:
  "let p = memo (IdExactlyOnce 1); a = slice_client [] 9; b = slice_client (publish_bytes p @ []) 6 in
   \<exists>a' e b'. client_publish slice_connection memo_options [1] a = (Ok (packet_identifier (IdExactlyOnce 1)), a')
    \<and> slice_conn_at [] ([] @ publish_bytes p) 0 0 (cl_raw a')
    \<and> published_in (cl_session a) (IdExactlyOnce 1) (po_ack_mode memo_options) (cl_session a')
    \<and> slice_poll b = (Ok (EvPublish e), b')
    \<and> slice_conn_at [] ([] @ receipt (IdExactlyOnce 1) Automatic) 0 0 (cl_raw b')
    \<and> pe_topic e = [0x61] \<and> pe_message e = [1] \<and> pe_identified_qos e = IdExactlyOnce 1
    \<and> qos_of (IdExactlyOnce 1) = po_qos memo_options"
proof -
  let ?p = "memo (IdExactlyOnce 1)" and ?a = "slice_client [] 9"
  let ?b = "slice_client (publish_bytes ?p @ []) 6"
  have inv: "session_inv (cl_session (slice_client inp k))" and new: "takes_new (cl_session (slice_client inp k)) (IdExactlyOnce 1)" for inp k
    by (simp_all add: session_inv_def session_default_def takes_new_def inbound_room_def pid_valid_def)
  have t: "po_topic memo_options = TrName [0x61]" by (simp add: memo_options_simps)
  have v: "pid_valid 1" by (simp add: pid_valid_def)
  have m: "Automatic = chosen_mode ?b (publish_event_of Automatic [0x61] ?p)" by (simp add: chosen_mode_def)
  have ata: "slice_conn_at [] [] (length (publish_bytes ?p) + 0) 0 (cl_raw ?a)"
    by (rule slice_client_at) (simp add: memo_length)
  have atb: "slice_conn_at (publish_bytes ?p @ []) [] (length (receipt (IdExactlyOnce 1) Automatic) + 0)
      (publish_memory ?p + 0) (cl_raw ?b)"
    by (rule slice_client_at) simp
  show ?thesis
    using message_arrives [OF slice_contract slice_contract inv inv memo_publishable t ata slice_client_accepts_memo [OF v] new m atb,
        of last_takes_place]
    unfolding Let_def by blast
qed

end
