(* ===== verification/Mqtt_Call_Effects.thy ===== *)
theory Mqtt_Call_Effects
  imports Mqtt_Received Mqtt_Delivery
begin

text \<open>
  The client and its session. Every call of the client, however it ends, takes the session through a
  history of operations of \<open>Mqtt_Session_Runs\<close>, and what it returns to the user tells what those
  operations were. So the delivery guarantees of the session become guarantees about the calls that
  a user makes and the events that they return.
\<close>

section \<open>Computations and the session\<close>

text \<open>\<open>silent\<close>: the session is not touched; \<open>ends_in\<close>: every result has the property.\<close>

definition silent :: "(('n, 'b) client, 'x, 'a) comp \<Rightarrow> bool" where
  "silent m \<longleftrightarrow> (\<forall>c x c'. m c = (x, c') \<longrightarrow> cl_session c' = cl_session c)"

definition ends_in :: "(('x, 'a) res \<Rightarrow> bool) \<Rightarrow> ('s, 'x, 'a) comp \<Rightarrow> bool" where
  "ends_in P m \<longleftrightarrow> (\<forall>s x s'. m s = (x, s') \<longrightarrow> P x)"

text \<open>\<open>effect\<close>: from a well-formed session that satisfies \<open>P\<close>, the computation takes the session through
  a history that, together with the result, satisfies \<open>Q\<close>.\<close>

definition effect ::
    "remover \<Rightarrow> (session \<Rightarrow> bool) \<Rightarrow> (sess_ev list \<Rightarrow> ('x, 'a) res \<Rightarrow> bool)
     \<Rightarrow> (('n, 'b) client, 'x, 'a) comp \<Rightarrow> bool" where
  "effect sr P Q m \<longleftrightarrow> (\<forall>c x c'. session_inv (cl_session c) \<longrightarrow> P (cl_session c) \<longrightarrow> m c = (x, c') \<longrightarrow>
     (\<exists>evs. sess_run sr (cl_session c) evs (cl_session c') \<and> Q evs x))"

named_theorems silent_rules

lemma silent_bnd [silent_rules]: "silent m \<Longrightarrow> (\<And>a. silent (f a)) \<Longrightarrow> silent (bnd m f)"
  unfolding silent_def bnd_def by (auto split: prod.splits res.splits)

lemma silent_basic [silent_rules]:
  "silent (ret a)" "silent (fail e)" "silent crash" "silent (gets g)" "silent (asserts b)"
  "silent (ensure b e)" "silent (ok_or e v)" "silent (close ro)" "silent (reject rc e)"
  by (auto simp: silent_def run_defs ok_or_def close_def reject_def bnd_def split: option.splits if_splits)

lemma silent_on_raw [silent_rules]: "silent (on_raw m)"
  by (auto simp: silent_def on_raw_session)

lemma silent_unwrap [silent_rules]: "(\<And>v. silent (f v)) \<Longrightarrow> silent (unwrap y f)"
  by (cases y) (simp_all add: unwrap_def silent_basic)

lemma silent_if [silent_rules]: "silent m \<Longrightarrow> silent m' \<Longrightarrow> silent (if b then m else m')"
  by simp

lemma silent_modify [silent_rules]:
  "silent (modify (\<lambda>c. c\<lparr>cl_client_config := f c\<rparr>))"
  "silent (modify (\<lambda>c. c\<lparr>cl_shared_config := g c, cl_server_config := h c\<rparr>))"
  by (auto simp: silent_def modify_def)

lemma silent_steps [silent_rules]:
  "silent (send_only tr s)" "silent (flush tr)" "silent (send_packet tr s)" "silent (respond tr k p rc)"
  "silent (receive_header tr)" "silent (check_size l)" "silent (assert_user_properties us)"
  "silent (check_supported options)" "silent (refused r)" "silent (check_problem_information t us)"
  unfolding send_packet_def send_only_def flush_def respond_def receive_header_def check_size_def
    assert_user_properties_def check_supported_def refused_def check_problem_information_def
  by (auto intro!: silent_rules split: sum.split sm_error.split)

lemma silent_receive_ack [silent_rules]: "silent (receive_ack tr pb k h)"
  unfolding receive_ack_def by (intro silent_rules)

lemma silent_poll_header [silent_rules]: "silent (poll_header tr)"
  unfolding poll_header_def by (intro silent_rules)

lemma silent_abort [silent_rules]: "silent (client_abort tr)"
  by (auto simp: silent_def client_abort_def split: prod.splits res.splits)

lemma ends_in_bnd:
  assumes "ends_in (\<lambda>x. case x of Ok _ \<Rightarrow> True | Err e \<Rightarrow> P (Err e) | Panic \<Rightarrow> P Panic) m"
    and "\<And>a. ends_in P (f a)"
  shows "ends_in P (bnd m f)"
  unfolding ends_in_def
proof (intro allI impI)
  fix s x s'
  assume "bnd m f s = (x, s')"
  moreover obtain y s1 where "m s = (y, s1)" by fastforce
  ultimately show "P x" using assms unfolding ends_in_def by (cases y) fastforce+
qed

lemma ends_in_basic:
  "ends_in P (ret a) \<longleftrightarrow> P (Ok a)" "ends_in P (fail e) \<longleftrightarrow> P (Err e)" "ends_in P crash \<longleftrightarrow> P Panic"
  by (auto simp: ends_in_def run_defs)

lemma ends_in_close: "ends_in P (close rc) \<longleftrightarrow> P (Ok ())"
  by (auto simp: ends_in_def run_defs close_def)

lemma ends_in_reject: "ends_in P (reject rc e) \<longleftrightarrow> P (Err e)"
  by (auto simp: ends_in_def run_defs reject_def close_def bnd_def)

lemma ends_in_weaken: "ends_in P m \<Longrightarrow> (\<And>x. P x \<Longrightarrow> Q x) \<Longrightarrow> ends_in Q m"
  by (auto simp: ends_in_def)

lemma ends_in_unwrap: "P Panic \<Longrightarrow> (\<And>a. v = Some a \<Longrightarrow> ends_in P (f a)) \<Longrightarrow> ends_in P (unwrap v f)"
  by (cases v) (auto simp: unwrap_def ends_in_basic)

lemma effect_weaken: "effect sr P Q m \<Longrightarrow> (\<And>evs x. Q evs x \<Longrightarrow> Q' evs x) \<Longrightarrow> effect sr P Q' m"
  unfolding effect_def by blast

lemma effect_silent: "silent m \<Longrightarrow> ends_in (Q []) m \<Longrightarrow> effect sr P Q m"
  unfolding effect_def silent_def ends_in_def by (metis run_nil)

lemma effect_bnd_when:
  assumes "silent m" and "\<And>e. Q [] (Err e)" and "Q [] Panic" and "gives R m" and "\<And>a. R a \<Longrightarrow> effect sr P Q (f a)"
  shows "effect sr P Q (bnd m f)"
  unfolding effect_def
proof (intro allI impI)
  fix c x c'
  assume s: "session_inv (cl_session c)" "P (cl_session c)" and run: "bnd m f c = (x, c')"
  obtain y c1 where y: "m c = (y, c1)" by fastforce
  then have "cl_session c1 = cl_session c" using assms(1) by (auto simp: silent_def)
  then show "\<exists>evs. sess_run sr (cl_session c) evs (cl_session c') \<and> Q evs x"
  proof (cases y)
    case (Ok a)
    then have "R a" "f a c1 = (x, c')" using givesD [OF assms(4)] y run by auto
    then show ?thesis using assms(5) [of a] s \<open>cl_session c1 = cl_session c\<close> unfolding effect_def by metis
  qed (use y run assms(2,3) \<open>cl_session c1 = cl_session c\<close> in \<open>auto intro!: exI [of _ "[]"] run_nil\<close>)
qed

lemmas effect_bnd_silent = effect_bnd_when [OF _ _ _ gives_any, simplified]

text \<open>The effect at one client, where a continuation depends on what was read before.\<close>

definition effect_at ::
    "remover \<Rightarrow> (sess_ev list \<Rightarrow> ('x, 'a) res \<Rightarrow> bool) \<Rightarrow> (('n, 'b) client, 'x, 'a) comp
     \<Rightarrow> ('n, 'b) client \<Rightarrow> bool" where
  "effect_at sr Q m c \<longleftrightarrow> (session_inv (cl_session c) \<longrightarrow> (\<forall>x c'. m c = (x, c') \<longrightarrow>
     (\<exists>evs. sess_run sr (cl_session c) evs (cl_session c') \<and> Q evs x)))"

lemma effect_atI: "effect sr (\<lambda>_. True) Q m \<Longrightarrow> effect_at sr Q m c"
  by (auto simp: effect_def effect_at_def)

lemma effect_at_bnd:
  assumes "silent m" and "\<And>e. Q [] (Err e)" and "Q [] Panic"
    and "\<And>a c1. m c = (Ok a, c1) \<Longrightarrow> effect_at sr Q (f a) c1"
  shows "effect_at sr Q (bnd m f) c"
proof -
  obtain y c1 where y: "m c = (y, c1)" by fastforce
  then have "cl_session c1 = cl_session c" using assms(1) by (auto simp: silent_def)
  then show ?thesis
    using assms(2-4) y unfolding effect_at_def
    by (cases y) (auto simp: bnd_def intro!: exI [of _ "[]"] run_nil)
qed

lemma effect_gets:
  assumes "\<And>v. effect sr (\<lambda>s. P s \<and> g s = v) Q (f v)"
  shows "effect sr P Q (bnd (gets (\<lambda>c. g (cl_session c))) f)"
  using assms unfolding effect_def by (auto simp: bnd_def gets_def)

lemma effect_session:
  assumes "\<And>s a s'. session_inv s \<Longrightarrow> P s \<Longrightarrow> f s = Some (a, s') \<Longrightarrow> op_ok op \<and> exec_op sr s op = Some (out a, s')"
    and "Q [] Panic" and "\<And>a. silent (g a)"
    and "\<And>s a s'. session_inv s \<Longrightarrow> P s \<Longrightarrow> f s = Some (a, s') \<Longrightarrow> ends_in (Q [(op, out a)]) (g a)"
  shows "effect sr P Q (bnd (on_session f) g)"
  unfolding effect_def
proof (intro allI impI)
  fix c x c'
  assume s: "session_inv (cl_session c)" "P (cl_session c)" and run: "bnd (on_session f) g c = (x, c')"
  show "\<exists>evs. sess_run sr (cl_session c) evs (cl_session c') \<and> Q evs x"
  proof (cases "f (cl_session c)")
    case None
    then show ?thesis using run assms(2) by (auto simp: bnd_def on_session_def intro!: exI [of _ "[]"] run_nil)
  next
    case (Some v)
    obtain a s' where v: "v = (a, s')" by fastforce
    have e: "op_ok op" "exec_op sr (cl_session c) op = Some (out a, s')" using assms(1) [OF s] Some v by auto
    have run': "g a (c\<lparr>cl_session := s'\<rparr>) = (x, c')" using run Some v by (auto simp: bnd_def on_session_def)
    then have "cl_session c' = s'" using assms(3) [of a] unfolding silent_def by fastforce
    moreover have "Q [(op, out a)] x" using assms(4) [OF s] Some v run' by (auto simp: ends_in_def)
    ultimately show ?thesis using e by (intro exI [of _ "[(op, out a)]"]) (auto intro: run_cons run_nil)
  qed
qed

lemma effect_if: "(b \<Longrightarrow> effect sr P Q m) \<Longrightarrow> (\<not> b \<Longrightarrow> effect sr P Q m') \<Longrightarrow> effect sr P Q (if b then m else m')"
  by simp

lemma bnd_unwrap: "bnd (unwrap y f) g = unwrap y (\<lambda>v. bnd (f v) g)"
  by (cases y) (simp_all add: unwrap_def)

lemma effect_unwrap: "Q [] Panic \<Longrightarrow> (\<And>v. effect sr P Q (f v)) \<Longrightarrow> effect sr P Q (unwrap y f)"
  by (cases y) (auto simp: unwrap_def intro!: effect_silent silent_rules simp: ends_in_basic)

lemma effect_answers:
  assumes "effect sr P (\<lambda>evs x. Q evs (map_res id f x)) m"
  shows "effect sr P Q (answers f m)"
  unfolding effect_def
proof (intro allI impI)
  fix c x c'
  assume s: "session_inv (cl_session c)" "P (cl_session c)" and run: "answers f m c = (x, c')"
  obtain y c1 where y: "m c = (y, c1)" by fastforce
  then have "x = map_res id f y" "c' = c1" using run by (cases y; auto simp: bnd_def ret_def)+
  then show "\<exists>evs. sess_run sr (cl_session c) evs (cl_session c') \<and> Q evs x"
    using assms s y unfolding effect_def by blast
qed

lemma effect_at_answers: "effect_at sr (\<lambda>evs x. Q evs (map_res id f x)) m c \<Longrightarrow> effect_at sr Q (answers f m) c"
  unfolding effect_at_def by (auto simp: bnd_def ret_def split: prod.splits res.splits)

lemma effect_ok_or:
  "Q [] (Err e) \<Longrightarrow> (\<And>a. v = Some a \<Longrightarrow> effect sr P Q (f a)) \<Longrightarrow> effect sr P Q (bnd (ok_or e v) f)"
  by (cases v) (auto simp: ends_in_basic intro!: effect_silent silent_rules)

section \<open>What a call tells about the session\<close>

text \<open>The connection was lost under a call, after the session had been changed.\<close>

definition lost :: "('k mqtt_error, 'a) res \<Rightarrow> bool" where
  "lost x \<longleftrightarrow> x = Panic \<or> x = Err MeRecoveryRequired \<or> (\<exists>k. x = Err (MeNetwork k))"

fun event_ends_inbound :: "pid \<Rightarrow> event \<Rightarrow> bool" where
  "event_ends_inbound p (EvPublishReleased e) = (ae_packet_identifier e = p)"
| "event_ends_inbound p (EvPublishAborted e) = (re_packet_identifier e = p)"
| "event_ends_inbound p _ = False"

fun event_ends_outbound :: "pid \<Rightarrow> event \<Rightarrow> bool" where
  "event_ends_outbound p (EvPublishAcknowledged e) = (ae_packet_identifier e = p)"
| "event_ends_outbound p (EvPublishComplete e) = (ae_packet_identifier e = p)"
| "event_ends_outbound p (EvPublishRejected e) = (re_packet_identifier e = p)"
| "event_ends_outbound p _ = False"

definition event_such :: "(event \<Rightarrow> bool) \<Rightarrow> bool \<Rightarrow> ('k mqtt_error, answer) res \<Rightarrow> bool" where
  "event_such P b x \<longleftrightarrow> (\<exists>e. x = Ok (AEvent e) \<and> P e) \<or> b \<and> lost x"

definition clean_session :: "('k mqtt_error, answer) res \<Rightarrow> bool" where
  "clean_session x \<longleftrightarrow> (\<exists>cn. x = Ok (AConnected cn) \<and> \<not> cn_session_present cn)"

text \<open>
  The identifier of the acknowledgement packet of a given kind that a call took from the connection,
  if it took one: \<open>poll_body\<close> reads the packet that its header announces, \<open>poll\<close> the header first.
\<close>

definition body_took ::
    "('n, 'e, 'k) transport \<Rightarrow> (nat \<Rightarrow> ('b, 'p, 'm) comp) \<Rightarrow> fixed_header \<Rightarrow> ('n, 'b) client
     \<Rightarrow> puback_kind \<Rightarrow> pid option" where
  "body_took tr pb h c kind =
     (if header_packet_type h = Some (pk_packet_type kind)
      then case fst (receive_ack tr pb kind h c) of Ok q \<Rightarrow> Some (pa_packet_identifier q) | _ \<Rightarrow> None
      else None)"

fun took ::
    "('n, 'e, 'k) transport \<Rightarrow> (nat \<Rightarrow> ('b, 'p, 'm) comp) \<Rightarrow> 'n call \<Rightarrow> ('n, 'b) client
     \<Rightarrow> puback_kind \<Rightarrow> pid option" where
  "took tr pb (CPollBody h) c = body_took tr pb h c"
| "took tr pb CPoll c = (case poll_header tr c of (Ok h, c1) \<Rightarrow> body_took tr pb h c1 | _ \<Rightarrow> Map.empty)"
| "took tr pb _ c = Map.empty"

text \<open>
  The calls after which the handshake of an incoming message, or of an outgoing one, can be over:
  those that establish a new session, those that send the last packet of the handshake, and those
  that return the event for the packet of the server that ends it. A call under which the connection
  was lost counts only if it was about that handshake: the user asked to end it, or the call had taken
  (\<open>got\<close>) the packet that ends it from the connection.
\<close>

fun call_ends_inbound ::
    "(puback_kind \<Rightarrow> pid option) \<Rightarrow> pid \<Rightarrow> 'n call \<Rightarrow> ('k mqtt_error, answer) res \<Rightarrow> bool" where
  "call_ends_inbound got p (CConnect _ _ _) x = clean_session x"
| "call_ends_inbound got p (CReceive q rc _) x = (q = p \<and> is_erroneous rc \<and> (x = Ok ADone \<or> lost x))"
| "call_ends_inbound got p (CComplete q _) x = (q = p \<and> (x = Ok ADone \<or> lost x))"
| "call_ends_inbound got p (CPollBody _) x = event_such (event_ends_inbound p) (got Rel = Some p) x"
| "call_ends_inbound got p CPoll x = event_such (event_ends_inbound p) (got Rel = Some p) x"
| "call_ends_inbound got p _ x = False"

fun call_ends_outbound ::
    "(puback_kind \<Rightarrow> pid option) \<Rightarrow> pid \<Rightarrow> 'n call \<Rightarrow> ('k mqtt_error, answer) res \<Rightarrow> bool" where
  "call_ends_outbound got p (CConnect _ _ _) x = clean_session x"
| "call_ends_outbound got p (CPollBody _) x
     = event_such (event_ends_outbound p) (Some p \<in> {got Ack, got Rec, got Comp}) x"
| "call_ends_outbound got p CPoll x
     = event_such (event_ends_outbound p) (Some p \<in> {got Ack, got Rec, got Comp}) x"
| "call_ends_outbound got p _ x = False"

definition call_delivers :: "pid \<Rightarrow> ('k mqtt_error, answer) res \<Rightarrow> bool" where
  "call_delivers p x \<longleftrightarrow> (\<exists>e. x = Ok (AEvent (EvPublish e)) \<and> pe_identified_qos e = IdExactlyOnce p)"

definition call_publishes :: "pid \<Rightarrow> ('k mqtt_error, answer) res \<Rightarrow> bool" where
  "call_publishes p x \<longleftrightarrow> x = Ok (APublished (Some p))"

definition call_allocates :: "pid \<Rightarrow> ('k mqtt_error, answer) res \<Rightarrow> bool" where
  "call_allocates p x \<longleftrightarrow> x = Ok (APid p) \<or> x = Ok (APublished (Some p))"

definition told ::
    "(puback_kind \<Rightarrow> pid option) \<Rightarrow> 'n call \<Rightarrow> sess_ev list \<Rightarrow> ('k mqtt_error, answer) res \<Rightarrow> bool" where
  "told got k evs x \<longleftrightarrow>
     (\<forall>p. (\<exists>e \<in> set evs. ends_inbound p e) \<longrightarrow> call_ends_inbound got p k x)
   \<and> (\<forall>p. (\<exists>e \<in> set evs. ends_outbound p e) \<longrightarrow> call_ends_outbound got p k x)
   \<and> (\<forall>p. call_delivers p x \<longrightarrow> (\<exists>e. evs = [e] \<and> delivers2 p e))
   \<and> (\<forall>p. call_publishes p x \<longrightarrow> (\<exists>e. evs = [e] \<and> publishes p e))
   \<and> (\<forall>p. call_allocates p x \<longrightarrow> (\<exists>e. evs = [e] \<and> allocates p e))"

lemmas told_defs = told_def call_delivers_def call_publishes_def call_allocates_def

lemma told_Nil [simp]: "told got k [] (Err e)" "told got k [] Panic"
  "told got k [] (map_res id f (Err e))" "told got k [] (map_res id f Panic)"
  "told got k [] (map_res id (\<lambda>_. ADone) x)" "told got k [] (map_res id AConnected y)" "told got k [] (map_res id AHeader z)"
  by (cases x; cases y; cases z; simp add: told_defs)+

lemma told_plain:
  assumes "\<And>p. \<not> ends_inbound p e" and "\<And>p. \<not> ends_outbound p e"
  shows "told got k [e] (map_res id (\<lambda>_. ADone) x)"
  using assms by (cases x) (simp_all add: told_defs)

lemma ends_in_sends:
  "ends_in (\<lambda>x. x = Ok () \<or> lost x) (on_raw (raw_send tr s))"
  "ends_in (\<lambda>x. x = Ok () \<or> lost x) (on_raw (raw_flush tr))"
  by (auto simp: ends_in_def on_raw_def raw_send_def raw_flush_def with_net_def handle_tx_def Let_def lost_def
      split: prod.splits res.splits sum.splits raw_error.splits)

lemma ends_in_send_packet:
  "ends_in (\<lambda>x. x = Ok () \<or> lost x) (send_packet tr s)" "ends_in (\<lambda>x. x = Ok () \<or> lost x) (respond tr k p rc)"
  unfolding respond_def send_packet_def send_only_def flush_def
  by (intro ends_in_bnd ends_in_sends ends_in_weaken [OF ends_in_sends(1)]; auto simp: lost_def split: res.split)+

text \<open>The calls that only ask the session and then send.\<close>

lemmas effect_intros = effect_answers effect_gets effect_ok_or effect_bnd_silent effect_unwrap silent_rules

lemma effect_silent_call: "silent m \<Longrightarrow> effect sr P (told got k) (answers (\<lambda>_. ADone) m)"
  by (intro effect_answers effect_silent) (simp_all add: ends_in_def)

lemma effect_request:
  fixes tr :: "('n, 'e, 'k) transport"
  assumes "\<And>s r s'. f s = Some (r, s') \<Longrightarrow> exec_op sr s op = Some (OutUser r, s')" and "op_ok op"
    and "\<And>p. \<not> ends_outbound p (op, OutUser (Inr ()))"
    and "\<And>p r. ends_outbound p (op, OutUser (Inl r)) = False" "\<And>p r. ends_inbound p (op, OutUser (Inl r)) = False"
    and "\<And>p (x :: ('k mqtt_error, answer) res). ends_inbound p (op, OutUser (Inr ())) \<Longrightarrow> x = Ok ADone \<or> lost x
       \<Longrightarrow> call_ends_inbound got p k x"
  shows "effect sr P (\<lambda>evs x. told got k evs (map_res id (\<lambda>_. ADone) x))
     (bnd (on_session f) (\<lambda>x. thn (refused x) (send_packet tr packet)))"
proof (rule effect_session [where out = OutUser and op = op])
  show "op_ok op \<and> exec_op sr s op = Some (OutUser a, s')" if "f s = Some (a, s')" for s a s'
    using assms(1,2) that by blast
  show "ends_in (\<lambda>x. told got k [(op, OutUser a)] (map_res id (\<lambda>_. ADone) x)) (thn (refused a) (send_packet tr packet))" for a
  proof (cases a)
    case (Inl e)
    then show ?thesis using assms(4,5) by (auto simp: ends_in_def intro!: told_plain)
  next
    case (Inr u)
    have "told got k [(op, OutUser (Inr ()))] (map_res id (\<lambda>_. ADone) x)" if "x = Ok () \<or> lost x"
      for x :: "('k mqtt_error, unit) res"
      using that assms(3,6) by (auto simp: told_defs lost_def)
    then show ?thesis using Inr by (auto simp: refused_def intro: ends_in_weaken [OF ends_in_send_packet(1)])
  qed
qed (simp_all add: silent_rules)

lemma effect_acks:
  "effect sr P (told got (CAcknowledge p rc ao)) (exec_call sr tr pb (CAcknowledge p rc ao))"
  "effect sr P (told got (CReceive p rc ao)) (exec_call sr tr pb (CReceive p rc ao))"
  "effect sr P (told got (CRelease p ao)) (exec_call sr tr pb (CRelease p ao))"
  "effect sr P (told got (CComplete p ao)) (exec_call sr tr pb (CComplete p ao))"
proof -
  note defs = manual_acknowledge_def manual_receive_def manual_release_def
    manual_complete_def Let_def bnd_assoc
  show "effect sr P (told got (CAcknowledge p rc ao)) (exec_call sr tr pb (CAcknowledge p rc ao))"
    unfolding exec_call_def call.case
    by (rule effect_answers, unfold defs, (rule effect_request [where op = "OpPuback p"] | rule effect_bnd_silent | rule silent_rules | simp add: exec_op_def)+)
  show "effect sr P (told got (CReceive p rc ao)) (exec_call sr tr pb (CReceive p rc ao))"
    unfolding exec_call_def call.case
    by (rule effect_answers, unfold defs, (rule effect_request [where op = "OpPubrec p rc"] | rule effect_bnd_silent | rule silent_rules | simp add: exec_op_def)+)
  show "effect sr P (told got (CRelease p ao)) (exec_call sr tr pb (CRelease p ao))"
    unfolding exec_call_def call.case
    by (rule effect_answers, unfold defs, (rule effect_request [where op = "OpPubrel p"] | rule effect_bnd_silent | rule silent_rules | simp add: exec_op_def)+)
  show "effect sr P (told got (CComplete p ao)) (exec_call sr tr pb (CComplete p ao))"
    unfolding exec_call_def call.case
    by (rule effect_answers, unfold defs, (rule effect_request [where op = "OpPubcomp p"] | rule effect_bnd_silent | rule silent_rules | simp add: exec_op_def)+)
qed

lemma effect_republish: "effect sr P (told got (CRepublish p po m)) (exec_call sr tr pb (CRepublish p po m))"
proof (cases "po_qos po")
  case AtMostOnce
  then show ?thesis
    unfolding exec_call_def call.case
    by (intro effect_silent_call) (simp add: client_republish_def asserts_def silent_rules)
next
  case AtLeastOnce
  show ?thesis
    unfolding exec_call_def call.case
    by (rule effect_answers, unfold client_republish_def AtLeastOnce qos.case bnd_assoc bnd_ret,
        (rule effect_request [where op = "OpRepublish (IdAtLeastOnce p)"] | rule effect_ok_or
         | rule effect_bnd_silent | rule silent_rules | simp add: exec_op_def)+)
next
  case ExactlyOnce
  show ?thesis
    unfolding exec_call_def call.case
    by (rule effect_answers, unfold client_republish_def ExactlyOnce qos.case bnd_assoc bnd_ret,
        (rule effect_request [where op = "OpRepublish (IdExactlyOnce p)"] | rule effect_ok_or
         | rule effect_bnd_silent | rule silent_rules | simp add: exec_op_def)+)
qed

section \<open>Calls that allocate an identifier\<close>

definition alloc_out :: "pid \<Rightarrow> sm_error + unit \<Rightarrow> sess_out" where
  "alloc_out p r = (case r of Inl _ \<Rightarrow> OutNoCapacity | Inr _ \<Rightarrow> OutPid p)"

lemma allocate_Some:
  "get_free_handle s = Some h \<Longrightarrow> f h = Some (r, s') \<Longrightarrow> allocate s f = Some (alloc_out (fh_packet_identifier h) r, s')"
  by (auto simp: allocate_def alloc_out_def)

lemma told_pid:
  "(\<And>q. \<not> ends_inbound q (op, OutPid p)) \<Longrightarrow> (\<And>q. \<not> ends_outbound q (op, OutPid p)) \<Longrightarrow> (\<And>a. x = Ok a \<Longrightarrow> a = p)
   \<Longrightarrow> told got k [(op, OutPid p)] (map_res id APid x)"
  by (cases x) (auto simp: told_defs allocates_def)

lemma effect_allocate:
  assumes "op = OpSub \<and> f = outbound_sub \<or> op = OpUnsub \<and> f = outbound_unsub"
    and "v = Some h" and "silent rest" and "gives ((=) (fh_packet_identifier h)) rest"
  shows "effect sr (\<lambda>s. P s \<and> get_free_handle s = v) (\<lambda>evs x. told got k evs (map_res id APid x))
     (bnd (on_session (\<lambda>_. Some (f h))) (\<lambda>x. thn (ensure (x = Inr ()) e) rest))"
proof (rule effect_session [where out = "alloc_out (fh_packet_identifier h)" and op = op])
  show "op_ok op \<and> exec_op sr s op = Some (alloc_out (fh_packet_identifier h) a, s')"
    if "P s \<and> get_free_handle s = v" "Some (f h) = Some (a, s')" for s a s'
    using assms(1,2) that allocate_Some [where f = "\<lambda>h. Some (f h)"] by (auto simp: exec_op_def)
  have no: "\<not> ends_inbound p (op, out)" "\<not> ends_outbound p (op, out)" for p out using assms(1) by auto
  show "ends_in (\<lambda>x. told got k [(op, alloc_out (fh_packet_identifier h) a)] (map_res id APid x))
      (thn (ensure (a = Inr ()) e) rest)" for a
  proof (cases a)
    case (Inl _)
    then show ?thesis by (simp add: ensure_def ends_in_basic told_defs no)
  next
    case (Inr _)
    then show ?thesis
      using assms(4) by (auto simp: ensure_def ends_in_def gives_def alloc_out_def no intro!: told_pid)
  qed
qed (use assms(3) in \<open>simp_all add: silent_rules\<close>)

lemma effect_subscribes:
  "effect sr P (told got (CSubscribe f so)) (exec_call sr tr pb (CSubscribe f so))"
  "effect sr P (told got (CUnsubscribe f uo)) (exec_call sr tr pb (CUnsubscribe f uo))"
proof -
  show "effect sr P (told got (CSubscribe f so)) (exec_call sr tr pb (CSubscribe f so))"
    unfolding exec_call_def call.case
    by (rule effect_answers, unfold client_subscribe_def Let_def,
        (rule effect_gets | rule effect_ok_or | rule effect_allocate [where op = OpSub]
         | rule effect_bnd_silent | rule silent_rules
         | rule gives_then gives_unwrap | simp add: gives_basic)+)
  show "effect sr P (told got (CUnsubscribe f uo)) (exec_call sr tr pb (CUnsubscribe f uo))"
    unfolding exec_call_def call.case
    by (rule effect_answers, unfold client_unsubscribe_def Let_def,
        (rule effect_gets | rule effect_ok_or | rule effect_allocate [where op = OpUnsub]
         | rule effect_bnd_silent | rule silent_rules
         | rule gives_then gives_unwrap | simp add: gives_basic)+)
qed

lemma effect_ensure:
  "Q [] (Err e) \<Longrightarrow> (b \<Longrightarrow> effect sr P Q m) \<Longrightarrow> effect sr P Q (thn (ensure b e) m)"
  by (cases b) (auto simp: ensure_def ends_in_basic intro!: effect_silent silent_rules)

lemma told_published:
  "(\<And>a. x = Ok a \<Longrightarrow> a = Some p) \<Longrightarrow> told got k [(OpPublish q mode, OutPid p)] (map_res id APublished x)"
  by (cases x) (auto simp: told_defs allocates_def publishes_def)

lemma effect_outbound_publish:
  assumes "v = Some h" and "op_ok (OpPublish q mode)" and "p = fh_packet_identifier h"
  shows "effect sr (\<lambda>s. P s \<and> get_free_handle s = v) (\<lambda>evs x. told got k evs (map_res id APublished x))
     (bnd (on_session (\<lambda>_. outbound_publish h q mode)) (\<lambda>x.
        bnd (case x of Inl NoCapacity \<Rightarrow> fail MeSessionBuffer | Inl _ \<Rightarrow> crash | Inr _ \<Rightarrow> ret ())
          (\<lambda>_. thn (send_packet tr packet) (ret (Some p)))))"
proof (rule effect_session [where out = "alloc_out p" and op = "OpPublish q mode"])
  show "op_ok (OpPublish q mode) \<and> exec_op sr s (OpPublish q mode) = Some (alloc_out p a, s')"
    if "P s \<and> get_free_handle s = v" "outbound_publish h q mode = Some (a, s')" for s a s'
    using assms that allocate_Some [where f = "\<lambda>h. outbound_publish h q mode"] by (auto simp: exec_op_def)
  have no: "told got k [(OpPublish q mode, out)] (Err e)"
    "told got k [(OpPublish q mode, out)] Panic" for out e
    by (auto simp: told_defs)
  have "ends_in (\<lambda>x. told got k [(OpPublish q mode, OutPid p)] (map_res id APublished x))
      (thn (send_packet tr packet) (ret (Some p)))"
    by (rule ends_in_bnd) (auto simp: ends_in_def ret_def told_defs publishes_def allocates_def split: res.split)
  then show "ends_in (\<lambda>x. told got k [(OpPublish q mode, alloc_out p a)] (map_res id APublished x))
      (bnd (case a of Inl NoCapacity \<Rightarrow> fail MeSessionBuffer | Inl _ \<Rightarrow> crash | Inr _ \<Rightarrow> ret ())
          (\<lambda>_. thn (send_packet tr packet) (ret (Some p))))" for a
    by (auto simp: ends_in_basic no alloc_out_def split: sum.split sm_error.split)
  show "silent (bnd (case a of Inl NoCapacity \<Rightarrow> fail MeSessionBuffer | Inl _ \<Rightarrow> crash | Inr _ \<Rightarrow> ret ())
          (\<lambda>_. thn (send_packet tr packet) (ret (Some p))))" for a
    by (auto intro!: silent_rules split: sum.split sm_error.split)
qed simp

lemma effect_publish: "effect sr P (told got (CPublish po m)) (exec_call sr tr pb (CPublish po m))"
proof -
  have lt: "\<not> AtMostOnce < AtMostOnce" "AtMostOnce < AtLeastOnce" "AtMostOnce < ExactlyOnce"
    by (simp_all add: less_qos_def)
  note norm = client_publish_def qos.case bnd_assoc bnd_unwrap bnd_ret if_True if_False prod.case option.case lt
    packet_identifier.simps
  show ?thesis
  proof (cases "po_qos po")
    case AtMostOnce
    show ?thesis
      unfolding exec_call_def call.case
      by (rule effect_answers, simp only: norm AtMostOnce,
          (rule effect_ok_or | rule effect_bnd_silent | rule silent_rules | rule effect_silent
           | simp add: ends_in_basic told_defs)+)
  next
    case AtLeastOnce
    show ?thesis
      unfolding exec_call_def call.case
      by (rule effect_answers, simp only: norm AtLeastOnce,
          (rule effect_ok_or | rule effect_ensure | rule effect_gets | rule effect_outbound_publish
           | rule effect_unwrap | rule effect_bnd_silent | rule silent_rules | simp)+)
  next
    case ExactlyOnce
    show ?thesis
      unfolding exec_call_def call.case
      by (rule effect_answers, simp only: norm ExactlyOnce,
          (rule effect_ok_or | rule effect_ensure | rule effect_gets | rule effect_outbound_publish
           | rule effect_unwrap | rule effect_bnd_silent | rule silent_rules | simp)+)
  qed
qed

section \<open>Connecting and retransmitting\<close>

lemma effect_case_option:
  "effect sr P Q a \<Longrightarrow> (\<And>t. effect sr P Q (f t)) \<Longrightarrow> effect sr P Q (case v of None \<Rightarrow> a | Some t \<Rightarrow> f t)"
  by (cases v) auto

lemma effect_connack:
  "effect sr P (\<lambda>evs x. told got (CConnect n options i) evs (map_res id AConnected x)) (handle_connack options i' ca)"
proof -
  let ?Q = "\<lambda>evs x. told got (CConnect n options i) evs (map_res id AConnected x)"
  have re: "effect sr P ?Q (thn (on_session (\<lambda>s. Some ((), session_reconnect s))) rest)"
    if "silent rest" for rest
  proof (rule effect_session [where op = OpReconnect and out = "\<lambda>_. OutDone"])
    show "ends_in (?Q [(OpReconnect, OutDone)]) rest"
      unfolding ends_in_def
    proof (intro allI impI)
      fix s x s'
      show "?Q [(OpReconnect, OutDone)] x" by (cases x) (auto simp: told_defs)
    qed
  qed (auto simp: exec_op_def that)
  have cl: "effect sr P ?Q (thn (on_session (\<lambda>s. Some ((), session_clear s))) rest)"
    if "silent rest" "ends_in (\<lambda>x. \<exists>cn. x = Ok cn \<and> \<not> cn_session_present cn) rest" for rest
  proof (rule effect_session [where op = OpClear and out = "\<lambda>_. OutDone"])
    show "ends_in (?Q [(OpClear, OutDone)]) rest"
      by (rule ends_in_weaken [OF that(2)]) (auto simp: told_defs clean_session_def)
  qed (auto simp: exec_op_def that)
  have bi: "bnd (if b then m else m') f = (if b then bnd m f else bnd m' f)" for b m m' and f :: "unit \<Rightarrow> _"
    by simp
  show ?thesis
    unfolding handle_connack_def bi
    by (rule effect_if | rule effect_case_option | rule re | rule cl | rule effect_silent silent_rules
        | simp add: ends_in_def run_defs reject_def close_def bnd_def)+
qed

lemma effect_connect: "effect sr P (told got (CConnect n options i)) (exec_call sr tr pb (CConnect n options i))"
  unfolding exec_call_def call.case client_connect_def
  by (rule effect_answers,
      (rule effect_connack | rule effect_unwrap | rule effect_bnd_silent | rule effect_case_option
       | rule effect_if | rule effect_silent silent_rules | simp add: ends_in_def)+)

text \<open>The loop of \<open>rerelease\<close>: one accepted request of the user per PUBREL packet.\<close>

definition pubrels :: "sess_ev list \<Rightarrow> bool" where
  "pubrels evs \<longleftrightarrow> (\<forall>e \<in> set evs. \<exists>p. e = (OpPubrel p, OutUser (Inr ())))"

lemma pubrels_plain: "pubrels evs \<Longrightarrow> e \<in> set evs \<Longrightarrow> \<not> ends_inbound p e \<and> \<not> ends_outbound p e"
  unfolding pubrels_def by fastforce

lemma sess_run_append: "sess_run sr s t1 s1 \<Longrightarrow> sess_run sr s1 t2 s2 \<Longrightarrow> sess_run sr s (t1 @ t2) s2"
  by (induction rule: sess_run.induct) (auto intro: run_cons)

lemma sess_run_inv:
  assumes "swap_remove_ok sr"
  shows "sess_run sr s tr s' \<Longrightarrow> session_inv s \<Longrightarrow> session_inv s' \<and> session_caps s' = session_caps s"
proof (induction rule: sess_run.induct)
  case (run_cons op s out s' tr s'')
  then show ?case using exec_op_ok [OF assms run_cons.prems run_cons.hyps(1)] by auto
qed simp

lemma find_pos_nth:
  "distinct (keys xs) \<Longrightarrow> i < length xs \<Longrightarrow> find_pos (\<lambda>e. fst e = fst (xs ! i)) xs = Some i"
  by (induction xs arbitrary: i) (auto simp: nth_Cons split: nat.splits)

lemma outbound_handle_of:
  assumes "session_inv s" and "i < length (outbound_publishes s)"
  shows "get_outbound_handle s (fst (outbound_publishes s ! i)) = Some (outbound_handle_at s i)"
  using assms find_pos_nth [of "outbound_publishes s" i]
  by (simp add: get_outbound_handle_def outbound_handle_at_def session_inv_distinct)

lemma effect_rerelease_step:
  "effect sr (\<lambda>s. i < length (outbound_publishes s)) (\<lambda>evs _. pubrels evs) (rerelease_step tr i)"
proof -
  have go: "effect sr (\<lambda>s. i < length (outbound_publishes s) \<and> outbound_handle_at s i = h) (\<lambda>evs _. pubrels evs)
      (bnd (on_session (\<lambda>_. oh_outbound_pubrel h)) (\<lambda>x. thn (asserts (x = Inr ())) (send_only tr packet)))"
    if due: "oh_state h = DueRel Automatic" for h packet
  proof (rule effect_session [where op = "OpPubrel (fst (outbound_publishes (oh_session h) ! i))" and out = OutUser])
    fix s a s'
    assume s: "session_inv s" "i < length (outbound_publishes s) \<and> outbound_handle_at s i = h"
      and run: "oh_outbound_pubrel h = Some (a, s')"
    have "oh_session h = s" using s(2) by (auto simp: outbound_handle_at_def)
    then show "op_ok (OpPubrel (fst (outbound_publishes (oh_session h) ! i)))
        \<and> exec_op sr s (OpPubrel (fst (outbound_publishes (oh_session h) ! i))) = Some (OutUser a, s')"
      using run s outbound_handle_of [OF s(1)] by (simp add: exec_op_def outbound_pubrel_def)
    show "ends_in (\<lambda>_. pubrels [(OpPubrel (fst (outbound_publishes (oh_session h) ! i)), OutUser a)])
        (thn (asserts (a = Inr ())) (send_only tr packet))"
      using run due by (auto simp: ends_in_def pubrels_def oh_outbound_pubrel_def)
  qed (simp_all add: pubrels_def silent_rules)
  show ?thesis
    unfolding rerelease_step_def
    by (intro effect_gets effect_if go effect_silent silent_rules) (simp_all add: ends_in_def pubrels_def)
qed

lemma rerelease_loop_run:
  assumes "swap_remove_ok sr"
  shows "session_inv (cl_session c) \<Longrightarrow> i < length (outbound_publishes (cl_session c))
    \<Longrightarrow> rerelease_loop tr i c = (x, c') \<Longrightarrow> \<exists>evs. sess_run sr (cl_session c) evs (cl_session c') \<and> pubrels evs"
proof (induction tr i c rule: rerelease_loop.induct)
  case (1 tr i c)
  obtain y c1 where y: "rerelease_step tr i c = (y, c1)" by fastforce
  obtain evs where e: "sess_run sr (cl_session c) evs (cl_session c1)" "pubrels evs"
    using effect_rerelease_step [of sr i tr] "1.prems"(1,2) y unfolding effect_def by blast
  show ?case
  proof (cases "y = Ok () \<and> outbound_next (outbound_handle_at (cl_session c1) i) \<noteq> None")
    case True
    then obtain h where h: "outbound_next (outbound_handle_at (cl_session c1) i) = Some h" by auto
    then have "oh_i h < length (outbound_publishes (cl_session c1))"
      by (auto simp: outbound_next_def outbound_handle_at_def Let_def split: if_splits)
    moreover have "rerelease_loop tr (oh_i h) c1 = (x, c')"
      using "1.prems"(3) y True h by (subst (asm) rerelease_loop.simps) simp
    ultimately obtain evs' where e': "sess_run sr (cl_session c1) evs' (cl_session c')" "pubrels evs'"
      using "1.IH" [OF y [symmetric] _ h] True sess_run_inv [OF assms e(1) "1.prems"(1)] by auto
    then have "pubrels (evs @ evs')" using e(2) by (auto simp: pubrels_def)
    then show ?thesis using sess_run_append [OF e(1) e'(1)] by blast
  next
    case False
    then have "c' = c1"
      using "1.prems"(3) y by (subst (asm) rerelease_loop.simps) (cases y; auto split: option.splits)
    then show ?thesis using e by blast
  qed
qed

lemma effect_rerelease:
  assumes "swap_remove_ok sr"
  shows "effect sr P (told got CRerelease) (exec_call sr tr pb CRerelease)"
proof -
  have all: "effect sr P (\<lambda>evs _. pubrels evs) (client_rerelease tr)"
    unfolding effect_def
  proof (intro allI impI)
    fix c x c'
    assume inv: "session_inv (cl_session c)" and run: "client_rerelease tr c = (x, c')"
    show "\<exists>evs. sess_run sr (cl_session c) evs (cl_session c') \<and> pubrels evs"
    proof (cases "outbound_iter (cl_session c)")
      case None
      then show ?thesis
        using run by (auto simp: client_rerelease_def gets_def bnd_def ret_def pubrels_def intro!: exI [of _ "[]"] run_nil)
    next
      case (Some h)
      then have l: "oh_i h < length (outbound_publishes (cl_session c))"
        by (auto simp: outbound_iter_def split: list.splits)
      obtain y c1 where y: "rerelease_loop tr (oh_i h) c = (y, c1)" by fastforce
      have "cl_session c' = cl_session c1"
        using run Some y silent_steps(2) [of tr]
        by (cases y) (auto simp: client_rerelease_def gets_def bnd_def silent_def)
      then show ?thesis using rerelease_loop_run [OF assms inv l y] by simp
    qed
  qed
  have "told got CRerelease evs (map_res id (\<lambda>_. ADone) x)" if "pubrels evs" for evs x
    using pubrels_plain [OF that] by (cases x) (auto simp: told_defs)
  then show ?thesis
    unfolding exec_call_def call.case by (intro effect_answers effect_weaken [OF all])
qed

section \<open>Polling\<close>

definition polls :: "'n call \<Rightarrow> bool" where
  "polls k \<longleftrightarrow> k = CPoll \<or> (\<exists>h. k = CPollBody h)"

text \<open>What an event tells about the session event it was made of.\<close>

definition tells :: "(puback_kind \<Rightarrow> pid option) \<Rightarrow> sess_ev \<Rightarrow> ('k mqtt_error, event) res \<Rightarrow> bool" where
  "tells got e x \<longleftrightarrow>
     (\<forall>p. ends_inbound p e \<longrightarrow> (\<exists>ev. x = Ok ev \<and> event_ends_inbound p ev) \<or> got Rel = Some p \<and> lost x)
   \<and> (\<forall>p. ends_outbound p e \<longrightarrow> (\<exists>ev. x = Ok ev \<and> event_ends_outbound p ev)
        \<or> Some p \<in> {got Ack, got Rec, got Comp} \<and> lost x)
   \<and> (\<forall>p ev. x = Ok (EvPublish ev) \<longrightarrow> pe_identified_qos ev = IdExactlyOnce p \<longrightarrow> delivers2 p e)"

text \<open>A packet that ended a handshake was taken from the connection.\<close>

definition seen :: "(puback_kind \<Rightarrow> pid option) \<Rightarrow> sess_ev \<Rightarrow> bool" where
  "seen got e \<longleftrightarrow> (\<forall>p. ends_inbound p e \<longrightarrow> got Rel = Some p)
     \<and> (\<forall>p. ends_outbound p e \<longrightarrow> Some p \<in> {got Ack, got Rec, got Comp})"

lemma lost_simps [simp]: "lost Panic" "\<not> lost (Ok a)" "\<not> lost (Err MeServer)"
  by (auto simp: lost_def)

lemma tells_lost: "seen got e \<Longrightarrow> lost x \<Longrightarrow> tells got e x"
  by (auto simp: tells_def seen_def lost_def)

lemma told_event:
  assumes "polls k" and "tells got e x"
  shows "told got k [e] (map_res id AEvent x)"
proof -
  have "call_ends_inbound got p k (map_res id AEvent x)" if "ends_inbound p e" for p
    using assms that by (auto simp: polls_def event_such_def lost_def tells_def)
  moreover have "call_ends_outbound got p k (map_res id AEvent x)" if "ends_outbound p e" for p
    using assms that by (auto simp: polls_def event_such_def lost_def tells_def)
  ultimately show ?thesis
    using assms(2) by (cases x) (auto simp: told_defs tells_def)
qed

text \<open>The reaction to the answer of the session, and the event that follows it.\<close>

lemma ends_in_react:
  assumes "ends_in (\<lambda>x. x = Ok () \<or> lost x) m" and "ends_in P n" and "\<And>x. lost x \<Longrightarrow> P x"
  shows "ends_in P (thn m n)"
proof (rule ends_in_bnd)
  show "ends_in (\<lambda>x. case x of Ok _ \<Rightarrow> True | Err e \<Rightarrow> P (Err e) | Panic \<Rightarrow> P Panic) m"
    by (rule ends_in_weaken [OF assms(1)]) (auto simp: assms(3) lost_def split: res.split)
qed (rule assms(2))

lemma pubrel_completes:
  assumes "inbound_pubrel sr s p rc = Some ((Complete RcSuccess, e), s')"
  shows "e = SmAborted \<or> (\<exists>m. e = SmReleased m)"
  using assms by (auto simp: inbound_pubrel_def ih_inbound_pubrel_def split: session_splits)

lemma effect_peer:
  assumes "polls k"
    and "\<And>s r s'. f s = Some (r, s') \<Longrightarrow> exec_op sr s op = Some (OutPeer r, s')" and "op_ok op"
    and "\<And>a. silent (react a)" and "\<And>a. ends_in (\<lambda>x. x = Ok () \<or> lost x) (react a)" and "\<And>e. silent (tell e)"
    and "\<And>s a e s'. f s = Some ((a, e), s') \<Longrightarrow> ends_in (tells got (op, OutPeer (a, e))) (tell e)"
    and "\<And>a e. seen got (op, OutPeer (a, e))"
  shows "effect sr P (\<lambda>evs x. told got k evs (map_res id AEvent x))
     (bnd (on_session f) (\<lambda>(a, e). thn (react a) (tell e)))"
proof (rule effect_session [where op = op and out = OutPeer])
  show "silent (case r of (a, e) \<Rightarrow> thn (react a) (tell e))" for r
    using assms(4,6) by (cases r) (auto intro: silent_rules)
  show "ends_in (\<lambda>x. told got k [(op, OutPeer r)] (map_res id AEvent x)) (case r of (a, e) \<Rightarrow> thn (react a) (tell e))"
    if "f s = Some (r, s')" for s r s'
  proof -
    obtain a e where r: "r = (a, e)" by fastforce
    have "ends_in (tells got (op, OutPeer (a, e))) (thn (react a) (tell e))"
      using that assms(5,7,8) unfolding r by (auto intro!: ends_in_react tells_lost)
    then show ?thesis unfolding r prod.case by (rule ends_in_weaken) (rule told_event [OF assms(1)])
  qed
qed (use assms(2,3) in simp_all)

lemma ends_in_reacts:
  "ends_in (\<lambda>x. x = Ok () \<or> lost x) (ret ())" "ends_in (\<lambda>x. x = Ok () \<or> lost x) crash"
  "ends_in (\<lambda>x. x = Ok () \<or> lost x) (close rc)"
  "(\<And>v. ends_in (\<lambda>x. x = Ok () \<or> lost x) (f v)) \<Longrightarrow> ends_in (\<lambda>x. x = Ok () \<or> lost x) (unwrap y f)"
  by (cases y; auto simp: unwrap_def ends_in_basic ends_in_close lost_def)+

lemma event_new_pid:
  "puback_event_new p m = Some e \<Longrightarrow> ae_packet_identifier e = pa_packet_identifier p"
  "pubrej_from p = Some e' \<Longrightarrow> re_packet_identifier e' = pa_packet_identifier p"
  by (auto simp: puback_event_new_def pubrej_from_def split: if_splits)

lemma seen_acks:
  "got Ack = Some p \<Longrightarrow> seen got (InPuback p rc, OutPeer r)" "got Rec = Some p \<Longrightarrow> seen got (InPubrec p rc, OutPeer r)"
  "got Comp = Some p \<Longrightarrow> seen got (InPubcomp p rc, OutPeer r)" "got Rel = Some p \<Longrightarrow> seen got (InPubrel p rc, OutPeer r)"
  by (cases r; cases "fst r"; auto simp: seen_def)+

lemma effect_poll_acks:
  assumes "polls k"
  shows "(\<And>q c1. receive_ack tr pb Ack h c = (Ok q, c1) \<Longrightarrow> got Ack = Some (pa_packet_identifier q))
      \<Longrightarrow> effect_at sr (\<lambda>evs x. told got k evs (map_res id AEvent x)) (poll_puback sr tr pb h) c"
    and "(\<And>q c1. receive_ack tr pb Rec h c = (Ok q, c1) \<Longrightarrow> got Rec = Some (pa_packet_identifier q))
      \<Longrightarrow> effect_at sr (\<lambda>evs x. told got k evs (map_res id AEvent x)) (poll_pubrec sr tr pb h) c"
    and "(\<And>q c1. receive_ack tr pb Comp h c = (Ok q, c1) \<Longrightarrow> got Comp = Some (pa_packet_identifier q))
      \<Longrightarrow> effect_at sr (\<lambda>evs x. told got k evs (map_res id AEvent x)) (poll_pubcomp sr tr pb h) c"
    and "(\<And>q c1. receive_ack tr pb Rel h c = (Ok q, c1) \<Longrightarrow> got Rel = Some (pa_packet_identifier q))
      \<Longrightarrow> effect_at sr (\<lambda>evs x. told got k evs (map_res id AEvent x)) (poll_pubrel sr tr pb h) c"
proof -
  note intros = ends_in_reacts ends_in_send_packet(2) ends_in_unwrap silent_rules seen_acks
  note evs = exec_op_def ends_in_basic tells_def event_new_pid
  note splits = response.split sm_event.split
  have comp: "ends_inbound p (InPubrel q rc, OutPeer (a, e)) \<Longrightarrow> inbound_pubrel sr s q rc = Some ((a, e), s')
      \<Longrightarrow> q = p \<and> (e = SmAborted \<or> (\<exists>m. e = SmReleased m))" for p q rc a e s s'
    using pubrel_completes [of sr s q rc e s'] by (cases a) auto
  show "effect_at sr (\<lambda>evs x. told got k evs (map_res id AEvent x)) (poll_puback sr tr pb h) c" 
    if got: "\<And>q c1. receive_ack tr pb Ack h c = (Ok q, c1) \<Longrightarrow> got Ack = Some (pa_packet_identifier q)"
    unfolding poll_puback_def
    by (rule effect_at_bnd [OF silent_receive_ack], simp, simp, rule effect_atI,
        rule_tac op = "InPuback (pa_packet_identifier a) (pa_reason_code a)" in effect_peer [OF assms(1)])
       (auto simp: evs intro!: intros split: splits dest!: got)
  show "effect_at sr (\<lambda>evs x. told got k evs (map_res id AEvent x)) (poll_pubrec sr tr pb h) c" 
    if got: "\<And>q c1. receive_ack tr pb Rec h c = (Ok q, c1) \<Longrightarrow> got Rec = Some (pa_packet_identifier q)"
    unfolding poll_pubrec_def
    by (rule effect_at_bnd [OF silent_receive_ack], simp, simp, rule effect_atI,
        rule_tac op = "InPubrec (pa_packet_identifier a) (pa_reason_code a)" in effect_peer [OF assms(1)])
       (auto simp: evs intro!: intros split: splits dest!: got)
  show "effect_at sr (\<lambda>evs x. told got k evs (map_res id AEvent x)) (poll_pubcomp sr tr pb h) c" 
    if got: "\<And>q c1. receive_ack tr pb Comp h c = (Ok q, c1) \<Longrightarrow> got Comp = Some (pa_packet_identifier q)"
    unfolding poll_pubcomp_def
    by (rule effect_at_bnd [OF silent_receive_ack], simp, simp, rule effect_atI,
        rule_tac op = "InPubcomp (pa_packet_identifier a) (pa_reason_code a)" in effect_peer [OF assms(1)])
       (auto simp: evs intro!: intros split: splits dest!: got)
  show "effect_at sr (\<lambda>evs x. told got k evs (map_res id AEvent x)) (poll_pubrel sr tr pb h) c" 
    if got: "\<And>q c1. receive_ack tr pb Rel h c = (Ok q, c1) \<Longrightarrow> got Rel = Some (pa_packet_identifier q)"
    unfolding poll_pubrel_def
    by (rule effect_at_bnd [OF silent_receive_ack], simp, simp, rule effect_atI,
        rule_tac op = "InPubrel (pa_packet_identifier a) (pa_reason_code a)" in effect_peer [OF assms(1)])
       (auto simp: evs intro!: intros split: splits dest!: got dest: comp)
qed

lemma effect_poll_publish:
  assumes "polls k"
  shows "effect sr P (\<lambda>evs x. told got k evs (map_res id AEvent x)) (poll_publish tr pb h)"
proof -
  let ?Q = "\<lambda>evs x. told got k evs (map_res id AEvent x)"
  have topic: "effect sr P ?Q (case r of TrName t \<Rightarrow> f t | _ \<Rightarrow> reject rc MeServer)"
    if "\<And>t. effect sr P ?Q (f t)" for r f rc
    using that by (cases r) (auto intro!: effect_silent silent_rules simp: ends_in_reject)
  have sess: "effect sr P ?Q (bnd (on_session (\<lambda>s. inbound_publish s iq mode)) (\<lambda>(action, event).
      thn (case action of
             Release _ \<Rightarrow> crash | Complete _ \<Rightarrow> crash | RNone \<Rightarrow> ret ()
           | Acknowledge reason_code \<Rightarrow> unwrap (packet_identifier iq) (\<lambda>p. respond tr Ack p reason_code)
           | Receive reason_code \<Rightarrow> unwrap (packet_identifier iq) (\<lambda>p. respond tr Rec p reason_code)
           | RDisconnect reason_code \<Rightarrow> close (Some reason_code))
      (case event of
         SmPublish \<Rightarrow> ret (EvPublish e) | SmDuplicate ack_mode \<Rightarrow> ret (EvDuplicate (e\<lparr>pe_ack_mode := ack_mode\<rparr>))
       | SmIgnored \<Rightarrow> ret EvIgnored | SmServerError \<Rightarrow> fail MeServer | _ \<Rightarrow> crash)))"
    if "pred_option pid_valid (packet_identifier iq)" "pe_identified_qos e = iq" for iq mode e
    using that
    by (intro effect_peer [OF assms, where op = "InPublish iq mode"])
       (auto simp: exec_op_def ends_in_basic tells_def seen_def delivers2_def
         intro!: ends_in_reacts ends_in_send_packet(2) silent_rules split: response.split sm_event.split)
  show ?thesis
    unfolding poll_publish_def Let_def
    by (rule effect_bnd_silent [OF silent_basic(4)], simp, simp, rule effect_bnd_silent [OF silent_basic(4)], simp, simp,
        rule effect_bnd_when [OF silent_on_raw _ _ gives_recv_body [OF gives_publish_receive]], simp, simp,
        rule topic, rule effect_bnd_silent [OF silent_basic(4)], simp, simp)
       (rule sess; simp add: publish_wf_def publish_event_of_def)
qed

lemma effect_poll_suback:
  assumes "polls k"
  shows "effect sr P (\<lambda>evs x. told got k evs (map_res id AEvent x)) (poll_suback sr tr pb sk h)"
proof -
  have no: "\<not> ends_inbound q (InSuback p, out)" "\<not> ends_outbound q (InSuback p, out)"
    "\<not> ends_inbound q (InUnsuback p, out)" "\<not> ends_outbound q (InUnsuback p, out)" for q p out by auto
  show ?thesis
    unfolding poll_suback_def Let_def
    by (rule effect_bnd_silent [OF silent_basic(4)], simp, simp, rule effect_bnd_silent [OF silent_on_raw], simp, simp,
        rule effect_bnd_silent [OF silent_steps(10)], simp, simp,
        rule_tac op = "case sk of Suback \<Rightarrow> InSuback (sa_packet_identifier aa) | Unsuback \<Rightarrow> InUnsuback (sa_packet_identifier aa)"
          and out = "\<lambda>found. if found then OutDone else OutUnknown" in effect_session)
       (auto simp: remove_awaited_def exec_op_def ends_in_basic ends_in_reject no told_defs
          split: suback_kind.splits option.splits list.splits if_splits intro!: silent_rules)
qed

lemma body_took_ack:
  assumes "header_packet_type h = Some (pk_packet_type kind)" and "receive_ack tr pb kind h c = (Ok q, c1)"
  shows "body_took tr pb h c kind = Some (pa_packet_identifier q)"
  using assms by (simp add: body_took_def)

lemma effect_poll_body:
  assumes "polls k"
  shows "effect_at sr (\<lambda>evs x. told (body_took tr pb h c) k evs (map_res id AEvent x)) (poll_body sr tr pb h) c"
proof (cases "header_packet_type h")
  case (Some t)
  let ?Q = "\<lambda>evs x. told (body_took tr pb h c) k evs (map_res id AEvent x)"
  have rej: "effect_at sr ?Q (reject rc e) c" for rc e
    by (intro effect_atI effect_silent silent_rules) (simp add: ends_in_reject)
  have quiet: "effect sr P ?Q (ret EvPingresp)" "effect sr P ?Q (fail e)" for e P
    by (intro effect_silent silent_rules; simp add: ends_in_basic told_defs)+
  have acks: "t = PtPuback \<Longrightarrow> effect_at sr ?Q (poll_puback sr tr pb h) c" "t = PtPubrec \<Longrightarrow> effect_at sr ?Q (poll_pubrec sr tr pb h) c"
    "t = PtPubcomp \<Longrightarrow> effect_at sr ?Q (poll_pubcomp sr tr pb h) c" "t = PtPubrel \<Longrightarrow> effect_at sr ?Q (poll_pubrel sr tr pb h) c"
    using Some by (auto simp: pk_packet_type_def intro!: effect_poll_acks [OF assms] body_took_ack)
  show ?thesis
    unfolding poll_body_def Some ok_or_def option.case bnd_ret
    by (cases t) (simp_all add: acks effect_atI [OF effect_poll_publish] effect_atI [OF effect_poll_suback] assms rej,
        (intro effect_atI effect_bnd_silent silent_rules quiet; simp)+)
next
  case None
  then show ?thesis by (auto simp: poll_body_def ends_in_basic intro!: effect_atI effect_silent silent_rules)
qed

lemma effect_poll:
  "effect_at sr (\<lambda>evs x. told (took tr pb CPoll c) CPoll evs (map_res id AEvent x)) (poll sr tr pb) c"
  unfolding poll_def
  by (rule effect_at_bnd [OF silent_poll_header]) (simp_all add: effect_poll_body polls_def)

lemma exec_call_effect:
  assumes "swap_remove_ok sr"
  shows "effect_at sr (told (took tr pb k c) k) (exec_call sr tr pb k) c"
proof (cases k)
  case CPing
  then show ?thesis unfolding exec_call_def client_ping_def by (auto intro!: effect_atI effect_silent_call silent_rules)
next
  case CAbort
  then show ?thesis unfolding exec_call_def by (auto intro!: effect_atI effect_silent_call silent_rules)
next
  case (CDisconnect options)
  show ?thesis
    unfolding CDisconnect exec_call_def call.case client_disconnect_def Let_def
    by (intro effect_atI effect_silent_call silent_rules)
next
  case CPollHeader
  then show ?thesis
    unfolding exec_call_def by (auto intro!: effect_atI effect_answers effect_silent silent_rules simp: ends_in_def)
next
  case (CPollBody h)
  show ?thesis
    unfolding CPollBody exec_call_def call.case took.simps
    by (rule effect_at_answers, rule effect_poll_body) (simp add: polls_def)
next
  case CPoll
  show ?thesis
    unfolding CPoll exec_call_def call.case by (rule effect_at_answers, rule effect_poll)
qed (auto intro!: effect_atI intro: effect_connect effect_subscribes effect_publish effect_republish effect_acks
     effect_rerelease [OF assms])

end
