(* ===== verification/Mqtt_Client_Histories.thy ===== *)
theory Mqtt_Client_Histories
  imports Mqtt_Arrival Mqtt_Call_Effects
begin

text \<open>
  Histories of calls. The history of the client is a history of its session, in one piece per call;
  so the delivery guarantees of \<open>Mqtt_Delivery\<close> become guarantees about the calls that a user makes
  and the events that they return.
\<close>

section \<open>Histories of a client\<close>

text \<open>A history of a client: the calls that were made, each with the client on which it was made and with
  what it returned, oldest first.\<close>

inductive client_run ::
    "remover \<Rightarrow> ('n, 'e, 'k) transport \<Rightarrow> (nat \<Rightarrow> ('b, 'p, 'm) comp) \<Rightarrow> ('n, 'b) client
     \<Rightarrow> ('n call \<times> ('n, 'b) client \<times> ('k mqtt_error, answer) res) list \<Rightarrow> ('n, 'b) client \<Rightarrow> bool"
  for sr tr pb where
  client_nil: "client_run sr tr pb c [] c"
| client_cons: "exec_call sr tr pb k c = (x, c') \<Longrightarrow> client_run sr tr pb c' hist c''
    \<Longrightarrow> client_run sr tr pb c ((k, c, x) # hist) c''"

text \<open>The history of the session that belongs to it, in one piece per call.\<close>

lemma client_run_session:
  assumes "swap_remove_ok sr"
  shows "client_run sr tr pb c hist c' \<Longrightarrow> session_inv (cl_session c)
    \<Longrightarrow> \<exists>evss. sess_run sr (cl_session c) (concat evss) (cl_session c')
        \<and> list_all2 (\<lambda>(k, d, x) evs. told (took tr pb k d) k evs x) hist evss"
proof (induction rule: client_run.induct)
  case (client_nil c)
  show ?case by (intro exI [of _ "[]"]) (simp add: run_nil)
next
  case (client_cons k c x c' hist c'')
  obtain evs where e: "sess_run sr (cl_session c) evs (cl_session c')" "told (took tr pb k c) k evs x"
    using exec_call_effect [OF assms, of tr pb k c] client_cons.prems client_cons.hyps(1)
    unfolding effect_at_def by blast
  obtain evss where "sess_run sr (cl_session c') (concat evss) (cl_session c'')"
    "list_all2 (\<lambda>(k, d, x) evs. told (took tr pb k d) k evs x) hist evss"
    using client_cons.IH sess_run_inv [OF assms e(1) client_cons.prems] by blast
  then show ?case using e by (intro exI [of _ "evs # evss"]) (auto intro: sess_run_append)
qed

lemma list_all2_in: "list_all2 P xs ys \<Longrightarrow> y \<in> set ys \<Longrightarrow> \<exists>x \<in> set xs. P x y"
  by (induction rule: list_all2_induct) auto

text \<open>
  A guarantee of the session becomes one of the client: when a call that answers \<open>start\<close> made the
  session event \<open>start'\<close>, and so on.
\<close>

lemma client_until:
  assumes sr: "swap_remove_ok sr" and u: "until start' stop' bad' \<Phi>" and inv: "session_inv (cl_session c)"
    and run: "client_run sr tr pb c (h1 @ (k1, d1, x1) # h2 @ (k2, d2, x2) # h3) c'"
    and start: "\<And>evs. told (took tr pb k1 d1) k1 evs x1 \<Longrightarrow> \<exists>e. evs = [e] \<and> start' e"
    and bad: "\<And>evs. told (took tr pb k2 d2) k2 evs x2 \<Longrightarrow> \<exists>e. evs = [e] \<and> bad' e"
    and stop: "\<And>k d x evs e. told (took tr pb k d) k evs x \<Longrightarrow> e \<in> set evs \<Longrightarrow> stop' e \<Longrightarrow> stop k d x"
  shows "\<exists>(k, d, x) \<in> set h2. stop k d x"
proof -
  obtain evss where s: "sess_run sr (cl_session c) (concat evss) (cl_session c')"
    and a: "list_all2 (\<lambda>(k, d, x) evs. told (took tr pb k d) k evs x) (h1 @ (k1, d1, x1) # h2 @ (k2, d2, x2) # h3) evss"
    using client_run_session [OF sr run inv] by blast
  from a obtain l1 e1 l2 e2 l3 where l: "evss = l1 @ e1 # l2 @ e2 # l3" "told (took tr pb k1 d1) k1 e1 x1"
    "told (took tr pb k2 d2) k2 e2 x2"
    "list_all2 (\<lambda>(k, d, x) evs. told (took tr pb k d) k evs x) h2 l2"
    by (auto simp: list_all2_append1 list_all2_Cons1)
  obtain a1 a2 where "e1 = [a1]" "start' a1" "e2 = [a2]" "bad' a2" using start bad l(2,3) by blast
  with s l(1) have "\<exists>e \<in> set (concat l2). stop' e"
    using history_until [OF sr u inv, of "concat l1" a1 "concat l2" a2 "concat l3"] by simp
  then obtain evs e where e: "evs \<in> set l2" "e \<in> set evs" "stop' e" by auto
  then obtain y where "y \<in> set h2" "(\<lambda>(k, d, x) evs. told (took tr pb k d) k evs x) y evs"
    using list_all2_in [OF l(4)] by blast
  then obtain k d x where "(k, d, x) \<in> set h2" "told (took tr pb k d) k evs x" by (cases y) auto
  then show ?thesis using stop e by blast
qed

section \<open>Histories on slices\<close>

lemma local_update_back:
  assumes "local_update s p eo s1" and "local_update s1 p None s2" and "outbound_publishes s = []"
  shows "s2 = s"
proof -
  have "local_entry s2 = Map.empty" using assms by (auto simp: local_update_def)
  then have "outbound_publishes s2 = []" by simp
  moreover have "s1 = s\<lparr>outbound_publishes := outbound_publishes s1\<rparr>" "s2 = s1\<lparr>outbound_publishes := outbound_publishes s2\<rparr>"
    using assms(1,2) by (simp_all add: local_update_def)
  ultimately show ?thesis using assms(3) by (metis session.surjective session.update_convs(7))
qed

lemma peer_update_back:
  assumes "peer_update s p eo s1" and "peer_update s1 p None s2" and "inbound_publishes s = []"
  shows "s2 = s"
proof -
  have "peer_entry s2 = Map.empty" using assms by (auto simp: peer_update_def)
  then have "inbound_publishes s2 = []" by simp
  moreover have "s1 = s\<lparr>inbound_publishes := inbound_publishes s1\<rparr>" "s2 = s1\<lparr>inbound_publishes := inbound_publishes s2\<rparr>"
    using assms(1,2) by (simp_all add: peer_update_def)
  ultimately show ?thesis using assms(3) by (metis session.surjective session.update_convs(6))
qed

lemma pubrec_rejected_step:
  assumes "swap_remove_ok sr" and "session_inv s" and "\<not> is_success rc" and "local_entry s p = Some (AwaitRec m)"
  shows "\<exists>s'. ack_op Rec sr s p rc = Some ((RNone, SmRejected), s') \<and> local_update s p None s'"
  using vector_removal.inbound_pubrec_refines [OF vector_removal.intro [OF assms(1)] assms(2), of p rc] assms(3,4)
  by (auto simp: ack_op_def local_pubrec_def)

lemma publishable_raw [simp]: "publishable (c\<lparr>cl_raw := r\<rparr>) options m iq p = publishable c options m iq p"
  by (simp add: publishable_def publish_room_def)

lemma exec_poll: "poll sr tr pb c = (Ok ev, c') \<Longrightarrow> exec_call sr tr pb CPoll c = (Ok (AEvent ev), c')"
  by (simp add: exec_call_def ret_def)

lemma exec_publish:
  "client_publish tr options m c = (Ok i, c') \<Longrightarrow> exec_call sr tr pb (CPublish options m) c = (Ok (APublished i), c')"
  by (simp add: exec_call_def ret_def)

lemma slice_default_session:
  "slice_client inp k\<lparr>cl_session := session_default 1 2 2, cl_raw := r\<rparr> = slice_client inp k\<lparr>cl_raw := r\<rparr>"
  by (simp add: slice_client_def idle_client_def)

abbreviation slice_run where
  "slice_run \<equiv> client_run last_takes_place slice_connection (alloc_provide :: nat \<Rightarrow> (unit, unit, u8 list) comp)"

section \<open>Properties\<close>

text \<open>C2: Every call of the client, however it ends, keeps the session well-formed and within its
  capacities, and takes it through a sequence of transitions of the abstract specification; no call
  touches the session in any other way. This holds for every transport, buffer provider and server,
  and also when the call returns an error or panics.\<close>

theorem client_refines_session:
  assumes "swap_remove_ok sr" and "session_inv (cl_session c)" and "exec_call sr tr pb k c = (x, c')"
  shows "session_inv (cl_session c') \<and> session_caps (cl_session c') = session_caps (cl_session c)
    \<and> (\<exists>evs. sess_run sr (cl_session c) evs (cl_session c'))"
proof -
  obtain evs where "sess_run sr (cl_session c) evs (cl_session c')"
    using exec_call_effect [OF assms(1), of tr pb k c] assms(2,3) unfolding effect_at_def by blast
  then show ?thesis using sess_run_inv [OF assms(1) _ assms(2)] by blast
qed

theorem client_refines_session_witness:
  "let c' = snd (exec_call last_takes_place slice_connection
        (alloc_provide :: nat \<Rightarrow> (unit, unit, u8 list) comp) CPoll receiving_client) in
   session_inv (cl_session c')
   \<and> session_caps (cl_session c') = session_caps (cl_session receiving_client)
   \<and> (\<exists>evs. sess_run last_takes_place (cl_session receiving_client) evs (cl_session c'))"
proof -
  have inv: "session_inv (cl_session receiving_client)"
    by (simp add: receiving_client_def session_inv_def session_default_def pid_valid_def)
  show ?thesis
    unfolding Let_def by (rule client_refines_session [OF last_takes_place_ok inv]) (rule prod.collapse [symmetric])
qed

text \<open>C3: Exactly once delivery, as the user of the client sees it. In every history of calls, a message
  of Quality of Service 2 with identifier \<open>p\<close> is returned by \<open>poll\<close> as a new message twice only if in
  between a call ended the handshake of \<open>p\<close>: a \<open>poll\<close> that reported the release or the abortion of
  \<open>p\<close>, the user's own \<open>manual_complete\<close> or rejecting \<open>manual_receive\<close> for \<open>p\<close> (that returned, or under
  which the connection was lost or the client panicked), a \<open>connect\<close> that found no session, or a \<open>poll\<close> that had taken the
  PUBREL packet of \<open>p\<close> from the connection when the connection was lost or the client panicked. No retransmission by the
  server, no loss of the connection otherwise, no reconnection to the session and no other call in
  between makes it return again.\<close>

theorem client_exactly_once:
  assumes "swap_remove_ok sr" and "session_inv (cl_session c)"
    and "client_run sr tr pb c (h1 @ (k1, d1, x1) # h2 @ (k2, d2, x2) # h3) c'"
    and "call_delivers p x1" and "call_delivers p x2"
  shows "\<exists>(k, d, x) \<in> set h2. call_ends_inbound (took tr pb k d) p k x"
  by (rule client_until [OF assms(1) exactly_once.until_axioms [of p] assms(2,3)])
     (use assms(4,5) in \<open>auto simp: told_def\<close>)

theorem client_exactly_once_witness:
  "\<exists>d1 x1 h d2 x2 c'. slice_run (slice_client (publish_bytes (memo (IdExactlyOnce 5))
        @ puback_bytes Rel (puback_minimal 5 RcSuccess) @ publish_bytes (memo (IdExactlyOnce 5)) @ []) 18)
      ([] @ (CPoll, d1, x1) # h @ (CPoll, d2, x2) # []) c'
    \<and> call_delivers 5 x1 \<and> call_delivers 5 x2
    \<and> (\<exists>(k, d, y) \<in> set h. call_ends_inbound (took slice_connection
        (alloc_provide :: nat \<Rightarrow> (unit, unit, u8 list) comp) k d) 5 k y)"
proof -
  let ?p = "memo (IdExactlyOnce 5)" and ?q = "puback_minimal 5 RcSuccess"
  let ?c = "slice_client (publish_bytes ?p @ puback_bytes Rel ?q @ publish_bytes ?p @ []) 18"
  let ?e = "publish_event_of Automatic [0x61] ?p"
  have v: "pid_valid 5" by (simp add: pid_valid_def)
  have inv: "session_inv (cl_session ?c)" and new: "peer_entry (cl_session ?c) 5 = None"
    and room: "inbound_room (cl_session ?c)"
    by (simp_all add: session_inv_def session_default_def inbound_room_def)
  have acc: "accepts_ack ?c Rel ?q"
    using slice_client_accepts_ack [OF v] by (simp add: pk_reason_code_allowed_def is_rel_comp_reason_code_def)
  have ok: "is_success (pa_reason_code ?q)" by (simp add: is_success_def is_erroneous_def)
  have iq: "pu_identified_qos ?p = IdExactlyOnce 5" and mode: "\<not> cl_manual_ack_when ?c ?e"
    by (simp_all add: memo_def)
  have "slice_conn_at (publish_bytes ?p @ puback_bytes Rel ?q @ publish_bytes ?p @ []) [] (12 + 6)
      (publish_memory ?p + (puback_memory ?q + (publish_memory ?p + 0))) (cl_raw ?c)"
    by (rule slice_client_at) simp
  from qos2_message_run [OF slice_contract last_takes_place_ok inv slice_client_accepts_memo [OF v] iq mode new room acc minimal_fields(1) ok this]
  obtain s1 r1 e s2 r2 where r: "slice_poll ?c = (Ok (EvPublish ?e), ?c\<lparr>cl_session := s1, cl_raw := r1\<rparr>)"
    "slice_poll (?c\<lparr>cl_session := s1, cl_raw := r1\<rparr>) = (Ok (EvPublishReleased e), ?c\<lparr>cl_session := s2, cl_raw := r2\<rparr>)"
    "puback_event_new ?q Automatic = Some e"
    and u: "peer_update (cl_session ?c) 5 (Some (AwaitRel Automatic)) s1" "peer_update s1 5 None s2"
    and at: "slice_conn_at (publish_bytes ?p @ []) ([] @ puback_bytes Rec ?q @ puback_bytes Comp ?q) 6 (publish_memory ?p + 0) r2"
    by blast
  have "s2 = cl_session ?c" by (rule peer_update_back [OF u]) (simp add: session_default_def)
  then have s2: "?c\<lparr>cl_session := s2, cl_raw := r2\<rparr> = ?c\<lparr>cl_raw := r2\<rparr>" by (simp add: slice_default_session)
  have "\<exists>s' r'. slice_poll (?c\<lparr>cl_raw := r2\<rparr>) = (Ok (EvPublish ?e), ?c\<lparr>cl_raw := r2\<rparr>\<lparr>cl_session := s', cl_raw := r'\<rparr>)
      \<and> slice_conn_at [] (([] @ puback_bytes Rec ?q @ puback_bytes Comp ?q) @ receipt (pu_identified_qos ?p) Automatic) 0 0 r'"
    by (rule arrives [OF slice_contract])
       (use at slice_client_accepts_memo [OF v] inv new room v in \<open>simp_all add: takes_new_def iq chosen_mode_def
        accepts_publish_def\<close>)
  then obtain c' where r3: "slice_poll (?c\<lparr>cl_raw := r2\<rparr>) = (Ok (EvPublish ?e), c')" by blast
  have run: "slice_run ?c ([] @ (CPoll, ?c, Ok (AEvent (EvPublish ?e)))
      # [(CPoll, ?c\<lparr>cl_session := s1, cl_raw := r1\<rparr>, Ok (AEvent (EvPublishReleased e)))]
      @ (CPoll, ?c\<lparr>cl_raw := r2\<rparr>, Ok (AEvent (EvPublish ?e))) # []) c'"
    using exec_poll [OF r(1)] exec_poll [OF r(2) [unfolded s2]] exec_poll [OF r3]
    by (auto intro!: client_cons client_nil)
  have d: "call_delivers 5 (Ok (AEvent (EvPublish ?e)) :: (bool mqtt_error, answer) res)"
    by (simp add: call_delivers_def publish_event_of_def iq)
  from client_exactly_once [OF last_takes_place_ok inv run d d] run d show ?thesis by blast
qed

text \<open>C9: Packet identifiers, as the user of the client sees them. Once \<open>publish\<close> has returned an
  identifier \<open>p\<close>, no \<open>publish\<close>, \<open>subscribe\<close> or \<open>unsubscribe\<close> returns \<open>p\<close> again before a \<open>poll\<close> reported
  that the publication was acknowledged, completed or rejected, or a \<open>connect\<close> found no session, or a
  \<open>poll\<close> that had taken the PUBACK, PUBREC or PUBCOMP packet of \<open>p\<close> ended with the loss of the connection
  or a panic.\<close>

theorem client_identifier_not_reused:
  assumes "swap_remove_ok sr" and "session_inv (cl_session c)"
    and "client_run sr tr pb c (h1 @ (k1, d1, x1) # h2 @ (k2, d2, x2) # h3) c'"
    and "call_publishes p x1" and "call_allocates p x2"
  shows "\<exists>(k, d, x) \<in> set h2. call_ends_outbound (took tr pb k d) p k x"
  by (rule client_until [OF assms(1) publish_pid.until_axioms [of p] assms(2,3)])
     (use assms(4,5) in \<open>auto simp: told_def\<close>)

theorem client_identifier_not_reused_witness:
  "\<exists>d1 x1 h d2 x2 c'. slice_run (slice_client (puback_bytes Rec (puback_minimal 1 RcQuotaExceeded) @ []) 18)
      ([] @ (CPublish memo_options [1], d1, x1) # h @ (CPublish memo_options [1], d2, x2) # []) c'
    \<and> call_publishes 1 x1 \<and> call_allocates 1 x2
    \<and> (\<exists>(k, d, y) \<in> set h. call_ends_outbound (took slice_connection
        (alloc_provide :: nat \<Rightarrow> (unit, unit, u8 list) comp) k d) 1 k y)"
proof -
  let ?p = "memo (IdExactlyOnce 1)" and ?q = "puback_minimal 1 RcQuotaExceeded"
  let ?c = "slice_client (puback_bytes Rec ?q @ []) 18"
  have v: "pid_valid 1" by (simp add: pid_valid_def)
  have inv: "session_inv (cl_session ?c)" by (simp add: session_inv_def session_default_def)
  have "slice_conn_at (puback_bytes Rec ?q @ []) [] (length (publish_bytes ?p) + 9) (puback_memory ?q + 0) (cl_raw ?c)"
    by (rule slice_client_at) (simp add: memo_length)
  from publish_at [OF slice_contract inv memo_publishable this]
  obtain s1 r1 where r1: "client_publish slice_connection memo_options [1] ?c
      = (Ok (packet_identifier (IdExactlyOnce 1)), ?c\<lparr>cl_session := s1, cl_raw := r1\<rparr>)"
    "published_in (cl_session ?c) (IdExactlyOnce 1) (po_ack_mode memo_options) s1"
    "slice_conn_at (puback_bytes Rec ?q @ []) ([] @ publish_bytes ?p) 9 (puback_memory ?q + 0) r1"
    by blast
  then have u1: "local_update (cl_session ?c) 1 (Some (AwaitRec Automatic)) s1"
    by (simp add: published_in_def memo_options_simps fresh_local_def)
  then have s1: "session_inv s1" "local_entry s1 1 = Some (AwaitRec Automatic)" by (simp_all add: local_update_def)
  have bad: "\<not> is_success (pa_reason_code ?q)" and rej: "\<exists>e. pubrej_from ?q = Some e \<and> re_packet_identifier e = 1"
    by (simp_all add: is_success_def is_erroneous_def pubrej_from_def)
  obtain e where e: "pubrej_from ?q = Some e" "re_packet_identifier e = 1" using rej by blast
  obtain s2 where s2: "ack_op Rec last_takes_place s1 1 (pa_reason_code ?q) = Some ((RNone, SmRejected), s2)"
    "local_update s1 1 None s2"
    using pubrec_rejected_step [OF last_takes_place_ok s1(1) bad s1(2)] by blast
  have acc: "accepts_ack (?c\<lparr>cl_session := s1, cl_raw := r1\<rparr>) Rec ?q"
    using slice_client_accepts_ack [OF v] by (simp add: pk_reason_code_allowed_def is_ack_rec_reason_code_def)
  obtain r2 where r2: "slice_poll (?c\<lparr>cl_session := s1, cl_raw := r1\<rparr>) = (Ok (EvPublishRejected e), ?c\<lparr>cl_session := s2, cl_raw := r2\<rparr>)"
    "slice_conn_at [] ([] @ publish_bytes ?p) 9 0 r2"
    using ack_poll [OF slice_contract acc, of "[]" "[] @ publish_bytes ?p" "[]" 9 0 last_takes_place RNone SmRejected s2
        "EvPublishRejected e"] r1(3) s2(1) e(1) by auto
  have "s2 = cl_session ?c" by (rule local_update_back [OF u1 s2(2)]) (simp add: session_default_def)
  then have c2: "?c\<lparr>cl_session := s2, cl_raw := r2\<rparr> = ?c\<lparr>cl_raw := r2\<rparr>" by (simp add: slice_default_session)
  have "publishable (?c\<lparr>cl_raw := r2\<rparr>) memo_options [1] (IdExactlyOnce 1) ?p" by (simp add: memo_publishable)
  from publish_at [OF slice_contract _ this, of "[]" "[] @ publish_bytes ?p" 0 0] inv r2(2)
  obtain c' where r3: "client_publish slice_connection memo_options [1] (?c\<lparr>cl_raw := r2\<rparr>) = (Ok (Some 1), c')"
    by (auto simp: memo_length)
  let ?x = "Ok (APublished (Some 1)) :: (bool mqtt_error, answer) res"
  have run: "slice_run ?c ([] @ (CPublish memo_options [1], ?c, ?x)
      # [(CPoll, ?c\<lparr>cl_session := s1, cl_raw := r1\<rparr>, Ok (AEvent (EvPublishRejected e)))]
      @ (CPublish memo_options [1], ?c\<lparr>cl_raw := r2\<rparr>, ?x) # []) c'"
    using exec_publish [OF r1(1)] exec_poll [OF r2(1) [unfolded c2]] exec_publish [OF r3]
    by (auto intro!: client_cons client_nil)
  have d: "call_publishes 1 ?x" "call_allocates 1 ?x" by (simp_all add: call_publishes_def call_allocates_def)
  from client_identifier_not_reused [OF last_takes_place_ok inv run d] run d show ?thesis by blast
qed

end
