(* ===== verification/Mqtt_Rerelease.thy ===== *)
theory Mqtt_Rerelease
  imports Mqtt_Completion
begin

text \<open>
  \<open>rerelease\<close> on a connection that works, and the limits that the client enforces.
\<close>

section \<open>Retransmitting PUBREL packets\<close>

text \<open>The publications whose PUBREL is due, and what becomes of an entry.\<close>

definition due_releases :: "(pid \<times> local_publish_state) list \<Rightarrow> pid list" where
  "due_releases xs = map fst (filter (\<lambda>e. snd e = DueRel Automatic) xs)"

definition release_entry :: "pid \<times> local_publish_state \<Rightarrow> pid \<times> local_publish_state" where
  "release_entry e = (if snd e = DueRel Automatic then (fst e, AwaitComp Automatic) else e)"

definition releases_bytes :: "pid list \<Rightarrow> u8 list" where
  "releases_bytes ps = concat (map (\<lambda>p. puback_bytes Rel (puback_minimal p RcSuccess)) ps)"

lemma due_releases_simps [simp]:
  "due_releases [] = []"
  "due_releases (e # xs) = (if snd e = DueRel Automatic then [fst e] else []) @ due_releases xs"
  by (simp_all add: due_releases_def)

lemma releases_bytes_simps [simp]:
  "releases_bytes [] = []" "releases_bytes (p # ps) = puback_bytes Rel (puback_minimal p RcSuccess) @ releases_bytes ps"
  by (simp_all add: releases_bytes_def)

context connection
begin

lemma send_only_at:
  assumes "c_at inp sent (length bs + j) l (cl_raw c)" and "writes (pw (tr_write tr)) bs"
    and "unread.keeps (map_err f (pw (tr_write tr)))"
  shows "\<exists>r'. send_only tr (\<lambda>wr. map_err f (pw wr)) c = (Ok (), c\<lparr>cl_raw := r'\<rparr>) \<and> c_at inp (sent @ bs) j l r'"
proof -
  obtain n where n: "ra_n (cl_raw c) = NOk n" "header_fresh (ra_header (cl_raw c))" "bytes n = inp" "out n = sent"
    "room n (length bs + j)" "free (ra_buf (cl_raw c)) l"
    using assms(1) by (auto simp: conn_at_def)
  obtain n1 where n1: "pw (tr_write tr) n = (Ok (), n1)" "out n1 = sent @ bs" "room n1 j"
    using writesD [OF assms(2) n(5)] n(4) by metis
  then have m: "map_err f (pw (tr_write tr)) n = (Ok (), n1)" by simp
  have "bytes n1 = bytes n" using unread.keepsD [OF assms(3) m] by simp
  then show ?thesis using n n1 m
    by (auto simp: send_only_def on_raw_def raw_send_def with_net_def conn_at_def)
qed

lemma send_release_at:
  assumes "c_at inp sent (6 + j) l (cl_raw c)" and "pid_valid p"
  shows "\<exists>r'. send_only tr (\<lambda>wr. puback_send wr Rel (puback_minimal p RcSuccess)) c = (Ok (), c\<lparr>cl_raw := r'\<rparr>)
    \<and> c_at inp (sent @ puback_bytes Rel (puback_minimal p RcSuccess)) j l r'"
proof -
  have "puback_ok Rel (puback_minimal p RcSuccess)"
    using assms(2) by (simp add: minimal_ok pk_reason_code_allowed_def is_rel_comp_reason_code_def)
  from send_only_at [where pw = "\<lambda>wr. puback_write wr Rel (puback_minimal p RcSuccess)" and f = tx_of_write
      and bs = "puback_bytes Rel (puback_minimal p RcSuccess)", OF _ writes_puback [OF this, folded puback_bytes_def]]
  show ?thesis using assms(1) unread.keeps_sends(3) by (simp add: puback_send_def)
qed

lemma flush_at:
  assumes "c_at inp sent j l (cl_raw c)"
  shows "\<exists>r'. flush tr c = (Ok (), c\<lparr>cl_raw := r'\<rparr>) \<and> c_at inp sent j l r'"
proof -
  obtain n where n: "ra_n (cl_raw c) = NOk n" "header_fresh (ra_header (cl_raw c))" "bytes n = inp" "out n = sent"
    "room n j" "free (ra_buf (cl_raw c)) l"
    using assms by (auto simp: conn_at_def)
  then show ?thesis using flush_ok [of n]
    by (auto simp: flush_def on_raw_def raw_flush_def with_net_def conn_at_def)
qed

lemma rerelease_step_at:
  assumes "outbound_publishes (cl_session c) = xs @ e # ys" and "pid_valid (fst e)"
    and "c_at inp sent (6 * length (due_releases [e]) + j) l (cl_raw c)"
  shows "\<exists>r'. rerelease_step tr (length xs) c
      = (Ok (), c\<lparr>cl_session := (cl_session c)\<lparr>outbound_publishes := xs @ release_entry e # ys\<rparr>, cl_raw := r'\<rparr>)
    \<and> c_at inp (sent @ releases_bytes (due_releases [e])) j l r'"
proof (cases "snd e = DueRel Automatic")
  case False
  then have "rerelease_step tr (length xs) c = (Ok (), c)"
    using assms(1) by (simp add: rerelease_step_def outbound_handle_at_def gets_def ret_def)
  then show ?thesis using assms(1,3) False
    by (intro exI [of _ "cl_raw c"]) (simp add: release_entry_def flip: assms(1))
next
  case True
  let ?s = "(cl_session c)\<lparr>outbound_publishes := xs @ release_entry e # ys\<rparr>"
  obtain r' where "send_only tr (\<lambda>wr. puback_send wr Rel (puback_minimal (fst e) RcSuccess)) (c\<lparr>cl_session := ?s\<rparr>)
      = (Ok (), c\<lparr>cl_session := ?s, cl_raw := r'\<rparr>)"
    "c_at inp (sent @ puback_bytes Rel (puback_minimal (fst e) RcSuccess)) j l r'"
    using send_release_at [of inp sent j l "c\<lparr>cl_session := ?s\<rparr>" "fst e"] assms(2,3) True by auto
  then show ?thesis using assms(1) True
    by (intro exI [of _ r'])
       (simp add: rerelease_step_def outbound_handle_at_def gets_def on_session_def oh_outbound_pubrel_def
        outbound_set_def asserts_def ret_def release_entry_def Let_def)
qed

end

lemma rerelease_loop_at:
  assumes conn: "connection tr out room bytes pb free"
  shows "outbound_publishes (cl_session c) = xs @ e # ys \<Longrightarrow> \<forall>e' \<in> set (e # ys). pid_valid (fst e')
    \<Longrightarrow> conn_at bytes out room free inp sent (6 * length (due_releases (e # ys)) + j) l (cl_raw c)
    \<Longrightarrow> \<exists>r'. rerelease_loop tr (length xs) c
        = (Ok (), c\<lparr>cl_session := (cl_session c)\<lparr>outbound_publishes := xs @ map release_entry (e # ys)\<rparr>, cl_raw := r'\<rparr>)
      \<and> conn_at bytes out room free inp (sent @ releases_bytes (due_releases (e # ys))) j l r'"
proof (induction ys arbitrary: xs e c sent)
  case Nil
  obtain r' where "rerelease_step tr (length xs) c
      = (Ok (), c\<lparr>cl_session := (cl_session c)\<lparr>outbound_publishes := xs @ [release_entry e]\<rparr>, cl_raw := r'\<rparr>)"
    "conn_at bytes out room free inp (sent @ releases_bytes (due_releases [e])) j l r'"
    using connection.rerelease_step_at [OF conn Nil.prems(1) _ Nil.prems(3)] Nil.prems(2) by auto
  then show ?case
    by (intro exI [of _ r'])
       (simp add: rerelease_loop.simps [of tr _ c] outbound_next_def outbound_handle_at_def Let_def)
next
  case (Cons y ys)
  have "conn_at bytes out room free inp sent
      (6 * length (due_releases [e]) + (6 * length (due_releases (y # ys)) + j)) l (cl_raw c)"
    using Cons.prems(3) by (simp add: algebra_simps split: if_splits)
  from connection.rerelease_step_at [OF conn Cons.prems(1) _ this] Cons.prems(2)
  obtain r1 where r1: "rerelease_step tr (length xs) c
      = (Ok (), c\<lparr>cl_session := (cl_session c)\<lparr>outbound_publishes := xs @ release_entry e # y # ys\<rparr>, cl_raw := r1\<rparr>)"
    "conn_at bytes out room free inp (sent @ releases_bytes (due_releases [e]))
      (6 * length (due_releases (y # ys)) + j) l r1"
    by auto
  let ?c = "c\<lparr>cl_session := (cl_session c)\<lparr>outbound_publishes := xs @ release_entry e # y # ys\<rparr>, cl_raw := r1\<rparr>"
  obtain r2 where "rerelease_loop tr (length (xs @ [release_entry e])) ?c
      = (Ok (), ?c\<lparr>cl_session := (cl_session ?c)\<lparr>outbound_publishes := (xs @ [release_entry e]) @ map release_entry (y # ys)\<rparr>, cl_raw := r2\<rparr>)"
    "conn_at bytes out room free inp ((sent @ releases_bytes (due_releases [e])) @ releases_bytes (due_releases (y # ys))) j l r2"
    using Cons.IH [of ?c "xs @ [release_entry e]" y "sent @ releases_bytes (due_releases [e])"] Cons.prems(2) r1(2) by auto
  then show ?case
    using r1(1) by (intro exI [of _ r2])
      (auto simp: rerelease_loop.simps [of tr _ c] outbound_next_def outbound_handle_at_def Let_def split: if_splits)
qed

text \<open>C17: \<open>rerelease\<close> ends, and does what it is for. On a connection that works, it sends a PUBREL for exactly
  the outgoing publications whose PUBREL is due and whose acknowledgement is automatic, once each and
  in the order of the session, and those wait for their PUBCOMP afterwards; every other entry is left as
  it was, and nothing else is written or read.\<close>

theorem rerelease_sends_due:
  assumes "connection tr out room bytes pb free" and "session_inv (cl_session c)"
    and "outbound_publishes (cl_session c) = xs"
    and "conn_at bytes out room free inp sent (6 * length (due_releases xs) + j) l (cl_raw c)"
  shows "\<exists>r'. client_rerelease tr c
      = (Ok (), c\<lparr>cl_session := (cl_session c)\<lparr>outbound_publishes := map release_entry xs\<rparr>, cl_raw := r'\<rparr>)
    \<and> conn_at bytes out room free inp (sent @ releases_bytes (due_releases xs)) j l r'"
proof (cases xs)
  case Nil
  have "(cl_session c)\<lparr>outbound_publishes := map release_entry xs\<rparr> = cl_session c"
    using assms(3) Nil by (cases "cl_session c") simp
  then show ?thesis using assms(3,4) Nil
    by (intro exI [of _ "cl_raw c"]) (simp add: client_rerelease_def outbound_iter_def gets_def ret_def)
next
  case (Cons e ys)
  have "\<forall>e' \<in> set (e # ys). pid_valid (fst e')" using assms(2,3) Cons by (auto simp: session_inv_def)
  from rerelease_loop_at [OF assms(1) _ this, of c "[]" inp sent j l] assms(3,4) Cons
  obtain r1 where r1: "rerelease_loop tr 0 c
      = (Ok (), c\<lparr>cl_session := (cl_session c)\<lparr>outbound_publishes := map release_entry xs\<rparr>, cl_raw := r1\<rparr>)"
    "conn_at bytes out room free inp (sent @ releases_bytes (due_releases xs)) j l r1"
    by auto
  from connection.flush_at [OF assms(1), of inp "sent @ releases_bytes (due_releases xs)" j l
      "c\<lparr>cl_session := (cl_session c)\<lparr>outbound_publishes := map release_entry xs\<rparr>, cl_raw := r1\<rparr>"] r1(2)
  show ?thesis using r1(1) assms(3) Cons
    by (auto simp: client_rerelease_def outbound_iter_def gets_def split: prod.splits)
qed

theorem rerelease_sends_due_witness:
  "let xs = [(3, DueRel Manual), (5, DueRel Automatic), (7, AwaitRec Automatic)];
       c = (slice_client [] 6)\<lparr>cl_session := (session_default 1 2 3)\<lparr>outbound_publishes := xs\<rparr>\<rparr> in
   \<exists>r'. client_rerelease slice_connection c
      = (Ok (), c\<lparr>cl_session := (session_default 1 2 3)\<lparr>outbound_publishes :=
           [(3, DueRel Manual), (5, AwaitComp Automatic), (7, AwaitRec Automatic)]\<rparr>, cl_raw := r'\<rparr>)
    \<and> slice_conn_at [] ([] @ [0x62, 4, 0, 5, 0, 0]) 0 0 r'"
proof -
  let ?xs = "[(3, DueRel Manual), (5, DueRel Automatic), (7, AwaitRec Automatic)]"
  let ?c = "(slice_client [] 6)\<lparr>cl_session := (session_default 1 2 3)\<lparr>outbound_publishes := ?xs\<rparr>\<rparr>"
  have inv: "session_inv (cl_session ?c)" by (simp add: session_inv_def session_default_def pid_valid_def)
  have at: "slice_conn_at [] [] (6 * length (due_releases ?xs) + 0) 0 (cl_raw ?c)"
    using slice_client_at [of 6 6 "[]"] by simp
  have "puback_bytes Rel (puback_minimal 5 RcSuccess) = [0x62, 4, 0, 5, 0, 0]" by code_simp
  then show ?thesis
    using rerelease_sends_due [OF slice_contract inv _ at] by (simp add: Let_def release_entry_def)
qed

end
