(* ===== verification/Mqtt_Client_Limits.thy ===== *)
theory Mqtt_Client_Limits
  imports Mqtt_Arrival
begin

text \<open>
  The limit on the size of incoming packets, two ways in which a server can make the client
  panic, and one in which a message is lost.
\<close>

section \<open>The size of a packet\<close>

lemma accepted_remaining_length:
  assumes "maximum_accepted_remaining_length (MpsLimit m) = Some r" and "n \<le> MAX_ENCODABLE"
    and "encoded_len (Some (VarByteInt n)) = Some k"
  shows "n \<le> r \<longleftrightarrow> k \<le> unat m"
proof -
  have n: "unat n \<le> 268435455" using assms(2) by (simp add: MAX_ENCODABLE_def word_le_nat_alt)
  have "m \<noteq> 0" "m \<noteq> 1" using assms(1) by (auto simp: maximum_accepted_remaining_length_def)
  then have "2 \<le> unat m" by (simp add: word_unat_eq_iff)
  then have "unat (m - 2) = unat m - 2" by (simp add: unat_sub word_le_nat_alt)
  then show ?thesis
    using assms(1,3) n \<open>2 \<le> unat m\<close>
    by (auto simp: maximum_accepted_remaining_length_def encoded_len_def vbi_written_len_def vbi_size_def
        MAX_POSSIBLE_PACKET_SIZE_def MAX_ENCODABLE_def word_le_nat_alt word_less_nat_alt unat_sub
        split: if_splits)
qed

lemma receive_header_config: "receive_header tr c = (x, c') \<Longrightarrow> cl_client_config c' = cl_client_config c"
  by (auto simp: receive_header_def on_raw_def split: prod.splits res.splits)

text \<open>C18: The client rejects exactly the packets that are larger than the maximum packet size it announced.
  When the remaining length that it accepts was computed from the limit \<open>m\<close> given to \<open>connect\<close>, and a
  header arrives whose packet has \<open>k\<close> bytes in all, the fixed header with its variable length field
  included, then \<open>poll_header\<close> returns the header if \<open>k\<close> is at most \<open>m\<close>, and otherwise closes the
  connection with the reason code Packet too large.\<close>

theorem packet_size_limit:
  assumes "maximum_accepted_remaining_length (MpsLimit m)
      = Some (cfg_maximum_accepted_remaining_length (cl_client_config c))"
    and "receive_header tr c = (Ok h, c')" and "header_packet_type h \<noteq> None"
    and "vbi_value (remaining_len h) \<le> MAX_ENCODABLE" and "encoded_len (Some (remaining_len h)) = Some k"
  shows "poll_header tr c = (if k \<le> unat m then (Ok h, c')
     else (Err MeServer, c'\<lparr>cl_raw := close_with (Some RcPacketTooLarge) (cl_raw c')\<rparr>))"
proof -
  obtain n where n: "remaining_len h = VarByteInt n" by (cases "remaining_len h")
  have "n \<le> cfg_maximum_accepted_remaining_length (cl_client_config c') \<longleftrightarrow> k \<le> unat m"
    using accepted_remaining_length [OF assms(1), of n k] assms(4,5) n receive_header_config [OF assms(2)] by simp
  then show ?thesis
    using assms(2,3) n
    by (auto simp: poll_header_def gets_def ret_def reject_def close_def modify_def fail_def bnd_def)
qed

text \<open>The PINGRESP packet has two bytes; PUBACK packets of 129 and 131 bytes are around a limit of 130.\<close>

theorem packet_size_limit_witness:
  "let c = (slice_client [0xD0, 0] 0)\<lparr>cl_client_config := client_config_default
        \<lparr>cfg_maximum_accepted_remaining_length := 127\<rparr>\<rparr>;
       h = \<lparr>type_and_flags = 0xD0, remaining_len = VarByteInt 0\<rparr> in
   \<exists>c'. maximum_accepted_remaining_length (MpsLimit 130) = Some 127 \<and> receive_header slice_connection c = (Ok h, c')
     \<and> poll_header slice_connection c = (Ok h, c')"
proof -
  let ?c = "(slice_client [0xD0, 0] 0)\<lparr>cl_client_config := client_config_default
        \<lparr>cfg_maximum_accepted_remaining_length := 127\<rparr>\<rparr>"
  let ?h = "\<lparr>type_and_flags = 0xD0, remaining_len = VarByteInt 0\<rparr>"
  have h: "header_packet_type ?h \<noteq> None" "vbi_value (remaining_len ?h) \<le> MAX_ENCODABLE"
    "encoded_len (Some (remaining_len ?h)) = Some 2" and b: "fixed_header_bytes ?h = [0xD0, 0]"
    by code_simp+
  have m: "maximum_accepted_remaining_length (MpsLimit 130) = Some 127"
    by (simp add: maximum_accepted_remaining_length_def)
  then have m': "maximum_accepted_remaining_length (MpsLimit 130)
      = Some (cfg_maximum_accepted_remaining_length (cl_client_config ?c))" by simp
  have "slice_conn_at (fixed_header_bytes ?h @ []) [] 0 0 (cl_raw ?c)"
    unfolding b using slice_client_at [of 0 0 "[0xD0, 0]"] by simp
  from connection.receive_header_at [OF slice_contract this h(1,2)]
  obtain c' where r: "receive_header slice_connection ?c = (Ok ?h, c')" by blast
  show ?thesis using packet_size_limit [OF m' r h] m r by (simp add: Let_def)
qed

section \<open>Panics that a server can cause\<close>

text \<open>C37: A PUBCOMP packet with the reason code Packet identifier not found, which MQTT 5 and the decoder of
  this client allow, makes \<open>poll\<close> panic when its publication waits for it: the session reports that the
  publication was rejected, and \<open>poll_body\<close> takes that event to be unreachable.\<close>

theorem pubcomp_not_found_panics:
  assumes "connection tr out room bytes pb free" and "swap_remove_ok sr" and "session_inv (cl_session c)"
    and "local_entry (cl_session c) p = Some (AwaitComp m)"
    and "accepts_ack c Comp q" and "pa_packet_identifier q = p" and "pa_reason_code q = RcPacketIdentifierNotFound"
    and "conn_at bytes out room free (puback_bytes Comp q @ rest) sent j (puback_memory q + l) (cl_raw c)"
  shows "fst (poll sr tr pb c) = Panic"
proof -
  let ?h = "puback_header Comp q" and ?b = "puback_body_bytes q"
  have ok: "puback_ok Comp q" using assms(5) by (simp add: accepts_ack_def)
  have len: "length ?b \<le> 268435455" using puback_lengths [OF ok] by simp
  have v: "vbi_value (remaining_len ?h) = word_of_nat (length ?b)" by (simp add: puback_header_def fixed_header_new_def)
  obtain r1 where r1: "poll_header tr c = (Ok ?h, c\<lparr>cl_raw := r1\<rparr>)"
    "conn_at bytes out room free (?b @ rest) sent j (puback_memory q + l) r1"
    using connection.poll_header_at [OF assms(1), of ?h "?b @ rest" sent j "puback_memory q + l" c] assms(5,8) v vbi_small [OF len]
    by (auto simp: puback_bytes_def header_type_puback accepts_ack_def)
  obtain r2 where r2: "receive_ack tr pb Comp ?h (c\<lparr>cl_raw := r1\<rparr>) = (Ok q, c\<lparr>cl_raw := r2\<rparr>)"
    using connection.receive_ack_at [OF assms(1), of q rest sent j l "c\<lparr>cl_raw := r1\<rparr>" Comp] r1(2) assms(5)
    by (auto simp: accepts_ack_def)
  have "\<not> is_success RcPacketIdentifierNotFound" by (simp add: is_success_def is_erroneous_def)
  then obtain s' where s': "inbound_pubcomp sr (cl_session c) p (pa_reason_code q) = Some ((RNone, SmRejected), s')"
    using vector_removal.inbound_pubcomp_refines [OF vector_removal.intro [OF assms(2)] assms(3), of p "pa_reason_code q"] assms(4,7)
    by (auto simp: local_pubcomp_def)
  then have "fst (poll_pubcomp sr tr pb ?h (c\<lparr>cl_raw := r1\<rparr>)) = Panic"
    using r2 assms(6) by (simp add: poll_pubcomp_def on_session_def ret_def crash_def bnd_def)
  then show ?thesis using r1(1) by (simp add: poll_def poll_body_def header_type_puback pk_packet_type_def)
qed

theorem pubcomp_not_found_panics_witness:
  "fst (slice_poll ((slice_client (puback_bytes Comp (puback_minimal 5 RcPacketIdentifierNotFound) @ []) 0)
      \<lparr>cl_session := (session_default 1 2 2)\<lparr>outbound_publishes := [(5, AwaitComp Automatic)]\<rparr>\<rparr>)) = Panic"
proof -
  let ?q = "puback_minimal 5 RcPacketIdentifierNotFound"
  let ?c = "(slice_client (puback_bytes Comp ?q @ []) 0)
      \<lparr>cl_session := (session_default 1 2 2)\<lparr>outbound_publishes := [(5, AwaitComp Automatic)]\<rparr>\<rparr>"
  have inv: "session_inv (cl_session ?c)" by (simp add: session_inv_def session_default_def pid_valid_def)
  have e: "local_entry (cl_session ?c) 5 = Some (AwaitComp Automatic)" by simp
  have acc: "accepts_ack ?c Comp ?q"
    using slice_client_accepts_ack [of 5 Comp RcPacketIdentifierNotFound "puback_bytes Comp ?q @ []" 0]
    by (simp add: accepts_ack_def pid_valid_def pk_reason_code_allowed_def is_rel_comp_reason_code_def)
  have at: "slice_conn_at (puback_bytes Comp ?q @ []) [] 0 (puback_memory ?q + 0) (cl_raw ?c)"
    using slice_client_at [of 0 0] by simp
  show ?thesis
    by (rule pubcomp_not_found_panics [OF slice_contract last_takes_place_ok inv e acc minimal_fields(1,2) at])
qed

lemma connack_session_present:
  assumes "handle_connack options i ca c = (Ok cn, c')" and "ca_session_present ca" and "ca_receive_maximum ca = Some m"
  shows "cl_session c' = session_reconnect (cl_session c)" and "srv_receive_maximum (cl_server_config c') = m"
    and "MAX_USER_PROPERTIES c' = MAX_USER_PROPERTIES c"
proof -
  have "srv_receive_maximum (server_config_of ca s) = m" for s
    using assms(3) by (simp add: server_config_of_def set_if_def)
  then show "cl_session c' = session_reconnect (cl_session c)" and "srv_receive_maximum (cl_server_config c') = m"
    and "MAX_USER_PROPERTIES c' = MAX_USER_PROPERTIES c"
    using assms(1,2)
    by (auto simp: handle_connack_def reject_def close_def modify_def fail_def ret_def on_session_def
        split: if_splits option.splits)
qed

lemma quota_panics:
  assumes "session_inv (cl_session c)"
    and "unat (srv_receive_maximum (cl_server_config c)) < length (outbound_publishes (cl_session c))"
  shows "remaining_send_quota c = None"
proof -
  let ?n = "length (outbound_publishes (cl_session c))"
  have n: "?n \<le> 65535" using assms(1) by (simp add: session_inv_def)
  then have "\<not> word_of_nat ?n \<le> srv_receive_maximum (cl_server_config c)"
    using assms(2) by (simp add: word_le_nat_alt unat_of_nat)
  then show ?thesis using n by (simp add: remaining_send_quota_def active_outbound_publishes_def Let_def)
qed

text \<open>C38: When a client resumes a session and the CONNACK announces a Receive Maximum that is smaller than the
  number of publications that are in flight, which MQTT 5 allows, then the next \<open>publish\<close> of Quality of
  Service 1 or 2 panics, where it should return that the send quota is exceeded: the remaining quota
  is computed by a subtraction that underflows.\<close>

theorem send_quota_underflow:
  fixes tr :: "('n, 'e, 'k) transport" and c :: "('n, 'b) client"
  assumes "session_inv (cl_session c)" and "handle_connack connect_options i ca c = (Ok cn, c')"
    and "ca_session_present ca" and "ca_receive_maximum ca = Some m"
    and "unat m < length (outbound_publishes (cl_session c))"
    and "po_qos options \<noteq> AtMostOnce" and "po_ack_mode options = Automatic"
    and "length (po_user_properties options) \<le> MAX_USER_PROPERTIES c" and "supported (cl_server_config c') options"
  shows "client_publish tr options message c' = (Panic, c')"
proof -
  note c' = connack_session_present [OF assms(2,3,4)]
  have "session_inv (cl_session c')" "length (outbound_publishes (cl_session c')) = length (outbound_publishes (cl_session c))"
    using assms(1) reconnect_inv [OF assms(1)] by (simp_all add: c'(1) session_reconnect_def)
  then have q: "remaining_send_quota c' = None" using assms(5) by (simp add: quota_panics c'(2))
  have "po_qos options > AtMostOnce" using assms(6) by (cases "po_qos options") (simp_all add: less_qos_def)
  moreover have "check_supported options c' = (Ok () :: ('k mqtt_error, _) res, c')"
    by (rule check_supported_ok [OF assms(9)])
  ultimately show ?thesis
    using assms(7,8) q c'(3)
    by (simp add: client_publish_def assert_user_properties_def asserts_def ensure_def gets_def ret_def crash_def unwrap_def)
qed

definition resumed_connack :: connack_packet where
  "resumed_connack =
     \<lparr>ca_session_present = True, ca_reason_code = RcSuccess, ca_session_expiry_interval = None,
      ca_receive_maximum = Some 1, ca_maximum_qos = None, ca_retain_available = None,
      ca_maximum_packet_size = None, ca_assigned_client_identifier = None, ca_topic_alias_maximum = None,
      ca_reason_string = None, ca_user_properties = [], ca_wildcard_subscription_available = None,
      ca_subscription_identifier_available = None, ca_shared_subscription_available = None,
      ca_server_keep_alive = None, ca_response_information = None, ca_server_reference = None\<rparr>"

theorem send_quota_underflow_witness:
  "\<exists>cn c'. handle_connack connect_options_new (Some [0x61]) resumed_connack
       ((slice_client [] 0)\<lparr>cl_session := (session_default 1 2 2)
          \<lparr>outbound_publishes := [(1, AwaitRec Automatic), (2, AwaitRec Automatic)]\<rparr>\<rparr>)
       = (Ok cn :: (bool mqtt_error, _) res, c')
     \<and> client_publish slice_connection memo_options [1] c' = (Panic, c')"
proof -
  let ?c = "(slice_client [] 0)\<lparr>cl_session := (session_default 1 2 2)
      \<lparr>outbound_publishes := [(1, AwaitRec Automatic), (2, AwaitRec Automatic)]\<rparr>\<rparr>"
  have inv: "session_inv (cl_session ?c)" by (simp add: session_inv_def session_default_def pid_valid_def)
  obtain cn c' where c': "handle_connack connect_options_new (Some [0x61]) resumed_connack ?c
      = (Ok cn :: (bool mqtt_error, _) res, c')"
    "cl_server_config c' = server_config_of resumed_connack server_config_default"
    by (simp add: handle_connack_def connect_options_new_def resumed_connack_def is_success_def is_erroneous_def
        on_session_def modify_def ret_def slice_client_def idle_client_def)
  have sup: "supported (cl_server_config c') memo_options"
    by (simp add: c'(2) supported_def server_config_of_def set_if_def resumed_connack_def server_config_default_def
        memo_options_simps)
  have "client_publish slice_connection memo_options [1] c' = (Panic, c')"
    by (rule send_quota_underflow [where m = 1, OF inv c'(1) _ _ _ _ _ _ sup])
       (simp_all add: resumed_connack_def memo_options_simps)
  then show ?thesis using c'(1) by blast
qed

section \<open>A message that is lost\<close>

text \<open>The slice connection with a full writer.\<close>

interpretation slice_writer_kept: read_frame "\<lambda>n n'. snd n' = snd n" "tr_read slice_connection"
  by unfold_locales (auto intro!: frame.keepsI simp: frame_def slice_connection_read)

lemma slice_full_write: "b \<noteq> [] \<Longrightarrow> write_slice (tr_write slice_connection) b (s, slice_writer_new [])
    = (Err WriteZero, (s, slice_writer_new []))"
  by (subst write_slice.simps) (simp add: slice_connection_def slice_write_def slice_writer_new_def)

lemma slice_full_respond:
  assumes "ra_n (cl_raw c) = NOk (s, slice_writer_new [])"
  shows "\<exists>r. respond slice_connection Rec 5 RcSuccess c = (Err (MeNetwork False), c\<lparr>cl_raw := r\<rparr>)"
proof -
  have ok: "puback_ok Rec (puback_minimal 5 RcSuccess)"
    by (simp add: minimal_ok pid_valid_def pk_reason_code_allowed_def is_ack_rec_reason_code_def)
  have "puback_send (tr_write slice_connection) Rec (puback_minimal 5 RcSuccess) (s, slice_writer_new [])
      = (Err TxWriteZero, (s, slice_writer_new []))"
    by (simp add: puback_send_def puback_write_def puback_lengths(1,2) [OF ok] write_fixed_header_def write_u8_def
        slice_full_write map_err_def bnd_def)
  then show ?thesis using assms
    by (auto simp: respond_def send_packet_def send_only_def on_raw_def raw_send_def with_net_def handle_tx_def
        slice_connection_def bnd_def)
qed

lemma slice_recv_body:
  assumes "slice_writer_kept.along.keeps (receive h)" and "ra_n r = NOk n"
    and "recv_body slice_connection receive h r = (Ok v, r')"
  shows "\<exists>s. ra_n r' = NOk (s, snd n)"
proof -
  obtain x br where x: "receive h (body_reader_new n (ra_buf r) (vbi_size (remaining_len h))) = (x, br)" by fastforce
  then have w: "snd (br_r br) = snd n"
    using slice_writer_kept.along.keepsD [OF assms(1)] by (auto simp: slice_writer_kept.along_def body_reader_new_def)
  have "r' = r\<lparr>ra_n := NOk (br_r br), ra_buf := br_buffer br\<rparr>"
    using assms(2,3) x by (cases x) (auto simp: recv_body_def with_net_def dest: handle_rxD)
  then show ?thesis using w by (metis prod.collapse raw.select_convs(1) raw.surjective raw.update_convs(1,2))
qed

text \<open>C39: When the PUBREC of a new message of Quality of Service 2 cannot be sent, \<open>poll\<close> returns the error of
  the network and not the message, but the session has recorded the message as received. After the
  reconnection the message that the server sends again is a duplicate, which the user is told to treat
  like it was not delivered. So the user never gets the message.\<close>

theorem message_lost_with_pubrec:
  fixes tr :: "('n, 'e, 'k) transport" and c :: "('n, 'b) client"
  assumes "session_inv (cl_session c1)"
    and "on_raw (recv_body tr (publish_receive (MAX_SUBSCRIPTION_IDENTIFIERS c) (MAX_USER_PROPERTIES c)
      (tr_read tr) pb) h) c = (Ok p, c1)"
    and "pu_topic p = TrName t" and "pu_identified_qos p = IdExactlyOnce i" and "pid_valid i"
    and "\<not> cl_manual_ack_when c1 (publish_event_of Automatic t p)"
    and "peer_entry (cl_session c1) i = None" and "inbound_room (cl_session c1)"
    and "\<And>s. \<exists>r. respond tr Rec i RcSuccess (c1\<lparr>cl_session := s\<rparr>) = (Err e, c1\<lparr>cl_session := s, cl_raw := r\<rparr>)"
  shows "\<exists>c2. poll_publish tr pb h c = (Err e, c2) \<and> peer_entry (cl_session c2) i = Some (AwaitRel Automatic)
    \<and> (\<forall>m. \<exists>s'. inbound_publish (session_reconnect (cl_session c2)) (IdExactlyOnce i) m
         = Some ((Receive RcSuccess, SmDuplicate Automatic), s'))"
proof -
  obtain s1 where s1: "inbound_publish (cl_session c1) (IdExactlyOnce i) Automatic = Some ((Receive RcSuccess, SmPublish), s1)"
    "peer_update (cl_session c1) i (Some (AwaitRel Automatic)) s1"
    using publish2_step [OF last_takes_place_ok assms(1,7,8,5)] by blast
  obtain r where r: "respond tr Rec i RcSuccess (c1\<lparr>cl_session := s1\<rparr>) = (Err e, c1\<lparr>cl_session := s1, cl_raw := r\<rparr>)"
    using assms(9) by blast
  have iq: "pe_identified_qos (publish_event_of m t p) = IdExactlyOnce i" for m
    using assms(4) by (simp add: publish_event_of_def)
  have "on_session (\<lambda>s. inbound_publish s (IdExactlyOnce i) Automatic) c1
      = (Ok (Receive RcSuccess, SmPublish) :: ('k mqtt_error, _) res, c1\<lparr>cl_session := s1\<rparr>)"
    using s1(1) by (simp add: on_session_def)
  then have "poll_publish tr pb h c = (Err e, c1\<lparr>cl_session := s1, cl_raw := r\<rparr>)"
    using assms(2,3,6) r iq by (simp add: poll_publish_def Let_def gets_def)
  moreover have e1: "peer_entry s1 i = Some (AwaitRel Automatic)" and inv: "session_inv s1"
    using s1(2) by (simp_all add: peer_update_def)
  moreover have "\<exists>s'. inbound_publish (session_reconnect s1) (IdExactlyOnce i) m
      = Some ((Receive RcSuccess, SmDuplicate Automatic), s')" for m
  proof -
    have "peer_entry (session_reconnect s1) i = Some (AwaitPublishExactlyOnce Automatic)"
      using e1 by (simp add: session_reconnect_def map_of_map_states)
    with vector_removal.inbound_publish_refines [OF vector_removal.intro [OF last_takes_place_ok] reconnect_inv [OF inv] _ assms(5),
        of "IdExactlyOnce i" m]
    show ?thesis by (auto simp: peer_publish_def)
  qed
  ultimately show ?thesis by (intro exI [of _ "c1\<lparr>cl_session := s1, cl_raw := r\<rparr>"]) simp
qed

theorem message_lost_with_pubrec_witness:
  "let p = memo (IdExactlyOnce 5); c = slice_client (publish_body_bytes p @ []) 0 in
   \<exists>c2. poll_publish slice_connection (alloc_provide :: nat \<Rightarrow> (unit, unit, u8 list) comp) (publish_header p) c
       = (Err (MeNetwork False), c2)
     \<and> peer_entry (cl_session c2) 5 = Some (AwaitRel Automatic)
     \<and> (\<forall>m. \<exists>s'. inbound_publish (session_reconnect (cl_session c2)) (IdExactlyOnce 5) m
         = Some ((Receive RcSuccess, SmDuplicate Automatic), s'))"
proof -
  let ?p = "memo (IdExactlyOnce 5)" and ?pb = "alloc_provide :: nat \<Rightarrow> (unit, unit, u8 list) comp"
  let ?c = "slice_client (publish_body_bytes ?p @ []) 0" and ?h = "publish_header ?p"
  let ?receive = "publish_receive (MAX_SUBSCRIPTION_IDENTIFIERS ?c) (MAX_USER_PROPERTIES ?c) (tr_read slice_connection) ?pb"
  have v: "pid_valid 5" by (simp add: pid_valid_def)
  have acc: "publish_ok ?p" "length (pu_user_properties ?p) \<le> MAX_USER_PROPERTIES ?c"
    using slice_client_accepts_memo [OF v] by (simp_all add: accepts_publish_def)
  have "vbi_size (remaining_len ?h) = length (publish_body_bytes ?p)"
    by (simp add: publish_header_def fixed_header_new_def vbi_size_def memo_body)
  from connection.on_recv_body_at [where receive = ?receive and c = ?c and tail = "[]" and j = 0 and l = 0, OF slice_contract slice_client_at [OF order_refl]
      packet_body.parses_publish [OF slice_conn.packet_body_axioms acc] slice_conn.written.along.keeps_publish_receive this]
  obtain r1 where run: "on_raw (recv_body slice_connection ?receive ?h) ?c = (Ok ?p, ?c\<lparr>cl_raw := r1\<rparr>)" by blast
  have "\<exists>s. ra_n r1 = NOk (s, slice_writer_new [])"
    using slice_recv_body [where receive = ?receive, OF slice_writer_kept.along.keeps_publish_receive, of "cl_raw ?c" _ ?h ?p r1] run
    by (auto simp: on_raw_def slice_client_def idle_client_def new_disconnected_def split: prod.splits res.splits)
  then have bad: "\<exists>r. respond slice_connection Rec 5 RcSuccess (?c\<lparr>cl_raw := r1\<rparr>\<lparr>cl_session := s\<rparr>)
      = (Err (MeNetwork False), ?c\<lparr>cl_raw := r1\<rparr>\<lparr>cl_session := s, cl_raw := r\<rparr>)" for s
    using slice_full_respond [of "?c\<lparr>cl_raw := r1\<rparr>\<lparr>cl_session := s\<rparr>"] by auto
  show ?thesis
    unfolding Let_def
    by (rule message_lost_with_pubrec [OF _ run _ _ v _ _ _ bad])
       (simp_all add: memo_def session_inv_def session_default_def inbound_room_def)
qed

end
