(* ===== verification/Mqtt_Connection.thy ===== *)
theory Mqtt_Connection
  imports Mqtt_Completion
begin

text \<open>
  What \<open>connect\<close> achieves when the connection works and the server answers with a CONNACK packet: the
  CONNECT packet it writes, and the session and the configuration it leaves. The laws are about every
  transport and buffer provider that keep the contract \<open>connection\<close>.
\<close>

section \<open>The CONNECT packet of the options\<close>

text \<open>What the types of the options promise (strings and binary data are at most 65535 bytes, strings are
  UTF-8) and what the assertions at the start of \<open>connect\<close> ask of the number of user properties.\<close>

definition will_options_ok :: "nat \<Rightarrow> will_options \<Rightarrow> bool" where
  "will_options_ok maxu w \<longleftrightarrow> string_ok (wo_will_topic w) \<and> small_binary (wo_will_message w)
     \<and> pred_option string_ok (wo_content_type w) \<and> pred_option string_ok (wo_response_topic w)
     \<and> pred_option small_binary (wo_correlation_data w)
     \<and> (\<forall>u \<in> set (wo_user_properties w). string_pair_ok u) \<and> length (wo_user_properties w) \<le> maxu"

definition connect_options_ok :: "nat \<Rightarrow> connect_options \<Rightarrow> bool" where
  "connect_options_ok maxu options \<longleftrightarrow> pred_option (will_options_ok maxu) (co_will options)
     \<and> pred_option string_ok (co_user_name options) \<and> pred_option small_binary (co_password options)
     \<and> (\<forall>u \<in> set (co_user_properties options). string_pair_ok u)
     \<and> length (co_user_properties options) \<le> maxu
     \<and> co_maximum_packet_size options \<notin> {MpsLimit 0, MpsLimit 1}"

definition connect_bytes :: "connect_packet \<Rightarrow> u8 list" where
  "connect_bytes p = fixed_header_bytes (fixed_header_new PtConnect 0
     (VarByteInt (word_of_nat (length (connect_body_bytes p))))) @ connect_body_bytes p"

definition connack_header :: "bool \<Rightarrow> reason_code \<Rightarrow> connack_item list \<Rightarrow> fixed_header" where
  "connack_header sp c items =
     fixed_header_new PtConnack 0 (VarByteInt (word_of_nat (length (connack_body sp c items))))"

definition connack_bytes :: "bool \<Rightarrow> reason_code \<Rightarrow> connack_item list \<Rightarrow> u8 list" where
  "connack_bytes sp c items = fixed_header_bytes (connack_header sp c items) @ connack_body sp c items"

text \<open>The CONNACK packet that those bytes mean, when no property is repeated.\<close>

definition connack_of :: "nat \<Rightarrow> bool \<Rightarrow> reason_code \<Rightarrow> connack_item list \<Rightarrow> connack_packet option" where
  "connack_of maxu sp c items = map_option cc_packet (connack_items_set maxu (connack_init sp c) items)"

lemma will_from_ok:
  assumes "will_options_ok maxu w" and "maxu \<le> 1021"
  obtains wi where "will_from maxu w = Some wi" and "will_ok wi"
  using assms by (simp add: will_from_def will_options_ok_def will_ok_def)

lemma connect_packet_ok:
  assumes "connect_options_ok maxu options" and "pred_option string_ok i" and "maxu \<le> 1021"
  shows "\<exists>p. connect_packet_of maxu rcv_max options i = Some p \<and> connect_ok p"
proof -
  have i: "string_ok (case i of None \<Rightarrow> [] | Some i \<Rightarrow> i)"
    using assms(2) by (cases i) (simp_all add: string_ok_def MAX_LENGTH_def)
  show ?thesis
  proof (cases "co_will options")
    case None
    then show ?thesis using assms i
      by (auto simp: connect_packet_of_def Let_def connect_options_ok_def connect_ok_def connect_new_def
          add_user_name_def add_password_def split: option.split)
  next
    case (Some w)
    then have "will_options_ok maxu w" using assms(1) by (simp add: connect_options_ok_def)
    from will_from_ok [OF this assms(3)] obtain wi where "will_from maxu w = Some wi" "will_ok wi" .
    then show ?thesis using assms i Some
      by (auto simp: connect_packet_of_def Let_def connect_options_ok_def connect_ok_def connect_new_def
          add_user_name_def add_password_def add_will_def split: option.split)
  qed
qed

lemma accepted_length_total:
  "m \<notin> {MpsLimit 0, MpsLimit 1} \<Longrightarrow> \<exists>n. maximum_accepted_remaining_length m = Some n"
  by (cases m) (auto simp: maximum_accepted_remaining_length_def)

lemma header_type_connack: "header_packet_type (connack_header sp c items) = Some PtConnack"
  "header_flags (connack_header sp c items) = 0"
  by (simp_all add: connack_header_def fixed_header_new_def header_flags_def header_packet_type_def
      from_type_and_flags_def Let_def)

context packet_body
begin

lemma parses_connack:
  assumes "connack_reason_code_allowed c" and "\<forall>i \<in> set items. connack_item_ok i"
    and "length (connack_body sp c items) \<le> 268435455" and "connack_of maxu sp c items = Some ca"
  shows "body.parses (connack_receive maxu rd pb (connack_header sp c items)) (connack_body sp c items)
    (connack_items_memory maxu (connack_init sp c) items) ca"
proof -
  obtain acc where acc: "connack_items_set maxu (connack_init sp c) items = Some acc" "ca = cc_packet acc"
    using assms(4) by (auto simp: connack_of_def)
  have len: "length (concat (map connack_item_bytes items)) \<le> 268435455"
    using assms(3) by (simp add: connack_body_def Let_def)
  have "body.yields (bnd (cloop maxu (connack_init sp c)) (\<lambda>acc. ret (cc_packet acc)))
      (concat (map connack_item_bytes items)) (connack_items_memory maxu (connack_init sp c) items) (Ok ca)"
    unfolding acc(2) by (simp add: parses_bnd_ret [OF parses_connack_items [OF assms(2) acc(1)]])
  from connack_prefix [OF header_type_connack(2) assms(1) len this]
  show ?thesis by (simp add: connack_body_def Let_def)
qed

end

section \<open>The call\<close>

text \<open>The state in which \<open>connect\<close> handles the CONNACK packet.\<close>

definition connecting :: "connect_options \<Rightarrow> u32 \<Rightarrow> ('n, 'b) raw \<Rightarrow> ('n, 'b) client \<Rightarrow> ('n, 'b) client" where
  "connecting options m r c = c\<lparr>cl_client_config := (cl_client_config c)
     \<lparr>cfg_session_expiry_interval := co_session_expiry_interval options,
      cfg_request_problem_information := co_request_problem_information options,
      cfg_maximum_accepted_remaining_length := m\<rparr>, cl_raw := r\<rparr>"

lemma connecting_start:
  "c\<lparr>cl_raw := r, cl_client_config := (cl_client_config c)
     \<lparr>cfg_session_expiry_interval := co_session_expiry_interval options,
      cfg_request_problem_information := co_request_problem_information options,
      cfg_maximum_accepted_remaining_length := m\<rparr>\<rparr> = connecting options m r c"
  by (cases c) (simp add: connecting_def)

lemma connecting_raw [simp]: "cl_raw (connecting options m r c) = r"
  "(connecting options m r c)\<lparr>cl_raw := r'\<rparr> = connecting options m r' c"
  "cl_session (connecting options m r c) = cl_session c" "MAX_USER_PROPERTIES (connecting options m r c) = MAX_USER_PROPERTIES c"
  "cl_server_config (connecting options m r c) = cl_server_config c"
  "cl_client_config (connecting options m r c) = (cl_client_config c)
     \<lparr>cfg_session_expiry_interval := co_session_expiry_interval options,
      cfg_request_problem_information := co_request_problem_information options,
      cfg_maximum_accepted_remaining_length := m\<rparr>"
  by (simp_all add: connecting_def)

context connection
begin

lemma connect_at:
  assumes "\<not> net_is_ok (ra_n (cl_raw c))" and "header_fresh (ra_header (cl_raw c))"
    and "bytes net = connack_bytes sp rc items @ tail" and "room net (length (connect_bytes p) + j)"
    and "free (ra_buf (cl_raw c)) (connack_items_memory (MAX_USER_PROPERTIES c) (connack_init sp rc) items + l)"
    and "connect_options_ok (MAX_USER_PROPERTIES c) options"
    and "maximum_accepted_remaining_length (co_maximum_packet_size options) = Some m"
    and "connect_packet_of (MAX_USER_PROPERTIES c) (RECEIVE_MAXIMUM (cl_session c)) options i = Some p"
    and "connect_ok p"
    and "connack_reason_code_allowed rc" and "\<forall>i \<in> set items. connack_item_ok i"
    and "length (connack_body sp rc items) \<le> 268435455"
    and "connack_of (MAX_USER_PROPERTIES c) sp rc items = Some ca"
  shows "\<exists>r'. client_connect tr pb net options i c = handle_connack options i ca (connecting options m r' c)
    \<and> c_at tail (out net @ connect_bytes p) j l r'"
proof -
  let ?h = "connack_header sp rc items" and ?b = "connack_body sp rc items"
    and ?k = "connack_items_memory (MAX_USER_PROPERTIES c) (connack_init sp rc) items"
  let ?r = "(drop_net (cl_raw c))\<lparr>ra_n := NOk net\<rparr>"
  let ?c = "\<lambda>r. connecting options m r c"
  have "c_at (connack_bytes sp rc items @ tail) (out net) (length (connect_bytes p) + j) (?k + l) (cl_raw (?c ?r))"
    using assms(2-5) by (simp add: conn_at_def connecting_def drop_net_def split_beta)
  from send_packet_at [where pw = "\<lambda>wr. connect_write wr p" and f = tx_of_write, OF this
      writes_connect [OF assms(9), folded connect_bytes_def]] unread.keeps_sends(1)
  obtain r1 where r1: "send_packet tr (\<lambda>wr. connect_send wr p) (?c ?r) = (Ok (), ?c r1)"
    "c_at (connack_bytes sp rc items @ tail) (out net @ connect_bytes p) j (?k + l) r1"
    by (auto simp: connect_send_def)
  have len: "vbi_value (remaining_len ?h) \<le> MAX_ENCODABLE" "vbi_size (remaining_len ?h) = length ?b"
    using assms(12) vbi_small [OF assms(12)]
    by (simp_all add: connack_header_def fixed_header_new_def vbi_size_def unat_small)
  from receive_header_at [of ?h "?b @ tail" "out net @ connect_bytes p" j "?k + l" "?c r1"] r1(2) len(1)
  obtain r2 where r2: "receive_header tr (?c r1) = (Ok ?h, ?c r2)"
    "c_at (?b @ tail) (out net @ connect_bytes p) j (?k + l) (cl_raw (?c r2))"
    by (auto simp: connack_bytes_def header_type_connack)
  from on_recv_body_at [where receive = "connack_receive (MAX_USER_PROPERTIES c) (tr_read tr) pb", OF r2(2)
      parses_connack [OF assms(10-13)] written.along.keeps_connack_receive len(2)]
  obtain r3 where r3: "on_raw (recv_body tr (connack_receive (MAX_USER_PROPERTIES c) (tr_read tr) pb) ?h) (?c r2)
      = (Ok ca, ?c r3)" "c_at tail (out net @ connect_bytes p) j l r3"
    by auto
  have props: "length (co_user_properties options) \<le> MAX_USER_PROPERTIES c"
    "length (case co_will options of None \<Rightarrow> [] | Some w \<Rightarrow> wo_user_properties w) \<le> MAX_USER_PROPERTIES c"
    using assms(6) by (auto simp: connect_options_ok_def will_options_ok_def split: option.split)
  have net: "on_raw (set_net net :: (_, ('k, unit) raw_error, _) comp) c = (Ok (), c\<lparr>cl_raw := ?r\<rparr>)"
    using assms(1) by (simp add: on_raw_def set_net_def)
  have "client_connect tr pb net options i c = handle_connack options i ca (?c r3)"
    using props net assms(7,8) r1(1) r2(1) r3(1)
    by (simp add: client_connect_def assert_user_properties_def asserts_def gets_def modify_def ret_def
        connecting_start header_type_connack)
  then show ?thesis using r3(2) by blast
qed

end

section \<open>Connections that are established and connections that are refused\<close>

text \<open>The CONNACK packets that a server may send, and those of them that establish a connection.\<close>

definition connack_sent :: "nat \<Rightarrow> bool \<Rightarrow> reason_code \<Rightarrow> connack_item list \<Rightarrow> connack_packet \<Rightarrow> bool" where
  "connack_sent maxu sp rc items ca \<longleftrightarrow> connack_reason_code_allowed rc \<and> (\<forall>i \<in> set items. connack_item_ok i)
     \<and> length (connack_body sp rc items) \<le> 268435455 \<and> connack_of maxu sp rc items = Some ca"

definition connack_protocol :: "connect_options \<Rightarrow> mqtt_string option \<Rightarrow> connack_packet \<Rightarrow> bool" where
  "connack_protocol options i ca \<longleftrightarrow>
     (ca_response_information ca \<noteq> None \<longrightarrow> co_request_response_information options)
     \<and> (is_success (ca_reason_code ca) \<longrightarrow>
          (i \<noteq> None \<or> ca_assigned_client_identifier ca \<noteq> None)
          \<and> (ca_session_present ca \<longrightarrow> \<not> co_clean_start options))"

lemma connack_of_fields:
  assumes "connack_of maxu sp rc items = Some ca"
  shows "ca_session_present ca = sp" and "ca_reason_code ca = rc"
proof -
  have "connack_items_set maxu acc items = Some acc' \<Longrightarrow>
      ca_session_present (cc_packet acc') = ca_session_present (cc_packet acc)
      \<and> ca_reason_code (cc_packet acc') = ca_reason_code (cc_packet acc)" for acc acc'
  proof (induction items arbitrary: acc)
    case (Cons i items)
    then obtain acc1 where a: "connack_item_set maxu acc i = Some acc1" "connack_items_set maxu acc1 items = Some acc'"
      by (auto split: Option.bind_splits)
    then have "ca_session_present (cc_packet acc1) = ca_session_present (cc_packet acc)
        \<and> ca_reason_code (cc_packet acc1) = ca_reason_code (cc_packet acc)"
      by (cases i) (auto simp: once_def split: if_splits option.splits)
    then show ?case using Cons.IH [OF a(2)] by simp
  qed simp
  then show "ca_session_present ca = sp" "ca_reason_code ca = rc"
    using assms by (auto simp: connack_of_def connack_init_def)
qed

lemma connect_setup:
  assumes "connection tr out room bytes pb free" and "\<not> net_is_ok (ra_n (cl_raw c))"
    and "header_fresh (ra_header (cl_raw c))" and "MAX_USER_PROPERTIES c \<le> 1021"
    and "connect_options_ok (MAX_USER_PROPERTIES c) options" and "pred_option string_ok i"
    and "connect_packet_of (MAX_USER_PROPERTIES c) (RECEIVE_MAXIMUM (cl_session c)) options i = Some p"
    and "connack_sent (MAX_USER_PROPERTIES c) sp rc items ca"
    and "bytes net = connack_bytes sp rc items @ rest" and "room net (length (connect_bytes p) + j)"
    and "free (ra_buf (cl_raw c)) (connack_items_memory (MAX_USER_PROPERTIES c) (connack_init sp rc) items + l)"
  shows "\<exists>m r. maximum_accepted_remaining_length (co_maximum_packet_size options) = Some m
    \<and> client_connect tr pb net options i c = handle_connack options i ca (connecting options m r c)
    \<and> conn_at bytes out room free rest (out net @ connect_bytes p) j l r"
proof -
  obtain m where m: "maximum_accepted_remaining_length (co_maximum_packet_size options) = Some m"
    using accepted_length_total assms(5) by (auto simp: connect_options_ok_def)
  have "connect_ok p" using connect_packet_ok [OF assms(5,6,4), of "RECEIVE_MAXIMUM (cl_session c)"] assms(7) by simp
  then show ?thesis
    using connection.connect_at [OF assms(1-3,9-11,5) m assms(7)] assms(8) m by (auto simp: connack_sent_def)
qed

text \<open>C7: \<open>connect\<close> establishes a connection. When the options are within their limits and the server answers
  with a CONNACK packet that reports success and keeps the protocol (a session is present only if the
  client asked for it, the client has an identifier from itself or from the server), then the call
  writes exactly the CONNECT packet of the options, takes exactly the CONNACK packet, returns what it
  says, and continues the session if the server has it and forgets it otherwise. The values of the
  server replace the known ones, and what it leaves out stays as it was; its keep alive and session
  expiry override those of the client, and the limit for incoming packets is the one that was
  announced. So with every transport and buffer provider that keep their contracts, and whatever
  properties the packet carries in whatever order.\<close>

theorem connect_establishes:
  assumes "connection tr out room bytes pb free" and "\<not> net_is_ok (ra_n (cl_raw c))"
    and "header_fresh (ra_header (cl_raw c))" and "MAX_USER_PROPERTIES c \<le> 1021"
    and "connect_options_ok (MAX_USER_PROPERTIES c) options" and "pred_option string_ok i"
    and "connect_packet_of (MAX_USER_PROPERTIES c) (RECEIVE_MAXIMUM (cl_session c)) options i = Some p"
    and "connack_sent (MAX_USER_PROPERTIES c) sp RcSuccess items ca" and "connack_protocol options i ca"
    and "bytes net = connack_bytes sp RcSuccess items @ rest" and "room net (length (connect_bytes p) + j)"
    and "free (ra_buf (cl_raw c)) (connack_items_memory (MAX_USER_PROPERTIES c) (connack_init sp RcSuccess) items + l)"
  shows "\<exists>cn c' m. client_connect tr pb net options i c = (Ok cn, c')
    \<and> conn_at bytes out room free rest (out net @ connect_bytes p) j l (cl_raw c')
    \<and> cl_session c' = (if sp then session_reconnect (cl_session c) else session_clear (cl_session c))
    \<and> cn_session_present cn = sp
    \<and> Some (cn_client_identifier cn) = (if ca_assigned_client_identifier ca = None then i
                                        else ca_assigned_client_identifier ca)
    \<and> cn_user_properties cn = ca_user_properties ca
    \<and> cn_response_information cn = ca_response_information ca
    \<and> cn_server_reference cn = ca_server_reference ca
    \<and> (let keep = cl_server_config c in cl_server_config c' =
        \<lparr>srv_receive_maximum = (case ca_receive_maximum ca of None \<Rightarrow> srv_receive_maximum keep | Some v \<Rightarrow> v),
         srv_maximum_qos = (case ca_maximum_qos ca of None \<Rightarrow> srv_maximum_qos keep | Some v \<Rightarrow> v),
         srv_retain_supported = (case ca_retain_available ca of None \<Rightarrow> srv_retain_supported keep | Some v \<Rightarrow> v),
         srv_maximum_packet_size = (case ca_maximum_packet_size ca of None \<Rightarrow> srv_maximum_packet_size keep | Some v \<Rightarrow> v),
         srv_topic_alias_maximum = (case ca_topic_alias_maximum ca of None \<Rightarrow> srv_topic_alias_maximum keep | Some v \<Rightarrow> v),
         srv_wildcard_subscription_supported = (case ca_wildcard_subscription_available ca of
             None \<Rightarrow> srv_wildcard_subscription_supported keep | Some v \<Rightarrow> v),
         srv_subscription_identifiers_supported = (case ca_subscription_identifier_available ca of
             None \<Rightarrow> srv_subscription_identifiers_supported keep | Some v \<Rightarrow> v),
         srv_shared_subscription_supported = (case ca_shared_subscription_available ca of
             None \<Rightarrow> srv_shared_subscription_supported keep | Some v \<Rightarrow> v)\<rparr>)
    \<and> cl_shared_config c' =
        \<lparr>shr_keep_alive = (case ca_server_keep_alive ca of None \<Rightarrow> co_keep_alive options | Some v \<Rightarrow> v),
         shr_session_expiry_interval = (case ca_session_expiry_interval ca of
             None \<Rightarrow> co_session_expiry_interval options | Some v \<Rightarrow> v)\<rparr>
    \<and> maximum_accepted_remaining_length (co_maximum_packet_size options) = Some m
    \<and> cl_client_config c' = (cl_client_config c)
        \<lparr>cfg_session_expiry_interval := co_session_expiry_interval options,
         cfg_request_problem_information := co_request_problem_information options,
         cfg_maximum_accepted_remaining_length := m\<rparr>"
proof -
  obtain m r where m: "maximum_accepted_remaining_length (co_maximum_packet_size options) = Some m"
    "client_connect tr pb net options i c = handle_connack options i ca (connecting options m r c)"
    "conn_at bytes out room free rest (out net @ connect_bytes p) j l r"
    using connect_setup [OF assms(1-8,10-12)] by blast
  have ca: "ca_session_present ca = sp" "ca_reason_code ca = RcSuccess"
    using connack_of_fields assms(8) by (auto simp: connack_sent_def)
  obtain k where k: "(case ca_assigned_client_identifier ca of None \<Rightarrow> i | Some a \<Rightarrow> Some a) = Some k"
    using assms(9) ca
    by (cases "ca_assigned_client_identifier ca"; cases i) (auto simp: connack_protocol_def is_success_def is_erroneous_def)
  have id: "Some k = (if ca_assigned_client_identifier ca = None then i else ca_assigned_client_identifier ca)"
    using k by (auto split: option.splits)
  let ?cn = "\<lparr>cn_session_present = sp, cn_client_identifier = k, cn_user_properties = ca_user_properties ca,
       cn_response_information = ca_response_information ca, cn_server_reference = ca_server_reference ca\<rparr>"
    and ?c = "(connecting options m r c)\<lparr>cl_session := if sp then session_reconnect (cl_session c) else session_clear (cl_session c),
       cl_shared_config := shared_config_of options ca, cl_server_config := server_config_of ca (cl_server_config c)\<rparr>"
  have "handle_connack options i ca (connecting options m r c) = (Ok ?cn, ?c)"
    using assms(9) ca unfolding handle_connack_def k
    by (auto simp: connack_protocol_def is_success_def is_erroneous_def on_session_def modify_def ret_def)
  then show ?thesis using m id by (intro exI [of _ ?cn] exI [of _ ?c] exI [of _ m])
    (simp add: server_config_of_def shared_config_of_def set_if_def)
qed

text \<open>A client that was disconnected, its CONNECT packet, and a server that answers it.\<close>

definition hello :: connect_packet where
  "hello = connect_new [0x61] False KaInfinite MpsUnlimited EndOnDisconnect 2 False False []"

definition answer :: "bool \<Rightarrow> reason_code \<Rightarrow> connack_item list \<Rightarrow> slice_reader \<times> slice_writer" where
  "answer sp rc items = (slice_reader_new (connack_bytes sp rc items @ []),
     slice_writer_new (replicate (length (connect_bytes hello)) 0))"

abbreviation slice_connect ::
    "slice_reader \<times> slice_writer \<Rightarrow> (slice_reader \<times> slice_writer, unit) client
     \<Rightarrow> (bool mqtt_error, connected) res \<times> (slice_reader \<times> slice_writer, unit) client" where
  "slice_connect net \<equiv> client_connect slice_connection (alloc_provide :: nat \<Rightarrow> (unit, unit, u8 list) comp) net
     connect_options_new (Some [0x61])"

lemma idle_setup:
  "\<not> net_is_ok (ra_n (cl_raw idle_client))" "header_fresh (ra_header (cl_raw idle_client))"
  "MAX_USER_PROPERTIES idle_client \<le> 1021"
  "connect_options_ok (MAX_USER_PROPERTIES idle_client) connect_options_new"
  "pred_option string_ok (Some [0x61 :: u8])"
  "connect_packet_of (MAX_USER_PROPERTIES idle_client) (RECEIVE_MAXIMUM (cl_session idle_client))
     connect_options_new (Some [0x61]) = Some hello"
  by (simp_all add: idle_client_def new_disconnected_def net_is_ok_def connect_options_ok_def connect_options_new_def
      string_ok_def MAX_LENGTH_def connect_packet_of_def hello_def session_default_def)

lemma answer_setup:
  "slice_bytes (fst (answer sp rc items)) = connack_bytes sp rc items @ []"
  "slice_out (snd (answer sp rc items)) = []"
  "slice_room (snd (answer sp rc items)) (length (connect_bytes hello) + 0)"
  by (simp_all add: answer_def slice_bytes_def slice_reader_new_def slice_out_def slice_writer_new_def slice_room_def)

theorem connect_establishes_witness:
  "\<exists>cn c'. slice_connect (answer True RcSuccess [CiServerKeepAlive 30, CiReceiveMaximum 1]) idle_client = (Ok cn, c')
    \<and> slice_conn_at [] ([] @ connect_bytes hello) 0 0 (cl_raw c')
    \<and> cl_session c' = session_reconnect (session_default 1 2 2)
    \<and> cn_session_present cn \<and> cn_client_identifier cn = [0x61]
    \<and> srv_receive_maximum (cl_server_config c') = 1
    \<and> shr_keep_alive (cl_shared_config c') = KaSeconds 30"
proof -
  let ?items = "[CiServerKeepAlive 30, CiReceiveMaximum 1]"
  let ?ca = "(cc_packet (connack_init True RcSuccess))\<lparr>ca_server_keep_alive := Some (KaSeconds 30),
     ca_receive_maximum := Some 1\<rparr>"
  have "length (concat (map connack_item_bytes ?items)) = 6"
    by (simp add: prop_len_def property_type_written_len_def)
  then have len: "length (connack_body True RcSuccess ?items) = 9"
    unfolding connack_body_def Let_def by (simp add: length_vbi_bytes del: length_concat)
  have sent: "connack_sent (MAX_USER_PROPERTIES idle_client) True RcSuccess ?items ?ca"
    unfolding connack_sent_def len
    by (simp add: connack_of_def connack_init_def once_def connack_reason_code_allowed_def)
  have prot: "connack_protocol connect_options_new (Some [0x61]) ?ca"
    by (simp add: connack_protocol_def connect_options_new_def connack_init_def)
  from connect_establishes [where rest = "[]" and j = 0 and l = 0, OF slice_contract idle_setup sent prot answer_setup(1,3) TrueI]
  show ?thesis
    by (simp add: answer_setup server_config_of_def shared_config_of_def set_if_def connack_init_def idle_client_def)
      (elim exE; auto)
qed

text \<open>C19: \<open>connect\<close> fails cleanly. A CONNACK packet that breaks the protocol (a session that the client asked
  to discard, no client identifier, response information that was not requested) gives a protocol
  error, and a DISCONNECT with that code is due; a refusal of the server gives its reason code, its
  reason and its references, and the connection is dropped. Either way the session and what is known
  of the server stay as they were, so that the next call of \<open>connect\<close> can resume.\<close>

theorem connect_refused:
  assumes "connection tr out room bytes pb free" and "\<not> net_is_ok (ra_n (cl_raw c))"
    and "header_fresh (ra_header (cl_raw c))" and "MAX_USER_PROPERTIES c \<le> 1021"
    and "connect_options_ok (MAX_USER_PROPERTIES c) options" and "pred_option string_ok i"
    and "connect_packet_of (MAX_USER_PROPERTIES c) (RECEIVE_MAXIMUM (cl_session c)) options i = Some p"
    and "connack_sent (MAX_USER_PROPERTIES c) sp rc items ca"
    and "\<not> connack_protocol options i ca \<or> is_erroneous rc"
    and "bytes net = connack_bytes sp rc items @ rest" and "room net (length (connect_bytes p) + j)"
    and "free (ra_buf (cl_raw c)) (connack_items_memory (MAX_USER_PROPERTIES c) (connack_init sp rc) items + l)"
  shows "\<exists>c' n. client_connect tr pb net options i c
      = (Err (if connack_protocol options i ca
              then MeDisconnect rc (ca_reason_string ca) (ca_user_properties ca) (ca_server_reference ca)
              else MeServer), c')
    \<and> ra_n (cl_raw c') = (if connack_protocol options i ca then NTerminated else NFaulted n RcProtocolError)
    \<and> bytes n = rest \<and> out n = out net @ connect_bytes p
    \<and> cl_session c' = cl_session c \<and> cl_server_config c' = cl_server_config c
    \<and> cl_shared_config c' = cl_shared_config c"
proof -
  obtain m r where m: "client_connect tr pb net options i c = handle_connack options i ca (connecting options m r c)"
    "conn_at bytes out room free rest (out net @ connect_bytes p) j l r"
    using connect_setup [OF assms(1-8,10-12)] by blast
  then obtain n where n: "ra_n r = NOk n" "bytes n = rest" "out n = out net @ connect_bytes p"
    by (auto simp: conn_at_def)
  have ca: "ca_session_present ca = sp" "ca_reason_code ca = rc"
    using connack_of_fields assms(8) by (auto simp: connack_sent_def)
  note defs = handle_connack_def reject_def close_def modify_def fail_def close_with_def connecting_def
    drop_net_def is_success_def
  show ?thesis
  proof (cases "connack_protocol options i ca")
    case True
    with assms(9) m n ca show ?thesis by (auto simp: defs connack_protocol_def intro!: exI [of _ n])
  next
    case False
    with m n ca show ?thesis
      by (auto simp: defs connack_protocol_def intro!: exI [of _ n] split: option.splits)
  qed
qed

theorem connect_refused_witness:
  "(\<exists>c' n. slice_connect (answer False RcNotAuthorized []) idle_client
      = (Err (MeDisconnect RcNotAuthorized None [] None), c')
    \<and> ra_n (cl_raw c') = NTerminated \<and> slice_out (snd n) = connect_bytes hello
    \<and> cl_session c' = session_default 1 2 2)"
proof -
  let ?ca = "cc_packet (connack_init False RcNotAuthorized)"
  have len: "length (connack_body False RcNotAuthorized []) = 3"
    by (simp add: connack_body_def length_vbi_bytes)
  have sent: "connack_sent (MAX_USER_PROPERTIES idle_client) False RcNotAuthorized [] ?ca"
    unfolding connack_sent_def len
    by (simp add: connack_of_def connack_reason_code_allowed_def)
  have prot: "connack_protocol connect_options_new (Some [0x61]) ?ca"
    and err: "\<not> connack_protocol connect_options_new (Some [0x61]) ?ca \<or> is_erroneous RcNotAuthorized"
    by (simp_all add: connack_protocol_def connect_options_new_def connack_init_def is_erroneous_def is_success_def)
  from connect_refused [where rest = "[]" and j = 0 and l = 0, OF slice_contract idle_setup sent err answer_setup(1,3) TrueI] prot
  show ?thesis
    by (simp add: answer_setup connack_init_def idle_client_def) blast
qed

end
