(* ===== verification/Mqtt_Subscription.thy ===== *)
theory Mqtt_Subscription
  imports Mqtt_Arrival
begin

text \<open>
  Subscriptions that come to their end: what \<open>subscribe\<close> and \<open>unsubscribe\<close> write when their conditions
  are met, and what \<open>poll\<close> does with the acknowledgement of the server.
\<close>

section \<open>The acknowledgement of the server\<close>

definition suback_header :: "suback_kind \<Rightarrow> pid \<Rightarrow> ack_item list \<Rightarrow> reason_code \<Rightarrow> fixed_header" where
  "suback_header k i items rc =
     fixed_header_new (sk_packet_type k) 0 (VarByteInt (word_of_nat (length (suback_body i items [rc]))))"

definition suback_bytes :: "suback_kind \<Rightarrow> pid \<Rightarrow> ack_item list \<Rightarrow> reason_code \<Rightarrow> u8 list" where
  "suback_bytes k i items rc = fixed_header_bytes (suback_header k i items rc) @ suback_body i items [rc]"

text \<open>The acknowledgement that the client takes, with the reason string and the user properties it has.\<close>

definition accepts_suback ::
    "('n, 'b) client \<Rightarrow> suback_kind \<Rightarrow> pid \<Rightarrow> ack_item list \<Rightarrow> reason_code \<Rightarrow> mqtt_string option
     \<Rightarrow> mqtt_string_pair list \<Rightarrow> bool" where
  "accepts_suback c k i items rc rs us \<longleftrightarrow> pid_valid i \<and> (\<forall>a \<in> set items. ack_item_ok a) \<and> sk_reason_code_allowed k rc
     \<and> ack_items_set (MAX_USER_PROPERTIES c) None [] items = Some (rs, us)
     \<and> length (suback_body i items [rc]) \<le> 268435455
     \<and> word_of_nat (length (suback_body i items [rc]))
         \<le> cfg_maximum_accepted_remaining_length (cl_client_config c)
     \<and> (cfg_request_problem_information (cl_client_config c) \<or> rs = None \<and> us = [])"

abbreviation awaited :: "suback_kind \<Rightarrow> session \<Rightarrow> pid list" where
  "awaited k s \<equiv> (case k of Suback \<Rightarrow> subs s | Unsuback \<Rightarrow> unsubs s)"

definition suback_told :: "suback_kind \<Rightarrow> pid \<Rightarrow> mqtt_string option \<Rightarrow> mqtt_string_pair list \<Rightarrow> reason_code \<Rightarrow> event" where
  "suback_told k i rs us rc =
     (let e = \<lparr>se_packet_identifier = i, se_reason_string = rs, se_user_properties = us, se_reason_code = rc\<rparr>
      in case k of Suback \<Rightarrow> EvSuback e | Unsuback \<Rightarrow> EvUnsuback e)"

lemma header_type_suback: "header_packet_type (suback_header k i items rc) = Some (sk_packet_type k)"
  "header_flags (suback_header k i items rc) = 0"
  by (cases k; simp add: suback_header_def sk_packet_type_def fixed_header_new_def header_flags_def
      header_packet_type_def from_type_and_flags_def Let_def)+

lemma remove_awaited_ok:
  assumes "swap_remove_ok sr" and "session_inv s" and "i \<in> set (awaited k s)"
  shows "\<exists>s'. remove_awaited sr k i s = Some (True, s') \<and> session_inv s'
    \<and> set (awaited k s') = set (awaited k s) - {i}
    \<and> (\<forall>k'. k' \<noteq> k \<longrightarrow> awaited k' s' = awaited k' s)
    \<and> local_entry s' = local_entry s \<and> peer_entry s' = peer_entry s"
proof -
  have d: "distinct (awaited k s)" using assms(2) by (cases k) (simp_all add: session_inv_def)
  obtain n where n: "find_pos (\<lambda>q. q = i) (awaited k s) = Some n"
    using assms(3) find_pos_eq_None [of i "awaited k s"] by blast
  from swap_remove_member [OF assms(1) d n] obtain ys where
    ys: "swap_remove sr (awaited k s) n = Some ys" "distinct ys" "set ys = set (awaited k s) - {i}"
        "length ys \<le> length (awaited k s)" by blast
  show ?thesis
  proof (cases k)
    case Suback
    then have "session_inv (s\<lparr>subs := ys\<rparr>)" using assms(2) ys by (auto simp: session_inv_def)
    then show ?thesis using Suback n ys
      by (auto simp: remove_awaited_def get_sub_handle_def sub_remove_def split: suback_kind.split)
  next
    case Unsuback
    then have "session_inv (s\<lparr>unsubs := ys\<rparr>)" using assms(2) ys by (auto simp: session_inv_def)
    then show ?thesis using Unsuback n ys
      by (auto simp: remove_awaited_def get_unsub_handle_def unsub_remove_def split: suback_kind.split)
  qed
qed

context connection
begin

lemma poll_suback_at:
  assumes at: "c_at (suback_bytes k i items rc @ tail) sent j
      (ack_items_memory (MAX_USER_PROPERTIES c) None [] items + l) (cl_raw c)"
    and ok: "accepts_suback c k i items rc rs us"
    and s: "remove_awaited sr k i (cl_session c) = Some (True, s')"
  shows "\<exists>r'. poll sr tr pb c = (Ok (suback_told k i rs us rc), c\<lparr>cl_session := s', cl_raw := r'\<rparr>)
    \<and> c_at tail sent j l r'"
proof -
  note ok' = ok [unfolded accepts_suback_def]
  let ?h = "suback_header k i items rc" and ?b = "suback_body i items [rc]"
    and ?k = "ack_items_memory (MAX_USER_PROPERTIES c) None [] items"
    and ?v = "\<lparr>sa_packet_identifier = i, sa_reason_string = rs, sa_user_properties = us, sa_reason_codes = [rc]\<rparr>"
  have len: "length ?b \<le> 268435455" and i: "pid_valid i" using ok' by simp_all
  then have h: "vbi_value (remaining_len ?h) = word_of_nat (length ?b)" "vbi_size (remaining_len ?h) = length ?b"
    by (simp_all add: suback_header_def fixed_header_new_def vbi_size_def unat_small)
  obtain r1 where r1: "poll_header tr c = (Ok ?h, c\<lparr>cl_raw := r1\<rparr>)"
    "c_at (?b @ tail) sent j (?k + l) (cl_raw (c\<lparr>cl_raw := r1\<rparr>))"
    using poll_header_at [of ?h "?b @ tail" sent j "?k + l" c] at ok' h(1) vbi_small [OF len]
    by (auto simp: suback_bytes_def header_type_suback)
  have "length (concat (map ack_item_bytes items)) \<le> 268435455"
    using len by (simp add: suback_body_def Let_def)
  then have "body.parses (suback_receive k 1 (MAX_USER_PROPERTIES c) (tr_read tr) pb ?h) ?b ?k ?v"
    using yields_suback [OF header_type_suback(2) i, where codes = "[rc]" and maxf = 1 and k = k
        and maxu = "MAX_USER_PROPERTIES c" and items = items] ok' by simp
  from on_recv_body_at [where receive = "suback_receive k 1 (MAX_USER_PROPERTIES c) (tr_read tr) pb",
      OF r1(2) this written.along.keeps_suback_receive h(2)]
  obtain r2 where r2: "on_raw (recv_body tr (suback_receive k 1 (MAX_USER_PROPERTIES c) (tr_read tr) pb) ?h)
      (c\<lparr>cl_raw := r1\<rparr>) = (Ok ?v, c\<lparr>cl_raw := r2\<rparr>)" "c_at tail sent j l r2"
    by auto
  have "poll_suback sr tr pb k ?h (c\<lparr>cl_raw := r1\<rparr>)
      = (Ok (suback_told k i rs us rc), c\<lparr>cl_session := s', cl_raw := r2\<rparr>)"
    using r2(1) s ok' by (auto simp: poll_suback_def Let_def gets_def check_problem_information_def ret_def on_session_def
        suback_told_def)
  then have "poll sr tr pb c = (Ok (suback_told k i rs us rc), c\<lparr>cl_session := s', cl_raw := r2\<rparr>)"
    using r1(1) by (cases k) (simp_all add: poll_def poll_body_def header_type_suback sk_packet_type_def)
  then show ?thesis using r2(2) by blast
qed

end

section \<open>The request of the client\<close>

definition supports_filter :: "server_config \<Rightarrow> topic_filter \<Rightarrow> subscription_options \<Rightarrow> bool" where
  "supports_filter server t options \<longleftrightarrow>
     (filter_has_wildcard t \<longrightarrow> srv_wildcard_subscription_supported server)
   \<and> (so_subscription_identifier options \<noteq> None \<longrightarrow> srv_subscription_identifiers_supported server)
   \<and> (filter_is_shared t \<longrightarrow> srv_shared_subscription_supported server)"

definition subscribe_bytes :: "subscribe_packet \<Rightarrow> u8 list" where
  "subscribe_bytes p = fixed_header_bytes (fixed_header_new PtSubscribe 2
     (VarByteInt (word_of_nat (length (subscribe_body_bytes p))))) @ subscribe_body_bytes p"

definition unsubscribe_bytes :: "unsubscribe_packet \<Rightarrow> u8 list" where
  "unsubscribe_bytes p = fixed_header_bytes (fixed_header_new PtUnsubscribe 2
     (VarByteInt (word_of_nat (length (unsubscribe_body_bytes p))))) @ unsubscribe_body_bytes p"

definition fits_server :: "('n, 'b) client \<Rightarrow> u8 list \<Rightarrow> bool" where
  "fits_server c bs \<longleftrightarrow>
     word_of_nat (length bs) \<le> maximum_packet_size_as_u32 (srv_maximum_packet_size (cl_server_config c))"

text \<open>What \<open>subscribe\<close> asks for before it decides on the size of the packet \<open>p\<close> with the identifier \<open>i\<close>.
  The limits of strings and of the subscription identifier are those of their types.\<close>

definition subscribable ::
    "('n, 'b) client \<Rightarrow> topic_filter \<Rightarrow> subscription_options \<Rightarrow> pid \<Rightarrow> subscribe_packet \<Rightarrow> bool" where
  "subscribable c t options i p \<longleftrightarrow> MAX_USER_PROPERTIES c \<le> 1021
   \<and> length (so_user_properties options) \<le> MAX_USER_PROPERTIES c \<and> subscribe_ok p
   \<and> supports_filter (cl_server_config c) t options
   \<and> map_option fh_packet_identifier (get_free_handle (cl_session c)) = Some i
   \<and> length (subs (cl_session c)) < SUBSCRIBE_MAXIMUM (cl_session c)
   \<and> (\<exists>f. subscription_filter_new t options = Some f
        \<and> p = \<lparr>su_packet_identifier = i, su_subscription_identifier = so_subscription_identifier options,
               su_user_properties = so_user_properties options, su_subscribe_filters = [f]\<rparr>)"

definition unsubscribable ::
    "('n, 'b) client \<Rightarrow> topic_filter \<Rightarrow> unsubscription_options \<Rightarrow> pid \<Rightarrow> unsubscribe_packet \<Rightarrow> bool" where
  "unsubscribable c t options i p \<longleftrightarrow> MAX_USER_PROPERTIES c \<le> 1021
   \<and> length (uo_user_properties options) \<le> MAX_USER_PROPERTIES c \<and> unsubscribe_ok p
   \<and> map_option fh_packet_identifier (get_free_handle (cl_session c)) = Some i
   \<and> length (unsubs (cl_session c)) < SUBSCRIBE_MAXIMUM (cl_session c)
   \<and> p = \<lparr>un_packet_identifier = i, un_user_properties = uo_user_properties options, un_topic_filters = [t]\<rparr>"

lemma check_size_fits:
  fixes c :: "('n, 'b) client"
  assumes "n \<le> 268435455" and "bs = fixed_header_bytes (fixed_header_new t f (VarByteInt (word_of_nat n))) @ b"
    and "length b = n"
  shows "check_size (Some (VarByteInt (word_of_nat n))) c
    = (if fits_server c bs then (Ok () :: ('k mqtt_error, _) res) else Err MeServerMaximumPacketSizeExceeded, c)"
  using encoded_len_bytes [OF assms(1), of t f] assms(2,3)
  by (simp add: check_size_def gets_def ensure_def ret_def fail_def fits_server_def not_less)

lemma ensure_ok: "b \<Longrightarrow> ensure b e s = (Ok (), s)"
  by (simp add: ensure_def ret_def)

text \<open>The call up to the check of the size.\<close>

lemma subscribe_run:
  fixes tr :: "('n, 'e, 'k) transport" and c :: "('n, 'b) client"
  assumes "subscribable c t options i p"
  shows "client_subscribe tr t options c =
    (let c' = c\<lparr>cl_session := (cl_session c)\<lparr>subs := subs (cl_session c) @ [i]\<rparr>\<rparr> in
     if fits_server c (subscribe_bytes p)
     then thn (send_packet tr (\<lambda>wr. subscribe_send wr p)) (ret i) c'
     else (Err MeServerMaximumPacketSizeExceeded, c'))"
proof -
  obtain h f where p: "MAX_USER_PROPERTIES c \<le> 1021" "length (so_user_properties options) \<le> MAX_USER_PROPERTIES c"
    "subscribe_ok p" "supports_filter (cl_server_config c) t options" "get_free_handle (cl_session c) = Some h"
    "i = fh_packet_identifier h" "length (subs (cl_session c)) < SUBSCRIBE_MAXIMUM (cl_session c)"
    "subscription_filter_new t options = Some f"
    "p = \<lparr>su_packet_identifier = i, su_subscription_identifier = so_subscription_identifier options,
          su_user_properties = so_user_properties options, su_subscribe_filters = [f]\<rparr>"
    using assms by (auto simp: subscribable_def)
  let ?c = "c\<lparr>cl_session := (cl_session c)\<lparr>subs := subs (cl_session c) @ [i]\<rparr>\<rparr>"
  have len: "length (subscribe_body_bytes p) \<le> 268435455"
    "subscribe_remaining_len p = Some (VarByteInt (word_of_nat (length (subscribe_body_bytes p))))"
    using subscribe_lengths [OF p(3)] p(1,2,9) by simp_all
  note size = check_size_fits [where 'k = 'k, OF len(1) subscribe_bytes_def refl, of ?c]
  have fs: "fits_server ?c = fits_server c" by (simp add: fits_server_def fun_eq_iff)
  have new: "subscribe_new 1 (MAX_USER_PROPERTIES c) i (so_subscription_identifier options) (so_user_properties options) [f]
      = Some (Some p)"
    using p(1,9) by (simp add: subscribe_new_def Let_def)
  let ?v = "cl_server_config c"
  have sup: "srv_wildcard_subscription_supported ?v \<or> \<not> filter_has_wildcard t"
    "srv_subscription_identifiers_supported ?v \<or> so_subscription_identifier options = None"
    "srv_shared_subscription_supported ?v \<or> \<not> filter_is_shared t"
    using p(4) by (auto simp: supports_filter_def)
  have "outbound_sub h = (Inr (), (cl_session c)\<lparr>subs := subs (cl_session c) @ [i]\<rparr>)"
    using get_free_handle_Some(1) [OF p(5)] p(6,7) by (simp add: outbound_sub_def Let_def)
  then show ?thesis
    using p(2,5,6,8) new size fs len(2) sup
    by (simp add: client_subscribe_def assert_user_properties_def asserts_def ensure_ok gets_def ret_def
        on_session_def Let_def)
qed

lemma unsubscribe_run:
  fixes tr :: "('n, 'e, 'k) transport" and c :: "('n, 'b) client"
  assumes "unsubscribable c t options i p"
  shows "client_unsubscribe tr t options c =
    (let c' = c\<lparr>cl_session := (cl_session c)\<lparr>unsubs := unsubs (cl_session c) @ [i]\<rparr>\<rparr> in
     if fits_server c (unsubscribe_bytes p)
     then thn (send_packet tr (\<lambda>wr. unsubscribe_send wr p)) (ret i) c'
     else (Err MeServerMaximumPacketSizeExceeded, c'))"
proof -
  obtain h where p: "MAX_USER_PROPERTIES c \<le> 1021" "length (uo_user_properties options) \<le> MAX_USER_PROPERTIES c"
    "unsubscribe_ok p" "get_free_handle (cl_session c) = Some h"
    "i = fh_packet_identifier h" "length (unsubs (cl_session c)) < SUBSCRIBE_MAXIMUM (cl_session c)"
    "p = \<lparr>un_packet_identifier = i, un_user_properties = uo_user_properties options, un_topic_filters = [t]\<rparr>"
    using assms by (auto simp: unsubscribable_def)
  let ?c = "c\<lparr>cl_session := (cl_session c)\<lparr>unsubs := unsubs (cl_session c) @ [i]\<rparr>\<rparr>"
  have len: "length (unsubscribe_body_bytes p) \<le> 268435455"
    "unsubscribe_remaining_len p = Some (VarByteInt (word_of_nat (length (unsubscribe_body_bytes p))))"
    using unsubscribe_lengths [OF p(3)] p(1,2,7) by simp_all
  note size = check_size_fits [where 'k = 'k, OF len(1) unsubscribe_bytes_def refl, of ?c]
  have fs: "fits_server ?c = fits_server c" by (simp add: fits_server_def fun_eq_iff)
  have new: "unsubscribe_new 1 (MAX_USER_PROPERTIES c) i (uo_user_properties options) [t] = Some (Some p)"
    using p(1,7) by (simp add: unsubscribe_new_def Let_def)
  have "outbound_unsub h = (Inr (), (cl_session c)\<lparr>unsubs := unsubs (cl_session c) @ [i]\<rparr>)"
    using get_free_handle_Some(1) [OF p(4)] p(5,6) by (simp add: outbound_unsub_def Let_def)
  then show ?thesis
    using p(2,4,5) new size fs len(2)
    by (simp add: client_unsubscribe_def assert_user_properties_def asserts_def ensure_ok gets_def ret_def
        on_session_def Let_def)
qed

context connection
begin

lemma send_subscribe_at:
  assumes "c_at inp sent (length (subscribe_bytes p) + j) l (cl_raw c)" and "subscribable c' t options i p"
  shows "\<exists>r'. thn (send_packet tr (\<lambda>wr. subscribe_send wr p)) (ret i) c = (Ok i, c\<lparr>cl_raw := r'\<rparr>)
    \<and> c_at inp (sent @ subscribe_bytes p) j l r'"
proof -
  have p: "subscribe_ok p" "length (su_user_properties p) \<le> 1021" "length (su_subscribe_filters p) \<le> 2053"
    using assms(2) by (auto simp: subscribable_def)
  from send_packet_at [where pw = "\<lambda>wr. subscribe_write wr p" and f = tx_of_write, OF assms(1)
      writes_subscribe [OF p, folded subscribe_bytes_def]] unread.keeps_sends(4)
  show ?thesis by (auto simp: subscribe_send_def ret_def)
qed

lemma send_unsubscribe_at:
  assumes "c_at inp sent (length (unsubscribe_bytes p) + j) l (cl_raw c)" and "unsubscribable c' t options i p"
  shows "\<exists>r'. thn (send_packet tr (\<lambda>wr. unsubscribe_send wr p)) (ret i) c = (Ok i, c\<lparr>cl_raw := r'\<rparr>)
    \<and> c_at inp (sent @ unsubscribe_bytes p) j l r'"
proof -
  have p: "unsubscribe_ok p" "length (un_user_properties p) \<le> 1021" "length (un_topic_filters p) \<le> 2053"
    using assms(2) by (auto simp: unsubscribable_def)
  from send_packet_at [where pw = "\<lambda>wr. unsubscribe_write wr p" and f = tx_of_write, OF assms(1)
      writes_unsubscribe [OF p, folded unsubscribe_bytes_def]] unread.keeps_sends(5)
  show ?thesis by (auto simp: unsubscribe_send_def ret_def)
qed

end

lemma suback_poll:
  assumes "connection tr out room bytes pb free" and "swap_remove_ok sr" and "session_inv (cl_session c)"
    and "i \<in> set (awaited k (cl_session c))" and "accepts_suback c k i items rc rs us"
    and "conn_at bytes out room free (suback_bytes k i items rc @ rest) sent j
        (ack_items_memory (MAX_USER_PROPERTIES c) None [] items + l) (cl_raw c)"
  shows "\<exists>s' r'. poll sr tr pb c = (Ok (suback_told k i rs us rc), c\<lparr>cl_session := s', cl_raw := r'\<rparr>)
    \<and> set (awaited k s') = set (awaited k (cl_session c)) - {i}
    \<and> (\<forall>k'. k' \<noteq> k \<longrightarrow> awaited k' s' = awaited k' (cl_session c))
    \<and> local_entry s' = local_entry (cl_session c) \<and> peer_entry s' = peer_entry (cl_session c)
    \<and> conn_at bytes out room free rest sent j l r'"
proof -
  obtain s' where s': "remove_awaited sr k i (cl_session c) = Some (True, s')"
    "set (awaited k s') = set (awaited k (cl_session c)) - {i}"
    "\<forall>k'. k' \<noteq> k \<longrightarrow> awaited k' s' = awaited k' (cl_session c)"
    "local_entry s' = local_entry (cl_session c)" "peer_entry s' = peer_entry (cl_session c)"
    using remove_awaited_ok [OF assms(2-4)] by blast
  then show ?thesis using connection.poll_suback_at [OF assms(1,6,5) s'(1)] by blast
qed

text \<open>The session in which the acknowledgement of the request \<open>i\<close> is awaited, and the acknowledgement.\<close>

definition await :: "suback_kind \<Rightarrow> pid \<Rightarrow> session \<Rightarrow> session" where
  "await k i s = (case k of Suback \<Rightarrow> s\<lparr>subs := subs s @ [i]\<rparr> | Unsuback \<Rightarrow> s\<lparr>unsubs := unsubs s @ [i]\<rparr>)"

lemma awaited_acknowledged:
  assumes "connection tr out room bytes pb free" and "swap_remove_ok sr" and "session_inv (cl_session c)"
    and "map_option fh_packet_identifier (get_free_handle (cl_session c)) = Some i"
    and "length (awaited k (cl_session c)) < SUBSCRIBE_MAXIMUM (cl_session c)"
    and "accepts_suback c k i items rc rs us"
    and "conn_at bytes out room free (suback_bytes k i items rc @ rest) sent j
        (ack_items_memory (MAX_USER_PROPERTIES c) None [] items + l) r1"
  shows "\<exists>s2 r2. poll sr tr pb (c\<lparr>cl_session := await k i (cl_session c), cl_raw := r1\<rparr>)
      = (Ok (suback_told k i rs us rc), c\<lparr>cl_session := s2, cl_raw := r2\<rparr>)
    \<and> set (subs s2) = set (subs (cl_session c)) \<and> set (unsubs s2) = set (unsubs (cl_session c))
    \<and> local_entry s2 = local_entry (cl_session c) \<and> peer_entry s2 = peer_entry (cl_session c)
    \<and> conn_at bytes out room free rest sent j l r2"
proof -
  let ?c = "c\<lparr>cl_session := await k i (cl_session c), cl_raw := r1\<rparr>"
  have i: "i \<notin> in_use (abs_session (cl_session c))" "pid_valid i"
    using get_free_handle_Some assms(4) by auto
  then have inv: "session_inv (cl_session ?c)" and "i \<in> set (awaited k (cl_session ?c))"
    using assms(3,5) by (cases k; auto simp: session_inv_def in_use_abs await_def)+
  moreover have "accepts_suback ?c k i items rc rs us" using assms(6) by (simp add: accepts_suback_def)
  ultimately obtain s2 r2 where
    r2: "poll sr tr pb ?c = (Ok (suback_told k i rs us rc), c\<lparr>cl_session := s2, cl_raw := r2\<rparr>)"
    "set (awaited k s2) = set (awaited k (cl_session ?c)) - {i}"
    "\<forall>k'. k' \<noteq> k \<longrightarrow> awaited k' s2 = awaited k' (cl_session ?c)"
    "local_entry s2 = local_entry (cl_session ?c)" "peer_entry s2 = peer_entry (cl_session ?c)"
    "conn_at bytes out room free rest sent j l r2"
    using suback_poll [OF assms(1,2), of ?c i k items rc rs us rest sent j l] assms(7) by auto
  have "set (subs s2) = set (subs (cl_session c))" "set (unsubs s2) = set (unsubs (cl_session c))"
    using r2(2,3) i(1) by (cases k; force simp: in_use_abs await_def split: suback_kind.splits)+
  moreover have "local_entry s2 = local_entry (cl_session c)" "peer_entry s2 = peer_entry (cl_session c)"
    using r2(4,5) by (cases k; simp add: await_def)+
  ultimately show ?thesis using r2(1,6) by blast
qed

text \<open>C8: A subscription comes to its end. When \<open>subscribe\<close> finds its conditions met (the server supports the
  filter, the session has a slot, the packet is not larger than the server takes), it writes exactly
  the SUBSCRIBE packet and returns the identifier in it, which was not in use and is the one that is
  awaited. When the server then acknowledges it, \<open>poll\<close> reports the reason code, the reason string and
  the user properties of the SUBACK packet, whether it grants or refuses, and the identifier is free
  again; all else in the session is as it was.\<close>

theorem subscription_completes:
  assumes "connection tr out room bytes pb free" and "swap_remove_ok sr" and "session_inv (cl_session c)"
    and "subscribable c t options i p" and "fits_server c (subscribe_bytes p)"
    and "accepts_suback c Suback i items rc rs us"
    and "conn_at bytes out room free (suback_bytes Suback i items rc @ rest) sent
        (length (subscribe_bytes p) + j) (ack_items_memory (MAX_USER_PROPERTIES c) None [] items + l) (cl_raw c)"
  shows "\<exists>c1 c2. client_subscribe tr t options c = (Ok i, c1)
    \<and> i \<notin> in_use (abs_session (cl_session c))
    \<and> subs (cl_session c1) = subs (cl_session c) @ [i]
    \<and> poll sr tr pb c1 = (Ok (EvSuback \<lparr>se_packet_identifier = i, se_reason_string = rs,
        se_user_properties = us, se_reason_code = rc\<rparr>), c2)
    \<and> set (subs (cl_session c2)) = set (subs (cl_session c))
    \<and> set (unsubs (cl_session c2)) = set (unsubs (cl_session c))
    \<and> local_entry (cl_session c2) = local_entry (cl_session c)
    \<and> peer_entry (cl_session c2) = peer_entry (cl_session c)
    \<and> conn_at bytes out room free rest (sent @ subscribe_bytes p) j l (cl_raw c2)"
proof -
  let ?s = "await Suback i (cl_session c)"
  have free: "map_option fh_packet_identifier (get_free_handle (cl_session c)) = Some i"
    "length (awaited Suback (cl_session c)) < SUBSCRIBE_MAXIMUM (cl_session c)"
    using assms(4) by (auto simp: subscribable_def)
  obtain r1 where r1: "client_subscribe tr t options c = (Ok i, c\<lparr>cl_session := ?s, cl_raw := r1\<rparr>)"
    "conn_at bytes out room free (suback_bytes Suback i items rc @ rest) (sent @ subscribe_bytes p) j
      (ack_items_memory (MAX_USER_PROPERTIES c) None [] items + l) r1"
    using connection.send_subscribe_at [OF assms(1) _ assms(4), where c = "c\<lparr>cl_session := ?s\<rparr>"] assms(5,7)
    by (fastforce simp: subscribe_run [OF assms(4)] Let_def await_def)
  from awaited_acknowledged [OF assms(1-3) free assms(6) r1(2)] obtain s2 r2 where
    "poll sr tr pb (c\<lparr>cl_session := ?s, cl_raw := r1\<rparr>)
      = (Ok (suback_told Suback i rs us rc), c\<lparr>cl_session := s2, cl_raw := r2\<rparr>)"
    "set (subs s2) = set (subs (cl_session c))" "set (unsubs s2) = set (unsubs (cl_session c))"
    "local_entry s2 = local_entry (cl_session c)" "peer_entry s2 = peer_entry (cl_session c)"
    "conn_at bytes out room free rest (sent @ subscribe_bytes p) j l r2"
    by blast
  moreover have "i \<notin> in_use (abs_session (cl_session c))" using get_free_handle_Some(3) free(1) by auto
  ultimately show ?thesis using r1(1)
    by (intro exI [of _ "c\<lparr>cl_session := ?s, cl_raw := r1\<rparr>"] exI [of _ "c\<lparr>cl_session := s2, cl_raw := r2\<rparr>"])
       (simp add: suback_told_def await_def)
qed

text \<open>A client that subscribes to the topic \<open>a\<close>, and a server that takes packets of at most \<open>m\<close> bytes.\<close>

definition plain_options :: subscription_options where
  "plain_options =
     \<lparr>so_retain_handling = AlwaysSend, so_retain_as_published = False, so_no_local = False,
      so_qos = AtLeastOnce, so_subscription_identifier = None, so_user_properties = []\<rparr>"

definition plain_subscribe :: subscribe_packet where
  "plain_subscribe = \<lparr>su_packet_identifier = 1, su_subscription_identifier = None, su_user_properties = [],
     su_subscribe_filters = [\<lparr>sf_topic = [0x61], sf_subscription_options = 1\<rparr>]\<rparr>"

definition plain_unsubscribe :: unsubscribe_packet where
  "plain_unsubscribe = \<lparr>un_packet_identifier = 1, un_user_properties = [], un_topic_filters = [[0x61]]\<rparr>"

abbreviation limited_to :: "u32 \<Rightarrow> (slice_reader \<times> slice_writer, unit) client \<Rightarrow> (slice_reader \<times> slice_writer, unit) client" where
  "limited_to m c \<equiv> c\<lparr>cl_server_config := server_config_default\<lparr>srv_maximum_packet_size := MpsLimit m\<rparr>\<rparr>"

lemma plain_lengths: "length (subscribe_bytes plain_subscribe) = 9" "length (unsubscribe_bytes plain_unsubscribe) = 8"
proof -
  have "length (subscribe_body_bytes plain_subscribe) = 7"
    by (simp add: subscribe_body_bytes_def subscribe_props_bytes_def plain_subscribe_def opt_bytes_def
        user_properties_bytes_def filters_bytes_def binary_bytes_def vbi_bytes.simps)
  moreover have "length (unsubscribe_body_bytes plain_unsubscribe) = 6"
    by (simp add: unsubscribe_body_bytes_def plain_unsubscribe_def user_properties_bytes_def
        user_properties_written_len_def binary_bytes_def vbi_bytes.simps)
  ultimately show "length (subscribe_bytes plain_subscribe) = 9" "length (unsubscribe_bytes plain_unsubscribe) = 8"
    by (simp_all add: subscribe_bytes_def unsubscribe_bytes_def fixed_header_bytes_def fixed_header_new_def vbi_bytes.simps)
qed

lemma plain_subscribable:
  "subscribable (limited_to m (slice_client inp k)) [0x61] plain_options 1 plain_subscribe"
  "unsubscribable (limited_to m (slice_client inp k)) [0x61] \<lparr>uo_user_properties = []\<rparr> 1 plain_unsubscribe"
  by (simp_all add: subscribable_def unsubscribable_def slice_client_def idle_client_def plain_options_def
      plain_subscribe_def plain_unsubscribe_def subscribe_ok_def unsubscribe_ok_def supports_filter_def
      server_config_default_def subscription_filter_new_def string_ok_def MAX_LENGTH_def session_default_def
      get_free_handle_def free_pid_from.simps pid_unused_def get_outbound_handle_def get_sub_handle_def
      get_unsub_handle_def pid_ONE_def qos_into_bits_def)

lemma plain_suback: "length (suback_body 1 [] [rc]) = 4"
  by (simp add: suback_body_def vbi_bytes.simps)

lemma plain_accepted:
  "sk_reason_code_allowed k rc \<Longrightarrow> accepts_suback (limited_to m (slice_client inp n)) k 1 [] rc None []"
  by (simp add: accepts_suback_def plain_suback pid_valid_def)
     (simp add: slice_client_def idle_client_def client_config_default_def MAX_ENCODABLE_def)

theorem subscription_completes_witness:
  "\<exists>c1 c2. client_subscribe slice_connection [0x61] plain_options
        (limited_to 9 (slice_client (suback_bytes Suback 1 [] RcGrantedQoS1 @ []) 9)) = (Ok 1, c1)
    \<and> slice_poll c1 = (Ok (EvSuback \<lparr>se_packet_identifier = 1, se_reason_string = None, se_user_properties = [],
        se_reason_code = RcGrantedQoS1\<rparr>), c2)
    \<and> subs (cl_session c1) = [1] \<and> subs (cl_session c2) = []
    \<and> slice_conn_at [] ([] @ subscribe_bytes plain_subscribe) 0 0 (cl_raw c2)"
proof -
  let ?inp = "suback_bytes Suback 1 [] RcGrantedQoS1 @ []"
  let ?c = "limited_to 9 (slice_client ?inp 9)"
  have inv: "session_inv (cl_session ?c)" by (simp add: session_inv_def session_default_def)
  have fits: "fits_server ?c (subscribe_bytes plain_subscribe)"
    by (simp add: fits_server_def plain_lengths maximum_packet_size_as_u32_def)
  have acc: "accepts_suback ?c Suback 1 [] RcGrantedQoS1 None []"
    by (rule plain_accepted) (simp add: sk_reason_code_allowed_def)
  have at: "slice_conn_at ?inp [] (length (subscribe_bytes plain_subscribe) + 0)
      (ack_items_memory (MAX_USER_PROPERTIES ?c) None [] [] + 0) (cl_raw ?c)"
    using slice_client_at [of "9 + 0" 9] by (simp add: plain_lengths)
  from subscription_completes [OF slice_contract last_takes_place_ok inv plain_subscribable(1) fits acc at]
  show ?thesis by (auto simp: session_default_def)
qed

text \<open>An unsubscription comes to its end in the same way: \<open>unsubscribe\<close> writes exactly the UNSUBSCRIBE
  packet, \<open>poll\<close> reports what the UNSUBACK packet says, and the identifier is free again.\<close>

theorem unsubscription_completes:
  assumes "connection tr out room bytes pb free" and "swap_remove_ok sr" and "session_inv (cl_session c)"
    and "unsubscribable c t options i p" and "fits_server c (unsubscribe_bytes p)"
    and "accepts_suback c Unsuback i items rc rs us"
    and "conn_at bytes out room free (suback_bytes Unsuback i items rc @ rest) sent
        (length (unsubscribe_bytes p) + j) (ack_items_memory (MAX_USER_PROPERTIES c) None [] items + l) (cl_raw c)"
  shows "\<exists>c1 c2. client_unsubscribe tr t options c = (Ok i, c1)
    \<and> i \<notin> in_use (abs_session (cl_session c))
    \<and> unsubs (cl_session c1) = unsubs (cl_session c) @ [i]
    \<and> poll sr tr pb c1 = (Ok (EvUnsuback \<lparr>se_packet_identifier = i, se_reason_string = rs,
        se_user_properties = us, se_reason_code = rc\<rparr>), c2)
    \<and> set (subs (cl_session c2)) = set (subs (cl_session c))
    \<and> set (unsubs (cl_session c2)) = set (unsubs (cl_session c))
    \<and> local_entry (cl_session c2) = local_entry (cl_session c)
    \<and> peer_entry (cl_session c2) = peer_entry (cl_session c)
    \<and> conn_at bytes out room free rest (sent @ unsubscribe_bytes p) j l (cl_raw c2)"
proof -
  let ?s = "await Unsuback i (cl_session c)"
  have free: "map_option fh_packet_identifier (get_free_handle (cl_session c)) = Some i"
    "length (awaited Unsuback (cl_session c)) < SUBSCRIBE_MAXIMUM (cl_session c)"
    using assms(4) by (auto simp: unsubscribable_def)
  obtain r1 where r1: "client_unsubscribe tr t options c = (Ok i, c\<lparr>cl_session := ?s, cl_raw := r1\<rparr>)"
    "conn_at bytes out room free (suback_bytes Unsuback i items rc @ rest) (sent @ unsubscribe_bytes p) j
      (ack_items_memory (MAX_USER_PROPERTIES c) None [] items + l) r1"
    using connection.send_unsubscribe_at [OF assms(1) _ assms(4), where c = "c\<lparr>cl_session := ?s\<rparr>"] assms(5,7)
    by (fastforce simp: unsubscribe_run [OF assms(4)] Let_def await_def)
  from awaited_acknowledged [OF assms(1-3) free assms(6) r1(2)] obtain s2 r2 where
    "poll sr tr pb (c\<lparr>cl_session := ?s, cl_raw := r1\<rparr>)
      = (Ok (suback_told Unsuback i rs us rc), c\<lparr>cl_session := s2, cl_raw := r2\<rparr>)"
    "set (subs s2) = set (subs (cl_session c))" "set (unsubs s2) = set (unsubs (cl_session c))"
    "local_entry s2 = local_entry (cl_session c)" "peer_entry s2 = peer_entry (cl_session c)"
    "conn_at bytes out room free rest (sent @ unsubscribe_bytes p) j l r2"
    by blast
  moreover have "i \<notin> in_use (abs_session (cl_session c))" using get_free_handle_Some(3) free(1) by auto
  ultimately show ?thesis using r1(1)
    by (intro exI [of _ "c\<lparr>cl_session := ?s, cl_raw := r1\<rparr>"] exI [of _ "c\<lparr>cl_session := s2, cl_raw := r2\<rparr>"])
       (simp add: suback_told_def await_def)
qed

theorem unsubscription_completes_witness:
  "\<exists>c1 c2. client_unsubscribe slice_connection [0x61] \<lparr>uo_user_properties = []\<rparr>
        (limited_to 8 (slice_client (suback_bytes Unsuback 1 [] RcSuccess @ []) 8)) = (Ok 1, c1)
    \<and> slice_poll c1 = (Ok (EvUnsuback \<lparr>se_packet_identifier = 1, se_reason_string = None, se_user_properties = [],
        se_reason_code = RcSuccess\<rparr>), c2)
    \<and> unsubs (cl_session c1) = [1] \<and> unsubs (cl_session c2) = []
    \<and> slice_conn_at [] ([] @ unsubscribe_bytes plain_unsubscribe) 0 0 (cl_raw c2)"
proof -
  let ?inp = "suback_bytes Unsuback 1 [] RcSuccess @ []"
  let ?c = "limited_to 8 (slice_client ?inp 8)"
  have inv: "session_inv (cl_session ?c)" by (simp add: session_inv_def session_default_def)
  have fits: "fits_server ?c (unsubscribe_bytes plain_unsubscribe)"
    by (simp add: fits_server_def plain_lengths maximum_packet_size_as_u32_def)
  have acc: "accepts_suback ?c Unsuback 1 [] RcSuccess None []"
    by (rule plain_accepted) (simp add: sk_reason_code_allowed_def)
  have at: "slice_conn_at ?inp [] (length (unsubscribe_bytes plain_unsubscribe) + 0)
      (ack_items_memory (MAX_USER_PROPERTIES ?c) None [] [] + 0) (cl_raw ?c)"
    using slice_client_at [of "8 + 0" 8] by (simp add: plain_lengths)
  from unsubscription_completes [OF slice_contract last_takes_place_ok inv plain_subscribable(2) fits acc at]
  show ?thesis by (auto simp: session_default_def)
qed

section \<open>A request that is too large\<close>

lemma ensure_OkD: "ensure b e s = (Ok a, s') \<Longrightarrow> b \<and> s' = s"
  by (auto simp: ensure_def run_simps split: if_splits)

lemma assert_OkD: "assert_user_properties us c = (Ok a, c') \<Longrightarrow> c' = c"
  by (auto simp: assert_user_properties_def asserts_def gets_def run_simps split: if_splits)

lemma ok_or_OkD: "ok_or e x s = (Ok a, s') \<Longrightarrow> x = Some a \<and> s' = s"
  by (auto simp: ok_or_def run_simps split: option.splits)

lemma gets_OkD: "gets f s = (Ok a, s') \<Longrightarrow> a = f s \<and> s' = s"
  by (auto simp: gets_def)

lemma subscribe_full:
  assumes "SUBSCRIBE_MAXIMUM (cl_session c) \<le> length (subs (cl_session c))"
  shows "client_subscribe tr t options c \<noteq> (Ok i, c')"
proof
  assume "client_subscribe tr t options c = (Ok i, c')"
  then obtain h s where h: "get_free_handle (cl_session c) = Some h" "outbound_sub h = (Inr (), s)"
    unfolding client_subscribe_def Let_def
    by (elim bnd_OkE)
       (auto dest!: ensure_OkD assert_OkD ok_or_OkD gets_OkD simp: on_session_def split: prod.splits)
  then show False
    using assms get_free_handle_Some(1) [OF h(1)] by (simp add: outbound_sub_def Let_def)
qed

text \<open>C40: A SUBSCRIBE packet that is larger than the server takes leaves its identifier behind. \<open>subscribe\<close>
  returns the error \<open>ServerMaximumPacketSizeExceeded\<close> and sends nothing, but the session awaits an
  acknowledgement that will not come; if it was the last slot, no \<open>subscribe\<close> succeeds any more,
  whatever it asks for, though the error is documented as recoverable.\<close>

theorem oversized_subscription_leaks:
  assumes "subscribable c t options i p" and "\<not> fits_server c (subscribe_bytes p)"
  shows "\<exists>c'. client_subscribe tr t options c = (Err MeServerMaximumPacketSizeExceeded, c')
    \<and> cl_raw c' = cl_raw c \<and> subs (cl_session c') = subs (cl_session c) @ [i]
    \<and> (SUBSCRIBE_MAXIMUM (cl_session c) = length (subs (cl_session c)) + 1 \<longrightarrow>
        (\<forall>t' options' i' c''. client_subscribe tr t' options' c' \<noteq> (Ok i', c'')))"
proof -
  let ?c = "c\<lparr>cl_session := (cl_session c)\<lparr>subs := subs (cl_session c) @ [i]\<rparr>\<rparr>"
  have "client_subscribe tr t options c = (Err MeServerMaximumPacketSizeExceeded, ?c)"
    using assms(2) by (simp add: subscribe_run [OF assms(1)] Let_def)
  then show ?thesis by (intro exI [of _ ?c]) (simp add: subscribe_full)
qed

theorem oversized_subscription_leaks_witness:
  "\<exists>c'. client_subscribe slice_connection [0x61] plain_options (limited_to 8 (slice_client [] 9))
        = (Err MeServerMaximumPacketSizeExceeded :: (bool mqtt_error, _) res, c')
    \<and> subs (cl_session c') = [1]
    \<and> (\<forall>t' options' i' c''. client_subscribe slice_connection t' options' c' \<noteq> (Ok i' :: (bool mqtt_error, _) res, c''))"
proof -
  let ?c = "limited_to 8 (slice_client [] 9)"
  have "\<not> fits_server ?c (subscribe_bytes plain_subscribe)"
    by (simp add: fits_server_def plain_lengths maximum_packet_size_as_u32_def)
  from oversized_subscription_leaks [OF plain_subscribable(1) this, where tr = slice_connection]
  show ?thesis by (auto simp: session_default_def)
qed

end
