(* ===== verification/Mqtt_Resumption.thy ===== *)
theory Mqtt_Resumption
  imports Mqtt_Arrival Mqtt_Connection Mqtt_Call_Effects
begin

text \<open>
  A session that outlives its connection. When \<open>connect\<close> reports that the server still has the session,
  the handshakes that the loss of the connection interrupted go on: outgoing publications can be sent
  again, incoming messages that the server sends again are recognised.
\<close>

section \<open>What a resumed connection does with the session\<close>

definition resumes :: "sess_ev list \<Rightarrow> ('k mqtt_error, connected) res \<Rightarrow> bool" where
  "resumes evs x \<longleftrightarrow> (\<forall>cn. x = Ok cn \<longrightarrow> cn_session_present cn \<longrightarrow> evs = [(OpReconnect, OutDone)])"

lemma effect_resume_connack: "effect sr P resumes (handle_connack options i ca)"
proof -
  have re: "effect sr P resumes (thn (on_session (\<lambda>s. Some ((), session_reconnect s))) rest)" if "silent rest" for rest
    by (rule effect_session [where op = OpReconnect and out = "\<lambda>_. OutDone"])
       (auto simp: exec_op_def that resumes_def ends_in_def)
  have cl: "effect sr P resumes (thn (on_session (\<lambda>s. Some ((), session_clear s))) rest)"
    if "silent rest" "ends_in (\<lambda>x. \<exists>cn. x = Ok cn \<and> \<not> cn_session_present cn) rest" for rest
    by (rule effect_session [where op = OpClear and out = "\<lambda>_. OutDone"])
       (use that in \<open>auto simp: exec_op_def resumes_def intro: ends_in_weaken\<close>)
  have bi: "bnd (if b then m else m') f = (if b then bnd m f else bnd m' f)" for b m m' and f :: "unit \<Rightarrow> _"
    by simp
  show ?thesis
    unfolding handle_connack_def bi
    by (rule effect_if | rule effect_case_option | rule re | rule cl | rule effect_silent silent_rules
        | simp add: ends_in_def run_defs reject_def close_def bnd_def resumes_def)+
qed

lemma resumed_session:
  fixes tr :: "('n, 'e, 'k) transport"
  assumes "session_inv (cl_session c0)" and "client_connect tr pb net options i c0 = (Ok cn, c)"
    and "cn_session_present cn"
  shows "cl_session c = session_reconnect (cl_session c0)"
proof -
  have "effect last_takes_place (\<lambda>_. True) resumes (client_connect tr pb net options i)"
    unfolding client_connect_def
    by (rule effect_resume_connack | rule effect_unwrap | rule effect_bnd_silent | rule effect_case_option
        | rule effect_if | rule effect_silent silent_rules | simp add: ends_in_reject | simp add: resumes_def)+
  then obtain evs where "sess_run last_takes_place (cl_session c0) evs (cl_session c)" "resumes evs (Ok cn :: ('k mqtt_error, _) res)"
    using assms(1,2) unfolding effect_def by blast
  then have "sess_run last_takes_place (cl_session c0) [(OpReconnect, OutDone)] (cl_session c)"
    using assms(3) by (simp add: resumes_def)
  then show ?thesis by (auto elim!: sess_run.cases simp: exec_op_def)
qed

lemma resumed_entries:
  "local_entry (session_reconnect s) p = map_option local_reconnected (local_entry s p)"
  "peer_entry (session_reconnect s) p = map_option peer_reconnected (peer_entry s p)"
  by (simp_all add: session_reconnect_def map_of_map_states)

section \<open>Sending a publication again\<close>

definition retry_qos :: "publication_options \<Rightarrow> pid \<Rightarrow> identified_qos" where
  "retry_qos options p = (if po_qos options = AtLeastOnce then IdAtLeastOnce p else IdExactlyOnce p)"

text \<open>All that \<open>republish\<close> asks for, but for the state of the handshake, before it sends the packet \<open>pk\<close>.\<close>

definition resendable ::
    "('n, 'b) client \<Rightarrow> publication_options \<Rightarrow> u8 list \<Rightarrow> pid \<Rightarrow> publish_packet \<Rightarrow> bool" where
  "resendable c options message p pk \<longleftrightarrow>
     length (po_user_properties options) \<le> MAX_USER_PROPERTIES c
   \<and> po_qos options \<noteq> AtMostOnce \<and> supported (cl_server_config c) options
   \<and> publish_packet_of True (retry_qos options p) options message = Some pk \<and> publish_ok pk
   \<and> word_of_nat (length (publish_bytes pk))
       \<le> maximum_packet_size_as_u32 (srv_maximum_packet_size (cl_server_config c))"

lemma resendable_update [simp]: "resendable (c\<lparr>cl_session := s, cl_raw := r\<rparr>) options message p pk = resendable c options message p pk"
  by (simp add: resendable_def)

lemma republish_steps:
  fixes tr :: "('n, 'e, 'k) transport" and c :: "('n, 'b) client"
  assumes "resendable c options message p pk"
  shows "client_republish tr p options message c
    = thn (bnd (on_session (\<lambda>s. outbound_republish s (retry_qos options p))) refused)
        (send_packet tr (\<lambda>wr. publish_send wr pk)) c"
proof -
  note r = assms [unfolded resendable_def]
  have "check_supported options c = (Ok () :: ('k mqtt_error, _) res, c)"
    "check_size (publish_remaining_len_raw pk) c = (Ok () :: ('k mqtt_error, _) res, c)"
    using r by (simp_all add: check_supported_ok check_size_ok)
  moreover have "(case po_qos options of AtMostOnce \<Rightarrow> crash | AtLeastOnce \<Rightarrow> ret (IdAtLeastOnce p)
      | ExactlyOnce \<Rightarrow> ret (IdExactlyOnce p)) = (ret (retry_qos options p) :: (('n, 'b) client, 'k mqtt_error, _) comp)"
    using r by (cases "po_qos options") (simp_all add: retry_qos_def)
  ultimately show ?thesis
    using r by (simp add: client_republish_def assert_user_properties_def asserts_def gets_def ret_def)
qed

lemma retry_qos_simps [simp]:
  "packet_identifier (retry_qos options p) = Some p" 
  "po_qos options \<noteq> AtMostOnce \<Longrightarrow> qos_of (retry_qos options p) = po_qos options"
  by (cases "po_qos options"; simp add: retry_qos_def)+

lemma republish_granted:
  assumes conn: "connection tr out room bytes pb free" and inv: "session_inv (cl_session c)"
    and r: "resendable c options message p pk"
    and e: "local_entry (cl_session c) p = Some st" "qos_of_local st = po_qos options" "republish_due st = Some eo"
    and at: "conn_at bytes out room free inp sent (length (publish_bytes pk) + j) l (cl_raw c)"
  shows "\<exists>s' r'. client_republish tr p options message c = (Ok (), c\<lparr>cl_session := s', cl_raw := r'\<rparr>)
    \<and> local_update (cl_session c) p eo s' \<and> conn_at bytes out room free inp (sent @ publish_bytes pk) j l r'"
proof -
  have q: "po_qos options \<noteq> AtMostOnce" "publish_ok pk" using r by (simp_all add: resendable_def)
  obtain s' where s': "outbound_republish (cl_session c) (retry_qos options p) = Some (Inr (), s')"
    "local_update (cl_session c) p eo s'"
    using vector_removal.outbound_republish_refines [OF vector_removal.intro [OF last_takes_place_ok] inv, of "retry_qos options p" p] e q(1)
    by (auto simp: user_request_def)
  obtain r' where "send_packet tr (\<lambda>wr. publish_send wr pk) (c\<lparr>cl_session := s'\<rparr>) = (Ok (), c\<lparr>cl_session := s', cl_raw := r'\<rparr>)"
    "conn_at bytes out room free inp (sent @ publish_bytes pk) j l r'"
    using connection.send_publish_at [OF conn, of inp sent pk j l "c\<lparr>cl_session := s'\<rparr>"] at q(2) by auto
  then show ?thesis using s' by (auto simp: republish_steps [OF r] on_session_def refused_def ret_def)
qed

context vector_removal
begin

lemma local_handle:
  assumes "session_inv s" and "local_entry s p = Some st"
  shows "\<exists>h. get_outbound_handle s p = Some h \<and> oh_state h = st \<and> oh_session h = s"
  using local.handle_None [OF assms(1), of p] local.handle_Some [OF assms(1), of p] assms(2)
  by (cases "get_outbound_handle s p") auto

end

lemma republish_refused:
  assumes inv: "session_inv (cl_session c)" and r: "resendable c options message p pk"
    and e: "local_entry (cl_session c) p = Some st" "qos_of_local st = po_qos options" "republish_due st = None"
  shows "client_republish tr p options message c = (Err MeHandshakeStateMismatched, c)"
proof -
  obtain h where h: "get_outbound_handle (cl_session c) p = Some h" "oh_state h = st" "oh_session h = cl_session c"
    using vector_removal.local_handle [OF vector_removal.intro [OF last_takes_place_ok] inv e(1)] by blast
  have "po_qos options \<noteq> AtMostOnce" using r by (simp add: resendable_def)
  then have "outbound_republish (cl_session c) (retry_qos options p) = Some (Inl SmHandshakeStateMismatched, cl_session c)"
    using h e(2,3) by (cases "po_qos options"; cases st) (auto simp: outbound_republish_def republish_due_def)
  then show ?thesis by (simp add: republish_steps [OF r] on_session_def refused_def fail_def)
qed

section \<open>A session on slices\<close>

text \<open>A client that resumes the session \<open>s\<close>, from a server that sends \<open>inp\<close> afterwards.\<close>

definition resuming_client :: "session \<Rightarrow> (slice_reader \<times> slice_writer, unit) client" where
  "resuming_client s = idle_client\<lparr>cl_session := s\<rparr>"

definition resuming_server :: "u8 list \<Rightarrow> nat \<Rightarrow> slice_reader \<times> slice_writer" where
  "resuming_server inp j = (slice_reader_new (connack_bytes True RcSuccess [] @ inp),
     slice_writer_new (replicate (length (connect_bytes hello) + j) 0))"

lemma slice_resumes:
  assumes "RECEIVE_MAXIMUM s = 2"
  shows "\<exists>cn c. slice_connect (resuming_server inp j) (resuming_client s) = (Ok cn, c) \<and> cn_session_present cn
    \<and> slice_conn_at inp (connect_bytes hello) j l (cl_raw c)
    \<and> cl_server_config c = server_config_default \<and> MAX_USER_PROPERTIES c = 1
    \<and> cfg_maximum_accepted_remaining_length (cl_client_config c) = u32_MAX"
proof -
  let ?ca = "cc_packet (connack_init True RcSuccess)" and ?c = "resuming_client s"
  have len: "length (connack_body True RcSuccess []) = 3"
    by (simp add: connack_body_def length_vbi_bytes)
  have sent: "connack_sent (MAX_USER_PROPERTIES ?c) True RcSuccess [] ?ca"
    unfolding connack_sent_def len by (simp add: connack_of_def connack_reason_code_allowed_def)
  have net: "slice_bytes (fst (resuming_server inp j)) = connack_bytes True RcSuccess [] @ inp"
    "slice_room (snd (resuming_server inp j)) (length (connect_bytes hello) + j)"
    "slice_out (snd (resuming_server inp j)) = []"
    by (simp_all add: resuming_server_def slice_bytes_def slice_reader_new_def slice_out_def slice_writer_new_def slice_room_def)
  have ready: "\<not> net_is_ok (ra_n (cl_raw ?c))" "header_fresh (ra_header (cl_raw ?c))" "MAX_USER_PROPERTIES ?c \<le> 1021"
    "connect_options_ok (MAX_USER_PROPERTIES ?c) connect_options_new"
    "connect_packet_of (MAX_USER_PROPERTIES ?c) (RECEIVE_MAXIMUM (cl_session ?c)) connect_options_new (Some [0x61]) = Some hello"
    using idle_setup assms by (simp_all add: resuming_client_def connect_packet_of_def hello_def connect_options_new_def)
  from connect_setup [OF slice_contract ready(1-4) idle_setup(5) ready(5) sent net(1,2) TrueI]
  obtain m r where m: "maximum_accepted_remaining_length (co_maximum_packet_size connect_options_new) = Some m"
    "slice_connect (resuming_server inp j) ?c = handle_connack connect_options_new (Some [0x61]) ?ca (connecting connect_options_new m r ?c)"
    "slice_conn_at inp (slice_out (snd (resuming_server inp j)) @ connect_bytes hello) j l r"
    by blast
  have "m = u32_MAX" using m(1) by (simp add: connect_options_new_def maximum_accepted_remaining_length_def)
  then show ?thesis
    using m(2,3) net(3)
    by (simp add: handle_connack_def connack_init_def is_success_def is_erroneous_def connect_options_new_def
        on_session_def modify_def ret_def server_config_of_def set_if_def resuming_client_def idle_client_def connecting_def)
qed

section \<open>Properties\<close>

text \<open>C15: A publication that the loss of a connection interrupted is sent again. When \<open>connect\<close> has resumed
  the session and the publication \<open>p\<close> was still waiting for its PUBACK or PUBREC (or was already due to be
  sent again), then \<open>republish\<close> with matching options succeeds on a connection that works: it writes
  exactly the PUBLISH packet, with the DUP flag and with the identifier \<open>p\<close>, and the publication waits
  for its acknowledgement as before; and without another connection, a second \<open>republish\<close> is refused and
  sends nothing. When the PUBREC had already come, \<open>republish\<close> is refused at once and sends nothing, and
  the PUBREL of \<open>p\<close> is due, so that \<open>rerelease\<close> or \<open>release\<close> sends it.\<close>

theorem resumed_publication_resent:
  assumes "connection tr out room bytes pb free" and "session_inv (cl_session c0)"
    and "client_connect tr pb net connect_options i c0 = (Ok cn, c)" and "cn_session_present cn"
    and "local_entry (cl_session c0) p = Some st" and "qos_of_local st = po_qos options"
    and "resendable c options message p pk"
    and "conn_at bytes out room free inp sent (length (publish_bytes pk) + j) l (cl_raw c)"
  shows "pu_dup pk \<and> pu_identified_qos pk = retry_qos options p \<and> pu_message pk = message
    \<and> (let resent = (\<lambda>st'. \<exists>s' r'. let c' = c\<lparr>cl_session := s', cl_raw := r'\<rparr> in
             client_republish tr p options message c = (Ok (), c')
           \<and> conn_at bytes out room free inp (sent @ publish_bytes pk) j l r'
           \<and> local_update (cl_session c) p (Some st') s'
           \<and> client_republish tr p options message c' = (Err MeHandshakeStateMismatched, c'));
         release_due = (\<lambda>m. client_republish tr p options message c = (Err MeHandshakeStateMismatched, c)
           \<and> local_entry (cl_session c) p = Some (DueRel m))
       in case st of
            AwaitAck \<Rightarrow> resent AwaitAck | DuePublishAtLeastOnce \<Rightarrow> resent AwaitAck
          | AwaitRec m \<Rightarrow> resent (AwaitRec m) | DuePublishExactlyOnce m \<Rightarrow> resent (AwaitRec m)
          | DueRel m \<Rightarrow> release_due m | AwaitComp m \<Rightarrow> release_due m)"
proof -
  note s = resumed_session [OF assms(2-4)]
  have inv: "session_inv (cl_session c)" using reconnect_inv [OF assms(2)] by (simp add: s)
  have e: "local_entry (cl_session c) p = Some (local_reconnected st)"
    "qos_of_local (local_reconnected st) = po_qos options"
    using assms(5,6) by (simp_all add: s resumed_entries)
  have resent: "\<exists>s' r'. let c' = c\<lparr>cl_session := s', cl_raw := r'\<rparr> in
             client_republish tr p options message c = (Ok (), c')
           \<and> conn_at bytes out room free inp (sent @ publish_bytes pk) j l r'
           \<and> local_update (cl_session c) p (Some st') s'
           \<and> client_republish tr p options message c' = (Err MeHandshakeStateMismatched, c')"
    if st': "republish_due (local_reconnected st) = Some (Some st')" for st'
  proof -
    obtain s' r' where g: "client_republish tr p options message c = (Ok (), c\<lparr>cl_session := s', cl_raw := r'\<rparr>)"
      "local_update (cl_session c) p (Some st') s'" "conn_at bytes out room free inp (sent @ publish_bytes pk) j l r'"
      using republish_granted [OF assms(1) inv assms(7) e st' assms(8)] by blast
    have "qos_of_local st' = po_qos options" "republish_due st' = None"
      using st' e(2) by (cases "local_reconnected st"; auto simp: republish_due_def)+
    then have "client_republish tr p options message (c\<lparr>cl_session := s', cl_raw := r'\<rparr>)
        = (Err MeHandshakeStateMismatched, c\<lparr>cl_session := s', cl_raw := r'\<rparr>)"
      using g(2) assms(7) by (intro republish_refused [where st = st' and pk = pk]) (simp_all add: local_update_def)
    then show ?thesis using g by (auto simp: Let_def)
  qed
  have due: "client_republish tr p options message c = (Err MeHandshakeStateMismatched, c)"
    if "republish_due (local_reconnected st) = None"
    by (rule republish_refused [OF inv assms(7) e that])
  show ?thesis
    using assms(7) e(1) resent due unfolding Let_def
    by (cases st) (auto simp: resendable_def publish_packet_of_def publish_new_def Let_def republish_due_def)
qed

theorem resumed_publication_resent_witness:
  "\<exists>cn c s' r'. slice_connect (resuming_server [] 9)
        (resuming_client ((session_default 1 2 2)\<lparr>outbound_publishes := [(1, AwaitRec Automatic)]\<rparr>)) = (Ok cn, c)
    \<and> cn_session_present cn
    \<and> client_republish slice_connection 1 memo_options [1] c
        = (Ok () :: (bool mqtt_error, unit) res, c\<lparr>cl_session := s', cl_raw := r'\<rparr>)
    \<and> slice_conn_at [] (connect_bytes hello @ publish_bytes (memo (IdExactlyOnce 1)\<lparr>pu_dup := True\<rparr>)) 0 0 r'
    \<and> local_update (cl_session c) 1 (Some (AwaitRec Automatic)) s'"
proof -
  let ?s = "(session_default 1 2 2)\<lparr>outbound_publishes := [(1, AwaitRec Automatic)]\<rparr>"
  let ?p = "memo (IdExactlyOnce 1)\<lparr>pu_dup := True\<rparr>"
  have rm: "RECEIVE_MAXIMUM ?s = 2" by (simp add: session_default_def)
  have inv: "session_inv (cl_session (resuming_client ?s))"
    and e: "local_entry (cl_session (resuming_client ?s)) 1 = Some (AwaitRec Automatic)"
    and q: "qos_of_local (AwaitRec Automatic) = po_qos memo_options"
    by (simp_all add: resuming_client_def session_inv_def session_default_def pid_valid_def memo_options_simps)
  have body: "publish_body_bytes ?p = publish_body_bytes (memo (IdExactlyOnce 1))"
    by (simp add: publish_body_bytes_def memo_def publish_props_bytes_def publish_topic_string_def)
  have len: "length (publish_bytes ?p) = 9"
    by (simp add: publish_bytes_def fixed_header_bytes_def publish_header_def fixed_header_new_def body memo_body vbi_bytes.simps)
  obtain cn c where c: "slice_connect (resuming_server [] 9) (resuming_client ?s) = (Ok cn, c)" "cn_session_present cn"
    "slice_conn_at [] (connect_bytes hello) 9 0 (cl_raw c)"
    "cl_server_config c = server_config_default" "MAX_USER_PROPERTIES c = 1"
    using slice_resumes [OF rm, of "[]" 9 0] by blast
  have "publish_ok ?p" using memo_ok [of 1] body by (simp add: publish_ok_def memo_def pid_valid_def)
  moreover have "publish_packet_of True (IdExactlyOnce 1) memo_options [1] = Some ?p"
    using publish_lengths(2) [of ?p] memo_body body
    by (simp add: publish_packet_of_def publish_new_def memo_options_simps memo_def Let_def)
  ultimately have r: "resendable c memo_options [1] 1 ?p"
    using len c(4,5) by (simp add: resendable_def supported_def memo_options_simps server_config_default_def
        maximum_packet_size_as_u32_def retry_qos_def)
  have at: "slice_conn_at [] (connect_bytes hello) (length (publish_bytes ?p) + 0) 0 (cl_raw c)" using c(3) by (simp add: len)
  show ?thesis
    using resumed_publication_resent [OF slice_contract inv c(1,2) e q r at] c(1,2) by (auto simp: Let_def)
qed

text \<open>C29: A message that the loss of a connection interrupted is not taken for a new one. When \<open>connect\<close> has
  resumed the session and the server sends a message of Quality of Service 2 again that had not been
  released, then \<open>poll\<close> reports it as a duplicate, with the topic, the payload and the properties of the
  packet and with the acknowledgement mode that was chosen when it came for the first time; it answers
  with the PUBREC again when that mode is automatic, and otherwise leaves the PUBREC to the user, also
  when it had been sent on the connection that was lost.\<close>

theorem resumed_message_duplicate:
  assumes "connection tr out room bytes pb free" and "session_inv (cl_session c0)"
    and "client_connect tr pb net connect_options i c0 = (Ok cn, c)" and "cn_session_present cn"
    and "peer_entry (cl_session c0) q = Some st"
    and "st \<in> {DueRec, AwaitRel m, AwaitPublishExactlyOnce m}" and "st = DueRec \<longrightarrow> m = Manual"
    and "accepts_publish c t p" and "pu_identified_qos p = IdExactlyOnce q"
    and "conn_at bytes out room free (publish_bytes p @ rest) sent (length (receipt (IdExactlyOnce q) m) + j)
        (publish_memory p + l) (cl_raw c)"
  shows "\<exists>s' r'. poll sr tr pb c = (Ok (EvDuplicate (publish_event_of m t p)), c\<lparr>cl_session := s', cl_raw := r'\<rparr>)
    \<and> conn_at bytes out room free rest (sent @ receipt (IdExactlyOnce q) m) j l r'
    \<and> peer_update (cl_session c) q (Some (if m = Automatic then AwaitRel Automatic else DueRec)) s'"
proof -
  note s = resumed_session [OF assms(2-4)]
  have inv: "session_inv (cl_session c)" using reconnect_inv [OF assms(2)] by (simp add: s)
  have e: "peer_entry (cl_session c) q = Some (AwaitPublishExactlyOnce m)"
    using assms(5-7) by (auto simp: s resumed_entries)
  have v: "pid_valid q" using assms(8,9) by (simp add: accepts_publish_def publish_ok_def)
  let ?mode = "chosen_mode c (publish_event_of Automatic t p)"
    and ?a = "if m = Automatic then Receive RcSuccess else RNone"
  obtain s' where s': "inbound_publish (cl_session c) (IdExactlyOnce q) ?mode = Some ((?a, SmDuplicate m), s')"
    "peer_update (cl_session c) q (Some (if m = Automatic then AwaitRel Automatic else DueRec)) s'"
    using vector_removal.inbound_publish_refines [OF vector_removal.intro [OF last_takes_place_ok] inv, of "IdExactlyOnce q" q ?mode] e v
    by (cases m) (auto simp: peer_publish_def)
  have ans: "answer_bytes (IdExactlyOnce q) ?a = Some (receipt (IdExactlyOnce q) m)" by (cases m) simp_all
  have ev: "told_of (publish_event_of ?mode t p) (SmDuplicate m) = Some (EvDuplicate (publish_event_of m t p))"
    by (simp add: publish_event_of_def)
  have "\<exists>r'. poll sr tr pb c = (Ok (EvDuplicate (publish_event_of m t p)), c\<lparr>cl_session := s', cl_raw := r'\<rparr>)
    \<and> conn_at bytes out room free rest (sent @ receipt (IdExactlyOnce q) m) j l r'"
    by (rule publish_poll [OF assms(1,8,10), unfolded assms(9), OF s'(1) ans ev]) (auto split: if_splits)
  then show ?thesis using s'(2) by blast
qed

theorem resumed_message_duplicate_witness:
  "\<exists>cn c s' r'. slice_connect (resuming_server (publish_bytes (memo (IdExactlyOnce 5)) @ []) 6)
        (resuming_client ((session_default 1 2 2)\<lparr>inbound_publishes := [(5, AwaitRel Automatic)]\<rparr>)) = (Ok cn, c)
    \<and> slice_poll c = (Ok (EvDuplicate (publish_event_of Automatic [0x61] (memo (IdExactlyOnce 5)))),
        c\<lparr>cl_session := s', cl_raw := r'\<rparr>)
    \<and> slice_conn_at [] (connect_bytes hello @ receipt (IdExactlyOnce 5) Automatic) 0 0 r'
    \<and> peer_update (cl_session c) 5 (Some (AwaitRel Automatic)) s'"
proof -
  let ?s = "(session_default 1 2 2)\<lparr>inbound_publishes := [(5, AwaitRel Automatic)]\<rparr>"
  let ?p = "memo (IdExactlyOnce 5)"
  have rm: "RECEIVE_MAXIMUM ?s = 2" by (simp add: session_default_def)
  have inv: "session_inv (cl_session (resuming_client ?s))"
    and e: "peer_entry (cl_session (resuming_client ?s)) 5 = Some (AwaitRel Automatic)"
    and v: "pid_valid 5" and iq: "pu_identified_qos ?p = IdExactlyOnce 5"
    by (simp_all add: resuming_client_def session_inv_def session_default_def pid_valid_def memo_def)
  obtain cn c where c: "slice_connect (resuming_server (publish_bytes ?p @ []) 6) (resuming_client ?s) = (Ok cn, c)"
    "cn_session_present cn" "slice_conn_at (publish_bytes ?p @ []) (connect_bytes hello) 6 (publish_memory ?p + 0) (cl_raw c)"
    "MAX_USER_PROPERTIES c = 1" "cfg_maximum_accepted_remaining_length (cl_client_config c) = u32_MAX"
    using slice_resumes [OF rm, of "publish_bytes ?p @ []" 6 "publish_memory ?p + 0"] by blast
  have acc: "accepts_publish c [0x61] ?p"
    using c(4,5) memo_ok [OF v] memo_body [of 5] by (simp add: accepts_publish_def memo_def)
  have st: "AwaitRel Automatic \<in> {DueRec, AwaitRel Automatic, AwaitPublishExactlyOnce Automatic}"
    "AwaitRel Automatic = DueRec \<longrightarrow> Automatic = Manual" by simp_all
  have at: "slice_conn_at (publish_bytes ?p @ []) (connect_bytes hello) (length (receipt (IdExactlyOnce 5) Automatic) + 0)
      (publish_memory ?p + 0) (cl_raw c)" using c(3) by simp
  show ?thesis
    using resumed_message_duplicate [OF slice_contract inv c(1,2) e st acc iq at, of last_takes_place] c(1) by auto
qed

end
