(* ===== verification/Mqtt_Bytes.thy ===== *)
theory Mqtt_Bytes
  imports Mqtt_Prelude
begin

text \<open>
  The type of \<open>src/bytes.rs\<close>, bytes that are owned or borrowed. The other theories have the bytes
  themselves in place of it; this one shows why they may: no operation but the constructor tells the
  two apart, so that \<open>as_bytes\<close> is an abstraction that every operation respects. The functions
  \<open>fmt\<close> and \<open>format\<close>, which print the constructor for debugging, are not modelled.
\<close>

section \<open>Owned and borrowed bytes\<close>

datatype bytes = Owned "u8 list" | Borrowed "u8 list"

definition as_bytes :: "bytes \<Rightarrow> u8 list" where
  "as_bytes self = (case self of Owned b \<Rightarrow> b | Borrowed s \<Rightarrow> s)"

definition as_borrowed :: "bytes \<Rightarrow> bytes" where
  "as_borrowed self = (case self of Owned b \<Rightarrow> Borrowed b | Borrowed s \<Rightarrow> Borrowed s)"

definition bytes_len :: "bytes \<Rightarrow> nat" where
  "bytes_len self = (case self of Owned b \<Rightarrow> length b | Borrowed s \<Rightarrow> length s)"

definition bytes_is_empty :: "bytes \<Rightarrow> bool" where
  "bytes_is_empty self \<longleftrightarrow> bytes_len self = 0"

definition bytes_clone :: "bytes \<Rightarrow> bytes" where
  "bytes_clone self = (case self of Owned b \<Rightarrow> Owned b | Borrowed s \<Rightarrow> Borrowed s)"

text \<open>\<open>From<Bytes> for Box<[u8]>\<close>: a borrowed slice is copied.\<close>

definition box_from_bytes :: "bytes \<Rightarrow> u8 list" where
  "box_from_bytes bytes = (case bytes of Owned b \<Rightarrow> b | Borrowed s \<Rightarrow> s)"

definition bytes_default :: bytes where
  "bytes_default = Borrowed []"

definition bytes_deref :: "bytes \<Rightarrow> u8 list" where
  "bytes_deref self = as_bytes self"

definition bytes_borrow :: "bytes \<Rightarrow> u8 list" where
  "bytes_borrow self = bytes_deref self"

text \<open>\<open>PartialEq\<close> compares what \<open>deref\<close> gives.\<close>

definition bytes_eq :: "bytes \<Rightarrow> bytes \<Rightarrow> bool" where
  "bytes_eq self other = (let one = bytes_deref self; other = bytes_deref other in one = other)"

text \<open>The conversions from slices, strings (given by their UTF-8 bytes), boxes and vectors.\<close>

definition bytes_from_mut_slice :: "u8 list \<Rightarrow> bytes" where
  "bytes_from_mut_slice value = Borrowed value"

definition bytes_from_slice :: "u8 list \<Rightarrow> bytes" where
  "bytes_from_slice value = Borrowed value"

definition bytes_from_mut_str :: "u8 list \<Rightarrow> bytes" where
  "bytes_from_mut_str value = Borrowed value"

definition bytes_from_str :: "u8 list \<Rightarrow> bytes" where
  "bytes_from_str value = Borrowed value"

definition bytes_from_box :: "u8 list \<Rightarrow> bytes" where
  "bytes_from_box value = Owned value"

definition bytes_from_vec :: "u8 list \<Rightarrow> bytes" where
  "bytes_from_vec value = Owned value"

section \<open>The abstraction to the bytes\<close>

lemmas bytes_defs = as_bytes_def as_borrowed_def bytes_len_def bytes_is_empty_def bytes_clone_def
  box_from_bytes_def bytes_default_def bytes_deref_def bytes_borrow_def bytes_eq_def
  bytes_from_mut_slice_def bytes_from_slice_def bytes_from_mut_str_def bytes_from_str_def
  bytes_from_box_def bytes_from_vec_def

lemma bytes_observed:
  "bytes_len b = length (as_bytes b)" "bytes_is_empty b \<longleftrightarrow> as_bytes b = []"
  "box_from_bytes b = as_bytes b" "bytes_borrow b = as_bytes b"
  "bytes_eq a b \<longleftrightarrow> as_bytes a = as_bytes b"
  by (cases b; simp add: bytes_defs Let_def)+

lemma bytes_built:
  "as_bytes (as_borrowed b) = as_bytes b" "as_bytes (bytes_clone b) = as_bytes b" "as_bytes bytes_default = []"
  "as_bytes (bytes_from_mut_slice v) = v" "as_bytes (bytes_from_slice v) = v" "as_bytes (bytes_from_mut_str v) = v"
  "as_bytes (bytes_from_str v) = v" "as_bytes (bytes_from_box v) = v" "as_bytes (bytes_from_vec v) = v"
  by (cases b; simp add: bytes_defs)+

text \<open>Equality is an equivalence, and a congruence for all that is observed.\<close>

lemma bytes_eq_equivp: "equivp bytes_eq"
  by (rule equivpI) (auto simp: reflp_def symp_def transp_def bytes_observed)

lemma bytes_eq_congruence:
  assumes "bytes_eq a b"
  shows "bytes_eq (as_borrowed a) (as_borrowed b)" and "bytes_eq (bytes_clone a) (bytes_clone b)"
    and "bytes_len a = bytes_len b" and "bytes_is_empty a = bytes_is_empty b"
    and "box_from_bytes a = box_from_bytes b" and "bytes_borrow a = bytes_borrow b"
  using assms by (simp_all add: bytes_observed bytes_built)

text \<open>A borrow is never owned, a clone owns exactly what the original owns, and conversion to a box and back is the identity.\<close>

lemma bytes_ownership:
  "as_borrowed b = Borrowed (as_bytes b)" "bytes_clone b = b"
  "bytes_eq (bytes_from_box (box_from_bytes b)) b"
  by (cases b; simp add: bytes_defs Let_def)+

end
