(* ===== verification/Spec2Isabelle.thy ===== *)
theory Spec2Isabelle
  imports Mqtt_Delivery Mqtt_Publish Mqtt_Requests Mqtt_Client_Histories Mqtt_Rerelease Mqtt_Client_Limits
    Mqtt_Connection Mqtt_Subscription Mqtt_Resumption Mqtt_Bytes
begin

text \<open>
  Verification of \<open>rust-mqtt\<close>, an MQTT version 5 client for embedded systems.

  \<^bold>\<open>The program.\<close> The user of \<open>Client\<close> (\<open>src/client/mod.rs\<close>) connects it to a transport, makes requests
  (\<open>subscribe\<close>, \<open>publish\<close>, \<open>manual_acknowledge\<close> and so on) and calls \<open>poll\<close>, which receives one packet of
  the server and returns an event. The client has four parts: a configuration (\<open>src/config\<close>), the
  options, errors and events that pass to and from the user (\<open>src/client/options\<close>, \<open>err.rs\<close>,
  \<open>event.rs\<close>), the session (\<open>src/session\<close>), which keeps the packet identifiers in flight and the state
  of every Quality of Service handshake, and the raw client (\<open>src/client/raw\<close>), which owns the
  transport and knows whether it still works. Packets (\<open>src/v5/packet\<close>) are written to and read from
  the transport through the readers and writers of \<open>src/io\<close>, property by property (\<open>src/v5/property\<close>);
  variable data is stored in memory of a buffer provider (\<open>src/buffer.rs\<close>). A call of the client checks
  its arguments against the configuration, asks the session, and sends packets through the raw client;
  \<open>poll\<close> receives a packet, hands it to the session, sends the answer that the session asks for, and
  makes the event.

  \<^bold>\<open>How it is modelled.\<close> Fallible code is a computation \<open>('s, 'e, 'a) comp\<close>: a function from a state to a
  result, which is \<open>Ok\<close>, \<open>Err\<close> or \<open>Panic\<close>, and the state it leaves behind. \<open>bnd\<close> is the \<open>?\<close> operator. In
  the session \<open>None\<close> is a panic. Panics are those of a debug build: failed assertions, \<open>unreachable!\<close>,
  \<open>unwrap\<close>, indexing and integer overflow. Integers have their width (\<open>u8\<close>, \<open>u16\<close>, \<open>u32\<close> are words), with
  the exception of \<open>usize\<close>, which is \<open>nat\<close>; a cast \<open>as u32\<close> of a length is \<open>word_of_nat\<close>, which truncates.
  Const generics are fields of the records or arguments. A heapless vector is a list whose capacity
  is checked where the code pushes. \<open>async\<close> functions run to their end; a caller that drops a future
  half way is not modelled, with the exception of the state that \<open>poll_header\<close> keeps for that case.
  Logging has no effect.

  Code outside the repository is a parameter: the transport (\<open>tr\<close>, a record of \<open>read\<close>, \<open>write\<close>, \<open>flush\<close>
  and the kinds of its errors), the buffer provider (\<open>pb\<close>), and the order in which \<open>swap_remove\<close> of
  heapless leaves a vector (\<open>sr\<close>). What is assumed of them are the locales \<open>byte_sink\<close>, \<open>byte_source\<close>,
  \<open>byte_stream\<close>, \<open>buffer_provider\<close>, \<open>packet_body\<close>, \<open>live_stream\<close>, \<open>connection\<close> and \<open>vector_removal\<close>, all of
  them interpreted on the slice reader and writer of \<open>src/test\<close>, the two providers of \<open>src/buffer.rs\<close>
  and the order that the documentation of \<open>swap_remove\<close> gives. Of these, the safety theorems about the
  calls of the client need at most the last: they hold for every transport, provider and server.

  Every definition that translates code is executable and total. Loops are structural or have a termination proof. The one
  loop with fuel is \<open>body_while\<close>, the loop over the properties of a body: its fuel is one more than
  the bytes that are left of the body, every round reads at least one byte, and \<open>body_while_unfold\<close>
  is the equation of the loop without fuel.

  \<^bold>\<open>The theories.\<close>

  \<^item> \<open>Mqtt_Prelude\<close>: machine integers, results, combinators, positions and removals in vectors,
    association lists.
  \<^item> \<open>Mqtt_Types\<close>, \<open>Mqtt_Topic\<close>: \<open>src/types\<close> and \<open>src/header.rs\<close>: packet identifiers, Quality of Service,
    reason codes, variable byte integers, the fixed header; binary data, UTF-8 strings, topic names
    and filters. The byte loop of \<open>TopicFilter::is_valid\<close> accepts exactly a declarative grammar of
    levels (\<open>topic_filter_valid_iff\<close>).
  \<^item> \<open>Mqtt_Bytes\<close>: \<open>src/bytes.rs\<close>, owned and borrowed bytes, and why the other theories may have lists of
    bytes in place of them.
  \<^item> \<open>Mqtt_Session\<close>: \<open>src/session\<close>, every operation of the session and its handles. \<open>Mqtt_Handshake\<close>: the
    invariant \<open>session_inv\<close>, and for every operation the transition of one entry that it makes.
    \<open>Mqtt_Session_Runs\<close>: an abstract specification over finite maps and sets, the simulation, and
    histories of operations. \<open>Mqtt_Delivery\<close>: the guarantees over all histories: a Quality of Service 2
    message is delivered once, released once, identifiers in flight are not given out again, nothing
    is sent again after a PUBREC or without a reconnection. Each is an instance of the locale \<open>until\<close>.
  \<^item> \<open>Mqtt_IO\<close>: \<open>src/io\<close> and \<open>src/buffer.rs\<close>. \<open>Mqtt_Codec\<close>: the contracts of transports and stores, and
    \<open>writes\<close>, \<open>reads\<close>, \<open>parses\<close>, the calculus in which all round trips are proved. \<open>Mqtt_Transport\<close>:
    \<open>src/test\<close>, the instances, and the body reader as a store of its own. \<open>Mqtt_Frame\<close>: no reader takes
    more than its packet.
  \<^item> \<open>Mqtt_Property\<close>: \<open>src/v5/property\<close> and \<open>src/packet\<close>. \<open>Mqtt_Pubacks\<close>, \<open>Mqtt_Publish\<close>, \<open>Mqtt_Requests\<close>
    (CONNECT, SUBSCRIBE, UNSUBSCRIBE), \<open>Mqtt_Connack\<close>, \<open>Mqtt_Subacks\<close>, \<open>Mqtt_Disconnect\<close>: \<open>src/v5/packet\<close>,
    with a theorem per packet that it is written as MQTT 5 lays it out, in \<open>encoded_len\<close> bytes, or read
    back with its values, or rejected with the right error. \<open>Mqtt_Outcomes\<close>: rejections.
    \<open>Mqtt_Receivers\<close>: what all receivers and all senders keep, whatever the input.
  \<^item> \<open>Mqtt_Header\<close>, \<open>Mqtt_Raw\<close>: \<open>src/client/raw\<close>: the header state machine agrees with reading the header in
    one go, is total, and takes at most five bytes; the network state, receiving, sending, closing
    and aborting; the contract \<open>connection\<close>.
  \<^item> \<open>Mqtt_Config\<close>, \<open>Mqtt_Options\<close>: \<open>src/config\<close>, \<open>src/client/options\<close>, \<open>err.rs\<close>, \<open>event.rs\<close>.
  \<^item> \<open>Mqtt_Client\<close>: \<open>src/client/mod.rs\<close>, every operation. The arms of \<open>poll_body\<close> are definitions of their
    own. \<open>Mqtt_Client_Calls\<close>: the calls as a datatype; recoverable errors leave the connection
    untouched, all others give it up, and success keeps it. \<open>Mqtt_Received\<close>: every event is
    well-formed, whatever the server sends. \<open>Mqtt_Call_Effects\<close>: which operations of the session every
    call performs, and what its result and the packet it took from the connection (\<open>took\<close>) tell about
    them. \<open>Mqtt_Client_Histories\<close>: histories of calls, to which the delivery guarantees of the session
    are carried over.
  \<^item> \<open>Mqtt_Exchange\<close>: the calls on a connection that works (\<open>conn_at\<close>: the bytes of the server, the bytes
    written, the room and memory left). \<open>Mqtt_Completion\<close>: the two Quality of Service 2 handshakes come to
    their end. \<open>Mqtt_Arrival\<close>: what one client publishes, another receives as it was. \<open>Mqtt_Rerelease\<close>: the
    retransmission of PUBREL packets. \<open>Mqtt_Connection\<close>: what \<open>connect\<close> writes, and what it makes of every
    well-formed CONNACK packet, whether it establishes the connection, refuses it or breaks the protocol.
    \<open>Mqtt_Resumption\<close>: what a resumed session does with the handshakes that were interrupted: \<open>republish\<close> of
    outgoing publications, duplicates of incoming messages. \<open>Mqtt_Subscription\<close>: subscriptions and unsubscriptions, from the request to the acknowledgement that
    frees the identifier. \<open>Mqtt_Client_Limits\<close>: the limit on the size of packets, and faults
    that the model shows: two panics that a server can cause, and a message that is lost.

  \<^bold>\<open>Faults.\<close> Some theorems show behaviour that is not intended: \<open>topic_filter_valid_iff\<close> (the exception
  \<open>bare_share_name\<close> of its grammar, a share name that no topic filter follows), \<open>publish_length_truncated\<close>, \<open>stale_header_after_reconnect\<close>, \<open>pubcomp_not_found_panics\<close>,
  \<open>send_quota_underflow\<close>, \<open>message_lost_with_pubrec\<close> and \<open>oversized_subscription_leaks\<close>.

  \<^bold>\<open>Bounds of the theorems.\<close> The theorems on packets hold for up to 2047 user properties in acknowledgements,
  2046 in DISCONNECT, 1021 in CONNECT, SUBSCRIBE and UNSUBSCRIBE, which is the bound that \<open>Client::new\<close>
  asserts, and for PUBLISH up to the largest body that a variable byte integer can announce, 268435455
  bytes. The theorems on exchanges ask \<open>conn_at\<close> for just the room and memory that their packets need.

  \<^bold>\<open>Not modelled.\<close> The \<open>as_borrowed\<close> of the types that wrap \<open>Bytes\<close>, which borrow their field.
  \<open>src/fmt.rs\<close> and all formatting: logging. Accessors that return a reference to a field. The writer of
  the property \<open>ServerKeepAlive\<close>, which no packet uses. Cancellation of futures other than
  \<open>poll_header\<close>. Time: the keep alive interval is a value that is negotiated; the client has no timer.
  The unit tests, the integration tests and the examples.

  The field \<open>ra_dropped\<close> of the raw client is not in the code: it records the connections that were
  dropped, so that theorems can state what was written to them.
\<close>

end
